(* ===== verification/Rust_Prelude.thy ===== *)
theory Rust_Prelude
  imports Main "HOL-Library.Word" "HOL-Library.Code_Target_Nat"
begin

text \<open>
  Shared vocabulary of the development: what the Rust sources use of the language and its
  standard library.

  A Rust \<^verbatim>\<open>str\<close> is its UTF-8 byte sequence, here a \<^typ>\<open>string\<close> (one \<^typ>\<open>char\<close> is one
  byte), so \<^verbatim>\<open>len()\<close> is \<^term>\<open>length\<close>.  \<open>chars\<close> cuts the bytes into the groups that
  encode one scalar value each; the character predicates of the library
  (\<^verbatim>\<open>is_whitespace\<close>, \<^verbatim>\<open>is_control\<close>) are defined on such a group and cover the multi-byte
  members of the Unicode classes.  Splitting at an ASCII separator works on bytes directly,
  because an ASCII byte never occurs inside a longer group.

  Fixed-width integers are words where bits or wrap-around matter and bounded
  \<^typ>\<open>int\<close>/\<^typ>\<open>nat\<close> with the narrowing written out elsewhere.
\<close>

unbundle bit_operations_syntax

named_theorems rust_std "unfolding rules for the modelled standard library"

type_synonym u8 = "8 word"
type_synonym u16 = "16 word"
type_synonym u32 = "32 word"
type_synonym u64 = "64 word"
type_synonym ms = int

section \<open>Bounded integers\<close>

definition wrap_i32 :: "int \<Rightarrow> int" where
  "wrap_i32 x = (x + 2 ^ 31) mod 2 ^ 32 - 2 ^ 31"

definition i32_max :: int where "i32_max = 2 ^ 31 - 1"
definition i64_min :: int where "i64_min = - (2 ^ 63)"
definition i64_max :: int where "i64_max = 2 ^ 63 - 1"

text \<open>\<^verbatim>\<open>i32::saturating_add\<close> and \<^verbatim>\<open>i64::saturating_sub\<close>, \<^verbatim>\<open>u64::saturating_add\<close>,
  \<^verbatim>\<open>u64::checked_sub\<close>.\<close>

definition sat_i32 :: "int \<Rightarrow> int" where
  "sat_i32 x = max (- (2 ^ 31)) (min i32_max x)"

definition sat_i64 :: "int \<Rightarrow> int" where
  "sat_i64 x = max i64_min (min i64_max x)"

definition saturating_add_u64 :: "u64 \<Rightarrow> u64 \<Rightarrow> u64" where
  "saturating_add_u64 a b = (if unat a + unat b < 2 ^ 64 then a + b else 0xFFFFFFFFFFFFFFFF)"

definition checked_sub_u64 :: "u64 \<Rightarrow> u64 \<Rightarrow> u64 option" where
  "checked_sub_u64 a b = (if b \<le> a then Some (a - b) else None)"

lemma wrap_i32_id [simp]: "- (2 ^ 31) \<le> x \<Longrightarrow> x < 2 ^ 31 \<Longrightarrow> wrap_i32 x = x"
  by (simp add: wrap_i32_def)

lemma wrap_i32_bounds: "- (2 ^ 31) \<le> wrap_i32 x \<and> wrap_i32 x < 2 ^ 31"
  by (simp add: wrap_i32_def)

lemma unat_saturating_add_u64: "unat (saturating_add_u64 a b) = min (unat a + unat b) (2 ^ 64 - 1)"
  by (auto simp: saturating_add_u64_def unat_word_ariths min_def)

lemma checked_sub_u64_eq_Some:
  "checked_sub_u64 a b = Some d \<longleftrightarrow> b \<le> a \<and> unat a = unat b + unat d"
proof -
  have "b \<le> a \<Longrightarrow> (a - b = d) = (unat a = unat b + unat d)"
    by (auto simp: word_le_nat_alt unat_sub word_unat_eq_iff)
  then show ?thesis by (auto simp: checked_sub_u64_def)
qed

section \<open>Bytes and characters\<close>

abbreviation byte :: "char \<Rightarrow> nat" where
  "byte c \<equiv> of_char c"

definition is_ascii_digit :: "char \<Rightarrow> bool" where
  "is_ascii_digit c \<longleftrightarrow> 48 \<le> byte c \<and> byte c \<le> 57"

definition is_ascii_alphabetic :: "char \<Rightarrow> bool" where
  "is_ascii_alphabetic c \<longleftrightarrow> 65 \<le> byte c \<and> byte c \<le> 90 \<or> 97 \<le> byte c \<and> byte c \<le> 122"

definition is_ascii_alphanumeric :: "char \<Rightarrow> bool" where
  "is_ascii_alphanumeric c \<longleftrightarrow> is_ascii_digit c \<or> is_ascii_alphabetic c"

definition is_ascii_hexdigit :: "char \<Rightarrow> bool" where
  "is_ascii_hexdigit c \<longleftrightarrow>
     is_ascii_digit c \<or> 65 \<le> byte c \<and> byte c \<le> 70 \<or> 97 \<le> byte c \<and> byte c \<le> 102"

definition to_ascii_lowercase :: "char \<Rightarrow> char" where
  "to_ascii_lowercase c = (if 65 \<le> byte c \<and> byte c \<le> 90 then char_of (byte c + 32) else c)"

definition eq_ignore_ascii_case :: "string \<Rightarrow> string \<Rightarrow> bool" where
  "eq_ignore_ascii_case a b \<longleftrightarrow> map to_ascii_lowercase a = map to_ascii_lowercase b"

text \<open>The continuation bytes \<^verbatim>\<open>0x80..0xBF\<close> of UTF-8, and the scalar values of a string.\<close>

definition is_cont :: "char \<Rightarrow> bool" where
  "is_cont c \<longleftrightarrow> 128 \<le> byte c \<and> byte c < 192"

function (sequential) chars :: "string \<Rightarrow> string list" where
  "chars [] = []"
| "chars (c # s) = (c # takeWhile is_cont s) # chars (dropWhile is_cont s)"
  by pat_completeness auto
termination
  by (relation "measure length") (auto simp: length_dropWhile_le le_imp_less_Suc)

definition is_whitespace :: "string \<Rightarrow> bool" where
  "is_whitespace u =
     (case map byte u of
        [a] \<Rightarrow> 9 \<le> a \<and> a \<le> 13 \<or> a = 32
      | [a, b] \<Rightarrow> a = 194 \<and> (b = 133 \<or> b = 160)
      | [a, b, c] \<Rightarrow>
          a = 225 \<and> b = 154 \<and> c = 128 \<or>
          a = 226 \<and> b = 128 \<and> (128 \<le> c \<and> c \<le> 138 \<or> c = 168 \<or> c = 169 \<or> c = 175) \<or>
          a = 226 \<and> b = 129 \<and> c = 159 \<or>
          a = 227 \<and> b = 128 \<and> c = 128
      | _ \<Rightarrow> False)"

definition is_control :: "string \<Rightarrow> bool" where
  "is_control u =
     (case map byte u of
        [a] \<Rightarrow> a < 32 \<or> a = 127
      | [a, b] \<Rightarrow> a = 194 \<and> 128 \<le> b \<and> b \<le> 159
      | _ \<Rightarrow> False)"

section \<open>Splitting, joining and trimming\<close>

fun splitp :: "('a \<Rightarrow> bool) \<Rightarrow> 'a list \<Rightarrow> 'a list list" where
  "splitp p [] = [[]]"
| "splitp p (x # xs) =
     (if p x then [] # splitp p xs
      else (case splitp p xs of [] \<Rightarrow> [[x]] | y # ys \<Rightarrow> (x # y) # ys))"

fun join :: "'a list \<Rightarrow> 'a list list \<Rightarrow> 'a list" where
  "join s [] = []"
| "join s [x] = x"
| "join s (x # y # ys) = x @ s @ join s (y # ys)"

fun split_once :: "'a \<Rightarrow> 'a list \<Rightarrow> ('a list \<times> 'a list) option" where
  "split_once c [] = None"
| "split_once c (x # xs) =
     (if x = c then Some ([], xs) else map_option (\<lambda>(a, b). (x # a, b)) (split_once c xs))"

definition rsplit_once :: "'a \<Rightarrow> 'a list \<Rightarrow> ('a list \<times> 'a list) option" where
  "rsplit_once c xs = map_option (\<lambda>(a, b). (rev b, rev a)) (split_once c (rev xs))"

definition str_split :: "(string \<Rightarrow> bool) \<Rightarrow> string \<Rightarrow> string list" where
  "str_split p s = map concat (splitp p (chars s))"

definition trim :: "string \<Rightarrow> string" where
  "trim s = concat (rev (dropWhile is_whitespace (rev (dropWhile is_whitespace (chars s)))))"

definition starts_with :: "'a list \<Rightarrow> 'a list \<Rightarrow> bool" where
  "starts_with s p \<longleftrightarrow> take (length p) s = p"

definition ends_with :: "'a list \<Rightarrow> 'a list \<Rightarrow> bool" where
  "ends_with s p \<longleftrightarrow> length p \<le> length s \<and> drop (length s - length p) s = p"

fun str_contains :: "'a list \<Rightarrow> 'a list \<Rightarrow> bool" where
  "str_contains [] p \<longleftrightarrow> p = []"
| "str_contains (c # s) p \<longleftrightarrow> starts_with (c # s) p \<or> str_contains s p"

lemma starts_with_append [simp]: "starts_with (p @ s) p"
  by (simp add: starts_with_def)

lemma ends_with_append [simp]: "ends_with (s @ p) p"
  by (simp add: ends_with_def)

lemma splitp_not_Nil [simp]: "splitp p xs \<noteq> []"
  by (induction xs) (auto split: list.splits)

lemma splitp_pieces: "ys \<in> set (splitp p xs) \<Longrightarrow> x \<in> set ys \<Longrightarrow> \<not> p x \<and> x \<in> set xs"
proof (induction xs arbitrary: ys)
  case (Cons a xs)
  show ?case
  proof (cases "splitp p xs")
    case (Cons z zs)
    with Cons.IH[of ys] Cons.IH[of z] Cons.prems show ?thesis by (auto split: if_splits)
  qed simp
qed simp

lemma splitp_free: "(\<And>x. x \<in> set xs \<Longrightarrow> \<not> p x) \<Longrightarrow> splitp p xs = [xs]"
  by (induction xs) auto

lemma splitp_append_sep:
  "(\<And>x. x \<in> set xs \<Longrightarrow> \<not> p x) \<Longrightarrow> p c \<Longrightarrow> splitp p (xs @ c # ys) = xs # splitp p ys"
  by (induction xs) auto

lemma splitp_join:
  assumes "p c" and "xss \<noteq> []" and "\<And>xs x. xs \<in> set xss \<Longrightarrow> x \<in> set xs \<Longrightarrow> \<not> p x"
  shows "splitp p (join [c] xss) = xss"
  using assms(2,3)
proof (induction "[c]" xss rule: join.induct)
  case (2 x)
  then show ?case by (simp add: splitp_free)
next
  case (3 x y ys)
  have IH: "splitp p (join [c] (y # ys)) = y # ys"
    using 3(3) by (intro 3(1)) auto
  have "splitp p (x @ c # join [c] (y # ys)) = x # splitp p (join [c] (y # ys))"
    using 3(3) assms(1) by (intro splitp_append_sep) auto
  with IH show ?case by simp
qed simp

lemma split_once_None: "split_once c xs = None \<longleftrightarrow> c \<notin> set xs"
  by (induction xs) auto

lemma split_once_Some:
  "split_once c xs = Some (a, b) \<Longrightarrow> xs = a @ c # b \<and> c \<notin> set a"
  by (induction xs arbitrary: a) (auto split: if_splits)

lemma split_once_append: "c \<notin> set a \<Longrightarrow> split_once c (a @ c # b) = Some (a, b)"
  by (induction a) auto

lemma rsplit_once_append: "c \<notin> set b \<Longrightarrow> rsplit_once c (a @ c # b) = Some (a, b)"
  using split_once_append[of c "rev b" "rev a"] by (simp add: rsplit_once_def)

lemma rsplit_once_None: "rsplit_once c xs = None \<longleftrightarrow> c \<notin> set xs"
  by (simp add: rsplit_once_def split_once_None)

lemma rsplit_once_Some:
  assumes "rsplit_once c xs = Some (a, b)"
  shows "xs = a @ c # b \<and> c \<notin> set b"
proof -
  from assms have "split_once c (rev xs) = Some (rev b, rev a)"
    by (auto simp: rsplit_once_def)
  then have "rev xs = rev b @ c # rev a \<and> c \<notin> set (rev b)"
    by (rule split_once_Some)
  then show ?thesis by (simp add: rev_swap)
qed

subsection \<open>Groups of bytes\<close>

text \<open>
  The character groups of a string: none is empty, everything after the first byte of a group
  is a continuation byte, and only the very first group of the string can start with one
  (which a valid \<^verbatim>\<open>str\<close> excludes).  Cutting and joining keep this shape.
\<close>

definition groups_ok :: "string list \<Rightarrow> bool" where
  "groups_ok gs \<longleftrightarrow>
     list_all (\<lambda>g. g \<noteq> [] \<and> list_all is_cont (tl g)) gs \<and> list_all (\<lambda>g. \<not> is_cont (hd g)) (tl gs)"

lemma concat_chars [simp]: "concat (chars s) = s"
  by (induction s rule: chars.induct) auto

lemma chars_dropWhile_lead: "list_all (\<lambda>g. \<not> is_cont (hd g)) (chars (dropWhile is_cont s))"
proof (induction s rule: length_induct)
  case (1 s)
  show ?case
  proof (cases "dropWhile is_cont s")
    case (Cons c t)
    then have "\<not> is_cont c" using hd_dropWhile[of is_cont s] by simp
    moreover have "length t < length s"
      using length_dropWhile_le[of is_cont s] Cons by simp
    ultimately show ?thesis using 1 unfolding Cons by simp
  next
    case Nil
    show ?thesis unfolding Nil by simp
  qed
qed

lemma list_all_takeWhile: "list_all P (takeWhile P xs)"
  by (induction xs) auto

lemma groups_ok_chars: "groups_ok (chars s)"
proof -
  have "list_all (\<lambda>g. g \<noteq> [] \<and> list_all is_cont (tl g)) (chars s)"
    by (induction s rule: chars.induct) (auto simp: list_all_takeWhile)
  then show ?thesis
    by (cases s) (auto simp: groups_ok_def chars_dropWhile_lead)
qed

lemma groups_ok_Cons: "groups_ok (g # gs) \<Longrightarrow> groups_ok gs"
  by (cases gs) (auto simp: groups_ok_def)

lemma chars_concat: "groups_ok gs \<Longrightarrow> chars (concat gs) = gs"
proof (induction gs)
  case (Cons g gs)
  then obtain c t where g: "g = c # t" "list_all is_cont t"
    by (cases g) (auto simp: groups_ok_def)
  have stop: "takeWhile is_cont (concat gs) = []" "dropWhile is_cont (concat gs) = concat gs"
    using Cons.prems by (cases gs; cases "hd gs"; simp add: groups_ok_def)+
  have "takeWhile is_cont (t @ concat gs) = t" "dropWhile is_cont (t @ concat gs) = concat gs"
    using g(2) stop by (simp_all add: list_all_iff takeWhile_append2 dropWhile_append2)
  with g Cons groups_ok_Cons show ?case by auto
qed simp

lemma concat_join: "concat (join s gss) = join (concat s) (map concat gss)"
  by (induction s gss rule: join.induct) auto

lemma set_join: "set (join s xss) \<subseteq> set s \<union> \<Union> (set ` set xss)"
  by (induction s xss rule: join.induct) auto

lemma list_all_join: "list_all P s \<Longrightarrow> (\<And>xs. xs \<in> set xss \<Longrightarrow> list_all P xs) \<Longrightarrow> list_all P (join s xss)"
  by (induction s xss rule: join.induct) auto

lemma list_all_piece: "list_all P xs \<Longrightarrow> ys \<in> set (splitp q xs) \<Longrightarrow> list_all P ys"
  using splitp_pieces unfolding list_all_iff by fast

lemma list_all_tl_join:
  assumes "list_all P (tl xs)" and "P g"
  shows "list_all P (tl (join [g] (filter (\<lambda>ys. ys \<noteq> []) (splitp q xs))))"
proof (cases xs)
  case (Cons x t)
  have pieces: "list_all P ys" if "ys \<in> set (splitp q t)" for ys
    by (rule list_all_piece[OF _ that]) (use assms(1) Cons in simp)
  show ?thesis
  proof (cases "q x")
    case True
    have "list_all P (join [g] (filter (\<lambda>ys. ys \<noteq> []) (splitp q t)))"
      using assms(2) pieces by (intro list_all_join) auto
    with True Cons show ?thesis
      by (cases "join [g] (filter (\<lambda>ys. ys \<noteq> []) (splitp q t))") auto
  next
    case False
    obtain y ys where y: "splitp q t = y # ys" by (cases "splitp q t") auto
    let ?r = "filter (\<lambda>ys. ys \<noteq> []) ys"
    have r: "list_all P (join [g] ?r)" "list_all P y"
      using assms(2) pieces y by (auto intro!: list_all_join)
    have "join [g] ((x # y) # ?r) = x # y @ (if ?r = [] then [] else g # join [g] ?r)"
      by (cases ?r) auto
    with r False y Cons assms(2) show ?thesis by simp
  qed
qed (simp add: assms)

lemma groups_ok_piece:
  assumes "groups_ok gs" and "ps \<in> set (splitp q gs)"
  shows "groups_ok ps"
proof (cases gs)
  case Nil
  with assms show ?thesis by (simp add: groups_ok_def)
next
  case (Cons x t)
  have weak: "list_all (\<lambda>g. g \<noteq> [] \<and> list_all is_cont (tl g)) ps"
    by (rule list_all_piece[OF _ assms(2)]) (use assms(1) in \<open>simp add: groups_ok_def\<close>)
  have tails: "list_all (\<lambda>g. \<not> is_cont (hd g)) ys" if "ys \<in> set (splitp q t)" for ys
    by (rule list_all_piece[OF _ that]) (use assms(1) Cons in \<open>simp add: groups_ok_def\<close>)
  obtain y ys where y: "splitp q t = y # ys" by (cases "splitp q t") auto
  have "list_all (\<lambda>g. \<not> is_cont (hd g)) (tl ps)"
  proof (cases "q x")
    case True
    with assms(2) Cons tails have "ps = [] \<or> list_all (\<lambda>g. \<not> is_cont (hd g)) ps" by auto
    then show ?thesis by (cases ps) auto
  next
    case False
    with assms(2) Cons y consider "ps = x # y" | "ps \<in> set ys" by auto
    then show ?thesis
    proof cases
      case 1
      with tails y show ?thesis by simp
    next
      case 2
      with tails[of ps] y show ?thesis by (cases ps) simp_all
    qed
  qed
  with weak show ?thesis by (simp add: groups_ok_def)
qed

lemma chars_piece: "ps \<in> set (splitp q (chars s)) \<Longrightarrow> chars (concat ps) = ps"
  by (rule chars_concat) (rule groups_ok_piece[OF groups_ok_chars])

text \<open>Splitting, dropping the empty pieces and joining again is a normal form.\<close>

definition nonempty_pieces :: "(string \<Rightarrow> bool) \<Rightarrow> string \<Rightarrow> string list" where
  "nonempty_pieces p s = filter (\<lambda>x. x \<noteq> []) (str_split p s)"

lemma nonempty_pieces_groups:
  "nonempty_pieces p s = map concat (filter (\<lambda>ps. ps \<noteq> []) (splitp p (chars s)))"
proof -
  have "concat ps = [] \<longleftrightarrow> ps = []" if "ps \<in> set (splitp p (chars s))" for ps
    using chars_piece[OF that] chars.simps(1) concat.simps(1) by metis
  then have "filter (\<lambda>ps. concat ps \<noteq> []) (splitp p (chars s)) = filter (\<lambda>ps. ps \<noteq> []) (splitp p (chars s))"
    by (intro filter_cong) auto
  then show ?thesis by (simp add: nonempty_pieces_def str_split_def filter_map o_def)
qed

lemma str_split_join_pieces:
  assumes "p [c]" and "\<not> is_cont c" and "nonempty_pieces p s \<noteq> []"
  shows "str_split p (join [c] (nonempty_pieces p s)) = nonempty_pieces p s"
proof -
  let ?P = "filter (\<lambda>ps. ps \<noteq> []) (splitp p (chars s))"
  have ok: "groups_ok (chars s)" by (rule groups_ok_chars)
  have "groups_ok (join [[c]] ?P)"
    unfolding groups_ok_def
  proof
    show "list_all (\<lambda>g. g \<noteq> [] \<and> list_all is_cont (tl g)) (join [[c]] ?P)"
      using ok list_all_piece[of _ "chars s" _ p] unfolding groups_ok_def
      by (intro list_all_join) simp_all
    show "list_all (\<lambda>g. \<not> is_cont (hd g)) (tl (join [[c]] ?P))"
      using ok assms(2) unfolding groups_ok_def by (intro list_all_tl_join) auto
  qed
  then have "chars (join [c] (map concat ?P)) = join [[c]] ?P"
    using chars_concat[of "join [[c]] ?P"] by (simp add: concat_join)
  moreover have "splitp p (join [[c]] ?P) = ?P"
    using assms(1,3) splitp_pieces[of _ p "chars s"]
    by (intro splitp_join) (simp_all add: nonempty_pieces_groups, blast)
  ultimately show ?thesis by (simp add: str_split_def nonempty_pieces_groups)
qed

lemma trim_piece:
  assumes "\<And>u. is_whitespace u \<Longrightarrow> p u" and "item \<in> set (str_split p s)"
  shows "trim item = item"
proof -
  from assms(2) obtain ps where ps: "item = concat ps" "ps \<in> set (splitp p (chars s))"
    by (auto simp: str_split_def)
  have no: "\<not> is_whitespace u" if "u \<in> set ps" for u
    using splitp_pieces[OF ps(2) that] assms(1) by blast
  have "dropWhile is_whitespace ps = ps" "dropWhile is_whitespace (rev ps) = rev ps"
    using no by (auto simp: dropWhile_eq_self_iff hd_rev)
  then have "trim (concat ps) = concat ps"
    unfolding trim_def chars_piece[OF ps(2)] by simp
  with ps(1) show ?thesis by simp
qed

lemma trim_Nil:
  assumes "trim s = []" and "u \<in> set (chars s)"
  shows "is_whitespace u"
proof -
  let ?d = "dropWhile is_whitespace (chars s)"
  have ne: "g \<noteq> []" if "g \<in> set (chars s)" for g
    using groups_ok_chars[of s] that by (auto simp: groups_ok_def list_all_iff)
  have "\<forall>g \<in> set (dropWhile is_whitespace (rev ?d)). g = []"
    using assms(1) by (simp add: trim_def)
  moreover have "g \<noteq> []" if "g \<in> set (dropWhile is_whitespace (rev ?d))" for g
    using that ne set_dropWhileD by (metis set_rev)
  ultimately have "dropWhile is_whitespace (rev ?d) = []"
    by (cases "dropWhile is_whitespace (rev ?d)") auto
  then have "\<forall>g \<in> set ?d. is_whitespace g"
    unfolding dropWhile_eq_Nil_conv by simp
  then have "?d = []"
    using hd_dropWhile[of is_whitespace "chars s"] hd_in_set by blast
  with assms(2) show ?thesis unfolding dropWhile_eq_Nil_conv by blast
qed

text \<open>Text without continuation bytes and without white space at its ends.\<close>

lemma chars_ascii: "list_all (\<lambda>c. \<not> is_cont c) s \<Longrightarrow> chars s = map (\<lambda>c. [c]) s"
proof (induction s)
  case (Cons c s)
  have "takeWhile is_cont s = [] \<and> dropWhile is_cont s = s"
    using Cons.prems by (cases s) simp_all
  with Cons show ?case by simp
qed simp

lemma trim_ascii:
  assumes "list_all (\<lambda>c. \<not> is_cont c \<and> \<not> is_whitespace [c]) s"
  shows "trim s = s"
proof -
  have "chars s = map (\<lambda>c. [c]) s"
    using assms by (intro chars_ascii) (simp add: list_all_iff)
  moreover have "dropWhile is_whitespace (map (\<lambda>c. [c]) s) = map (\<lambda>c. [c]) s"
    using assms by (cases s) auto
  moreover have "dropWhile is_whitespace (rev (map (\<lambda>c. [c]) s)) = rev (map (\<lambda>c. [c]) s)"
    using assms by (cases s rule: rev_cases) auto
  ultimately have "trim s = concat (map (\<lambda>c. [c]) s)" by (simp add: trim_def)
  then show ?thesis by simp
qed

section \<open>Decimal numbers\<close>

definition dec :: "string \<Rightarrow> nat" where
  "dec s = foldl (\<lambda>a c. 10 * a + (byte c - 48)) 0 s"

text \<open>\<^verbatim>\<open>from_str\<close> of an unsigned type with largest value \<open>m\<close>: one optional plus sign, at
  least one digit, and no overflow.\<close>

definition parse_unsigned :: "nat \<Rightarrow> string \<Rightarrow> nat option" where
  "parse_unsigned m s =
     (let ds = (case s of c # r \<Rightarrow> if c = CHR ''+'' then r else s | [] \<Rightarrow> [])
      in if ds \<noteq> [] \<and> list_all is_ascii_digit ds \<and> dec ds \<le> m then Some (dec ds) else None)"

definition parse_u16 :: "string \<Rightarrow> u16 option" where
  "parse_u16 s = map_option of_nat (parse_unsigned 65535 s)"

definition parse_u32 :: "string \<Rightarrow> u32 option" where
  "parse_u32 s = map_option of_nat (parse_unsigned 4294967295 s)"

definition digit :: "nat \<Rightarrow> char" where
  "digit d = char_of (48 + d)"

fun show_nat :: "nat \<Rightarrow> string" where
  "show_nat n = (if n < 10 then [digit n] else show_nat (n div 10) @ [digit (n mod 10)])"

declare show_nat.simps [simp del]

definition show_int :: "int \<Rightarrow> string" where
  "show_int i = (if i < 0 then ''-'' @ show_nat (nat (- i)) else show_nat (nat i))"

lemma byte_digit: "d < 10 \<Longrightarrow> byte (digit d) = 48 + d"
  by (simp add: digit_def)

lemma is_ascii_digit_digit [simp]: "d < 10 \<Longrightarrow> is_ascii_digit (digit d)"
  by (simp add: is_ascii_digit_def byte_digit)

lemma show_nat_digits: "list_all is_ascii_digit (show_nat n)"
  by (induction n rule: show_nat.induct) (subst show_nat.simps, simp)

lemma show_nat_not_Nil [simp]: "show_nat n \<noteq> []"
  by (subst show_nat.simps) simp

lemma dec_append1: "dec (s @ [c]) = 10 * dec s + (byte c - 48)"
  by (simp add: dec_def)

lemma dec_show_nat [simp]: "dec (show_nat n) = n"
proof (induction n rule: show_nat.induct)
  case (1 n)
  show ?case
  proof (cases "n < 10")
    case True
    then show ?thesis by (subst show_nat.simps) (simp add: dec_def byte_digit)
  next
    case False
    with 1 have "dec (show_nat (n div 10)) = n div 10" by simp
    with False show ?thesis
      by (subst show_nat.simps) (simp add: dec_append1 byte_digit)
  qed
qed

lemma show_nat_no_leading_zero: "0 < n \<Longrightarrow> hd (show_nat n) \<noteq> CHR ''0''"
proof (induction n rule: show_nat.induct)
  case (1 n)
  show ?case
  proof (cases "n < 10")
    case True
    with 1(2) have "byte (digit n) \<noteq> byte CHR ''0''" by (simp add: byte_digit)
    then have "digit n \<noteq> CHR ''0''" by (metis (mono_tags))
    with True show ?thesis by (subst show_nat.simps) simp
  next
    case False
    with 1 have "hd (show_nat (n div 10)) \<noteq> CHR ''0''" by simp
    with False show ?thesis by (subst show_nat.simps) simp
  qed
qed

lemma show_nat_length: "n < 10 ^ k \<Longrightarrow> 0 < k \<Longrightarrow> length (show_nat n) \<le> k"
proof (induction n arbitrary: k rule: show_nat.induct)
  case (1 n)
  show ?case
  proof (cases "n < 10")
    case True
    with 1(3) show ?thesis by (subst show_nat.simps) simp
  next
    case False
    then obtain k' where k: "k = Suc k'" "0 < k'"
      using 1(2,3) by (cases k; cases "k - 1") auto
    with 1(2) have "n div 10 < 10 ^ k'" by (simp add: less_mult_imp_div_less mult.commute)
    with 1(1) False k have "length (show_nat (n div 10)) \<le> k'" by simp
    with False k show ?thesis by (subst show_nat.simps) simp
  qed
qed

lemma parse_unsigned_le: "parse_unsigned m s = Some v \<Longrightarrow> v \<le> m"
  by (auto simp: parse_unsigned_def Let_def split: if_splits)

lemma parse_u32_Some: "parse_u32 s = Some w \<Longrightarrow> parse_unsigned 4294967295 s = Some (unat w)"
proof -
  assume "parse_u32 s = Some w"
  then obtain z where z: "parse_unsigned 4294967295 s = Some z" "w = of_nat z"
    by (auto simp: parse_u32_def)
  from parse_unsigned_le[OF z(1)] z show ?thesis by (simp add: unat_of_nat)
qed

lemma parse_unsigned_show_nat [simp]: "n \<le> m \<Longrightarrow> parse_unsigned m (show_nat n) = Some n"
proof -
  assume n: "n \<le> m"
  obtain c r where c: "show_nat n = c # r" by (cases "show_nat n") simp_all
  with show_nat_digits[of n] have "c \<noteq> CHR ''+''" by (auto simp: is_ascii_digit_def)
  with c n show_nat_digits[of n] dec_show_nat[of n] show ?thesis
    by (simp add: parse_unsigned_def del: dec_show_nat)
qed

lemma parse_unsigned_big: "m < n \<Longrightarrow> parse_unsigned m (show_nat n) = None"
proof -
  assume n: "m < n"
  obtain c r where c: "show_nat n = c # r" by (cases "show_nat n") simp_all
  with show_nat_digits[of n] have "c \<noteq> CHR ''+''" by (auto simp: is_ascii_digit_def)
  with c n dec_show_nat[of n] show ?thesis
    by (simp add: parse_unsigned_def del: dec_show_nat)
qed

lemma parse_u16_show_nat: "n \<le> 65535 \<Longrightarrow> parse_u16 (show_nat n) = Some (of_nat n)"
  by (simp add: parse_u16_def)

end
