(* ===== verification/Rust_Net.thy ===== *)
theory Rust_Net
  imports Rust_Prelude
begin

text \<open>
  The part of \<^verbatim>\<open>std::net\<close> the client uses: IPv4 addresses with their textual form, socket
  addresses, and the 32-bit shift.  An \<^verbatim>\<open>Ipv4Addr\<close> is the number \<^verbatim>\<open>u32::from\<close> gives it.
\<close>

type_synonym ipv4 = u32

datatype socket_addr = V4 (sa_ip: ipv4) (sa_port: u16) | V6 (sa_ip6: "128 word") (sa_port: u16)

text \<open>\<open>octet k ip\<close> is \<^verbatim>\<open>ip.octets()[k]\<close>.\<close>

definition octet :: "nat \<Rightarrow> ipv4 \<Rightarrow> nat" where
  "octet k ip = unat ip div 2 ^ (8 * (3 - k)) mod 256"

definition ipv4_of_octets :: "nat \<Rightarrow> nat \<Rightarrow> nat \<Rightarrow> nat \<Rightarrow> ipv4" where
  "ipv4_of_octets a b c d = of_nat (((a * 256 + b) * 256 + c) * 256 + d)"

definition is_unspecified :: "ipv4 \<Rightarrow> bool" where
  "is_unspecified ip \<longleftrightarrow> ip = 0"

definition is_loopback :: "ipv4 \<Rightarrow> bool" where
  "is_loopback ip \<longleftrightarrow> octet 0 ip = 127"

definition is_link_local :: "ipv4 \<Rightarrow> bool" where
  "is_link_local ip \<longleftrightarrow> octet 0 ip = 169 \<and> octet 1 ip = 254"

definition is_multicast :: "ipv4 \<Rightarrow> bool" where
  "is_multicast ip \<longleftrightarrow> 224 \<le> octet 0 ip \<and> octet 0 ip \<le> 239"

definition ipv4_broadcast :: ipv4 where
  "ipv4_broadcast = 0xFFFFFFFF"

text \<open>The parser takes one to three digits per octet and no leading zero.\<close>

definition parse_octet :: "string \<Rightarrow> nat option" where
  "parse_octet s =
     (if s \<noteq> [] \<and> length s \<le> 3 \<and> list_all is_ascii_digit s
         \<and> (1 < length s \<longrightarrow> hd s \<noteq> CHR ''0'') \<and> dec s \<le> 255
      then Some (dec s) else None)"

definition parse_ipv4 :: "string \<Rightarrow> ipv4 option" where
  "parse_ipv4 s =
     (case splitp (\<lambda>c. c = CHR ''.'') s of
        [a, b, c, d] \<Rightarrow>
          (case (parse_octet a, parse_octet b, parse_octet c, parse_octet d) of
             (Some a, Some b, Some c, Some d) \<Rightarrow> Some (ipv4_of_octets a b c d)
           | _ \<Rightarrow> None)
      | _ \<Rightarrow> None)"

definition show_ipv4 :: "ipv4 \<Rightarrow> string" where
  "show_ipv4 ip = join ''.'' (map (\<lambda>k. show_nat (octet k ip)) [0, 1, 2, 3])"

text \<open>\<^verbatim>\<open><<\<close> on \<^verbatim>\<open>u32\<close> as the release profile compiles it: the amount is taken modulo 32.\<close>

definition shl_u32 :: "u32 \<Rightarrow> u32 \<Rightarrow> u32" where
  "shl_u32 x n = push_bit (unat n mod 32) x"

section \<open>Octets\<close>

lemma octet_bound [simp]: "octet k ip < 256"
  by (simp add: octet_def)

lemma unat_u32_bound: "unat (ip :: u32) < 4294967296"
proof -
  have "unat ip < 2 ^ LENGTH(32)" by (rule unsigned_less)
  then show ?thesis by simp
qed

lemma octet_split:
  "unat ip = ((octet 0 ip * 256 + octet 1 ip) * 256 + octet 2 ip) * 256 + octet 3 ip"
proof -
  define n where "n = unat ip"
  have n: "n < 4294967296" unfolding n_def by (rule unat_u32_bound)
  have o: "octet 0 ip = n div 16777216" "octet 1 ip = n div 65536 mod 256"
    "octet 2 ip = n div 256 mod 256" "octet 3 ip = n mod 256"
    using n by (simp_all add: octet_def n_def)
  have d: "n div 65536 = n div 256 div 256" "n div 16777216 = n div 256 div 256 div 256"
    by (simp_all add: div_mult2_eq[symmetric])
  show ?thesis unfolding o d n_def[symmetric] by presburger
qed

lemma ipv4_of_octets_octet [simp]:
  "ipv4_of_octets (octet 0 ip) (octet (Suc 0) ip) (octet 2 ip) (octet 3 ip) = ip"
  unfolding ipv4_of_octets_def One_nat_def[symmetric] octet_split[symmetric] by simp

lemma octet01_cases:
  obtains r where "unat ip = octet 0 ip * 16777216 + octet 1 ip * 65536 + r" "r < 65536"
proof
  show "unat ip = octet 0 ip * 16777216 + octet 1 ip * 65536 + (octet 2 ip * 256 + octet 3 ip)"
    using octet_split[of ip] by simp
  show "octet 2 ip * 256 + octet 3 ip < 65536"
    using octet_bound[of 2 ip] octet_bound[of 3 ip] by linarith
qed

section \<open>Printing and parsing\<close>

lemma parse_octet_show_nat: "n < 256 \<Longrightarrow> parse_octet (show_nat n) = Some n"
proof -
  assume n: "n < 256"
  have len: "length (show_nat n) \<le> 3" using n by (intro show_nat_length) auto
  have zero: "1 < length (show_nat n) \<Longrightarrow> hd (show_nat n) \<noteq> CHR ''0''"
  proof (cases "n = 0")
    case True
    moreover assume "1 < length (show_nat n)"
    ultimately show ?thesis by (simp add: show_nat.simps)
  qed (simp add: show_nat_no_leading_zero)
  with n len show ?thesis by (simp add: parse_octet_def show_nat_digits)
qed

lemma is_ascii_digit_dot: "is_ascii_digit c \<Longrightarrow> c \<noteq> CHR ''.'' \<and> c \<noteq> CHR '':''"
  by (auto simp: is_ascii_digit_def)

lemma show_nat_no_sep: "c \<in> set (show_nat n) \<Longrightarrow> c \<noteq> CHR ''.'' \<and> c \<noteq> CHR '':''"
  using show_nat_digits[of n] is_ascii_digit_dot by (simp add: list_all_iff)

theorem parse_show_ipv4 [simp]: "parse_ipv4 (show_ipv4 ip) = Some ip"
proof -
  have "splitp (\<lambda>c. c = CHR ''.'') (show_ipv4 ip) = map (\<lambda>k. show_nat (octet k ip)) [0, 1, 2, 3]"
    unfolding show_ipv4_def by (rule splitp_join) (auto dest: show_nat_no_sep)
  then show ?thesis by (simp add: parse_ipv4_def parse_octet_show_nat)
qed

lemma show_ipv4_not_Nil [simp]: "show_ipv4 ip \<noteq> []"
  by (simp add: show_ipv4_def)

lemma show_ipv4_no_colon: "CHR '':'' \<notin> set (show_ipv4 ip)"
  by (auto simp: show_ipv4_def dest: show_nat_no_sep)

section \<open>Masks\<close>

text \<open>An address that agrees with \<open>i\<close> under a mask lies between the network address and the
  broadcast address of \<open>i\<close>.\<close>

lemma mask_interval:
  fixes a i m :: "'a :: len word"
  assumes "a AND m = i AND m"
  shows "i AND m \<le> a \<and> a \<le> (i AND m) OR NOT m"
proof
  show "i AND m \<le> a" using assms word_and_le2[of a m] by simp
  have "a OR NOT m = (a AND m) OR NOT m" by (rule bit_word_eqI) (auto simp: bit_simps)
  moreover have "a \<le> a OR NOT m" by (rule le_word_or2)
  ultimately show "a \<le> (i AND m) OR NOT m" using assms by simp
qed

end
