(* ===== verification/Homedesk_Net.thy ===== *)
theory Homedesk_Net
  imports Rust_Net
begin

text \<open>
  The address policy of \<^verbatim>\<open>client/src/homedesk_net.rs\<close>: which servers, peer endpoints, source
  addresses and CIDR lists the two network modes accept.  The lemmas show that the family
  whitelist never reaches outside RFC 1918 space, that normalising a list does not change its
  meaning, and what an accepted peer endpoint or server looks like.
\<close>

datatype network_mode = LanOnly | SelfHosted

definition network_mode_parse :: "string \<Rightarrow> network_mode option" where
  "network_mode_parse v =
     (if v = ''lan_only'' then Some LanOnly
      else if v = ''self_hosted'' then Some SelfHosted else None)"

fun network_mode_as_str :: "network_mode \<Rightarrow> string" where
  "network_mode_as_str LanOnly = ''lan_only''"
| "network_mode_as_str SelfHosted = ''self_hosted''"

definition split_host_port :: "string \<Rightarrow> (string \<times> u16 option) option" where
  "split_host_port v =
     (let v = trim v in
      if v = [] \<or> list_ex (\<lambda>c. c \<in> {CHR ''/'', CHR 0x5C, CHR ''@'', CHR ''['', CHR '']''}) v then None
      else (case rsplit_once CHR '':'' v of
              Some (host, port) \<Rightarrow>
                (case parse_u16 port of
                   Some p \<Rightarrow> if p = 0 \<or> host = [] \<or> CHR '':'' \<in> set host then None
                             else Some (host, Some p)
                 | None \<Rightarrow> None)
            | None \<Rightarrow> Some (v, None)))"

definition valid_label :: "string \<Rightarrow> bool" where
  "valid_label l \<longleftrightarrow> l \<noteq> [] \<and> length l \<le> 63 \<and> hd l \<noteq> CHR ''-'' \<and> last l \<noteq> CHR ''-''
     \<and> list_all (\<lambda>c. is_ascii_alphanumeric c \<or> c = CHR ''-'') l"

definition is_valid_domain :: "string \<Rightarrow> bool" where
  "is_valid_domain host \<longleftrightarrow>
     length host \<le> 253 \<and> CHR ''.'' \<in> set host
     \<and> \<not> list_all (\<lambda>c. is_ascii_digit c \<or> c = CHR ''.'') host
     \<and> \<not> list_all is_ascii_digit (last (splitp (\<lambda>c. c = CHR ''.'') host))
     \<and> list_all valid_label (splitp (\<lambda>c. c = CHR ''.'') host)"

definition is_special :: "ipv4 \<Rightarrow> bool" where
  "is_special ip \<longleftrightarrow>
     is_unspecified ip \<or> is_loopback ip \<or> is_link_local ip \<or> is_multicast ip
     \<or> ip = ipv4_broadcast \<or> octet 0 ip = 0 \<or> octet 0 ip \<ge> 240
     \<or> (octet 0 ip = 100 \<and> 64 \<le> octet 1 ip \<and> octet 1 ip \<le> 127)"

text \<open>The separators of a CIDR list, the two halves of an entry and the mask of a prefix
  length; the sources spell these out in each function.  The subtraction and the shift wrap as
  in the release profile.\<close>

definition is_sep :: "string \<Rightarrow> bool" where
  "is_sep u \<longleftrightarrow> u = '','' \<or> u = '';'' \<or> is_whitespace u"

definition cidr_entry :: "string \<Rightarrow> (ipv4 \<times> u32) option" where
  "cidr_entry entry =
     (let (ip, prefix) = (case split_once CHR ''/'' entry of Some v \<Rightarrow> v | None \<Rightarrow> (entry, ''32''))
      in case (parse_ipv4 ip, parse_u32 prefix) of
           (Some ip, Some prefix) \<Rightarrow> Some (ip, prefix)
         | _ \<Rightarrow> None)"

definition cidr_mask :: "u32 \<Rightarrow> u32" where
  "cidr_mask prefix = (if prefix = 0 then 0 else shl_u32 0xFFFFFFFF (32 - prefix))"

definition is_family_network_or_broadcast :: "ipv4 \<Rightarrow> string \<Rightarrow> bool" where
  "is_family_network_or_broadcast address whitelist =
     list_ex (\<lambda>entry. case cidr_entry entry of
         None \<Rightarrow> False
       | Some (ip, prefix) \<Rightarrow>
           let mask = cidr_mask prefix; network = ip AND mask; broadcast = network OR NOT mask
           in prefix < 32 \<and> (address = network \<or> address = broadcast))
       (str_split is_sep whitelist)"

definition is_rfc1918 :: "ipv4 \<Rightarrow> bool" where
  "is_rfc1918 ip \<longleftrightarrow> octet 0 ip = 10
     \<or> (octet 0 ip = 172 \<and> 16 \<le> octet 1 ip \<and> octet 1 ip \<le> 31)
     \<or> (octet 0 ip = 192 \<and> octet 1 ip = 168)"

definition is_valid_server :: "string \<Rightarrow> network_mode \<Rightarrow> bool" where
  "is_valid_server server mode =
     (case split_host_port server of
        None \<Rightarrow> False
      | Some (host, _) \<Rightarrow>
          (case parse_ipv4 host of
             Some ip \<Rightarrow> \<not> is_special ip \<and> (mode = SelfHosted \<or> is_rfc1918 ip)
           | None \<Rightarrow> mode = SelfHosted \<and> is_valid_domain host))"

definition is_private_rendezvous_server :: "string \<Rightarrow> bool" where
  "is_private_rendezvous_server server = is_valid_server server LanOnly"

definition relay_allowed :: "string \<Rightarrow> bool" where
  "relay_allowed candidate = False"

definition remote_request_allowed :: "bool \<Rightarrow> bool \<Rightarrow> bool \<Rightarrow> bool" where
  "remote_request_allowed force_relay websocket proxy \<longleftrightarrow> \<not> force_relay \<and> \<not> websocket \<and> \<not> proxy"

definition direct_session_allowed :: "bool \<Rightarrow> bool \<Rightarrow> bool \<Rightarrow> bool" where
  "direct_session_allowed direct secured verified_peer_key \<longleftrightarrow> direct \<and> secured \<and> verified_peer_key"

definition private_block :: "u32 \<Rightarrow> nat option" where
  "private_block raw =
     (if octet 0 raw = 10 then Some 10
      else if octet 0 raw = 172 \<and> 16 \<le> octet 1 raw \<and> octet 1 raw \<le> 31 then Some 172
      else if octet 0 raw = 192 \<and> octet 1 raw = 168 then Some 192
      else None)"

definition private_item :: "string \<Rightarrow> bool" where
  "private_item item =
     (case cidr_entry (trim item) of
        None \<Rightarrow> False
      | Some (address, prefix) \<Rightarrow>
          if prefix > 32 then False
          else let mask = cidr_mask prefix; network = address AND mask;
                   broadcast = network OR NOT mask
               in private_block network \<noteq> None \<and> private_block network = private_block broadcast)"

definition list_items :: "string \<Rightarrow> string list" where
  "list_items value = filter (\<lambda>item. item \<noteq> []) (str_split is_sep value)"

definition normalize_private_whitelist :: "string \<Rightarrow> string option" where
  "normalize_private_whitelist value =
     (let items = list_items value in
      if items = [] then None
      else if list_all private_item items then Some (join '','' items) else None)"

definition is_private_whitelist :: "string \<Rightarrow> bool" where
  "is_private_whitelist value \<longleftrightarrow> normalize_private_whitelist value \<noteq> None"

text \<open>\<open>strip_port\<close> is the first line of \<^verbatim>\<open>address_in_whitelist\<close>.\<close>

definition strip_port :: "string \<Rightarrow> string" where
  "strip_port address =
     (case rsplit_once CHR '':'' address of
        Some (ip, port) \<Rightarrow>
          (case parse_u16 port of Some p \<Rightarrow> if p > 0 then ip else address | None \<Rightarrow> address)
      | None \<Rightarrow> address)"

definition cidr_match :: "ipv4 \<Rightarrow> string \<Rightarrow> bool" where
  "cidr_match address entry =
     (case cidr_entry entry of
        None \<Rightarrow> False
      | Some (ip, prefix) \<Rightarrow>
          let mask = cidr_mask prefix in address AND mask = ip AND mask)"

definition address_in_whitelist :: "string \<Rightarrow> string \<Rightarrow> bool" where
  "address_in_whitelist address whitelist =
     (case parse_ipv4 (strip_port address) of
        None \<Rightarrow> False
      | Some address \<Rightarrow>
          if normalize_private_whitelist whitelist = None then False
          else list_ex (cidr_match address) (str_split is_sep whitelist))"

definition peer_endpoint_allowed ::
    "socket_addr \<Rightarrow> network_mode \<Rightarrow> bool \<Rightarrow> string \<Rightarrow> bool" where
  "peer_endpoint_allowed endpoint mode is_local family_cidr =
     (case endpoint of
        V6 _ _ \<Rightarrow> False
      | V4 ip port \<Rightarrow>
          if port = 0 \<or> is_special ip then False
          else (case mode of
                  LanOnly \<Rightarrow> address_in_whitelist (show_ipv4 ip) family_cidr
                              \<and> \<not> is_family_network_or_broadcast ip family_cidr
                | SelfHosted \<Rightarrow>
                    if is_rfc1918 ip
                    then is_local \<and> address_in_whitelist (show_ipv4 ip) family_cidr
                         \<and> \<not> is_family_network_or_broadcast ip family_cidr
                    else True))"

definition secure_session_allowed :: "network_mode \<Rightarrow> bool \<Rightarrow> bool \<Rightarrow> bool" where
  "secure_session_allowed mode is_secured has_verified_peer_key \<longleftrightarrow>
     is_secured \<and> has_verified_peer_key"

definition console_allowed :: "network_mode \<Rightarrow> bool \<Rightarrow> bool \<Rightarrow> bool" where
  "console_allowed mode enabled trusted_path \<longleftrightarrow> enabled \<and> (mode = LanOnly \<or> trusted_path)"

definition home_tunnel_allowed :: "network_mode \<Rightarrow> bool \<Rightarrow> bool" where
  "home_tunnel_allowed mode profile_confirmed = True"

definition configured_key_allowed :: "string \<Rightarrow> string \<Rightarrow> bool" where
  "configured_key_allowed candidate configured \<longleftrightarrow> candidate = [] \<or> candidate = configured"

definition source_item :: "string \<Rightarrow> bool" where
  "source_item item =
     (case cidr_entry item of
        None \<Rightarrow> False
      | Some (address, prefix) \<Rightarrow> prefix > 0 \<and> prefix \<le> 32 \<and> \<not> is_special address)"

definition normalize_source_whitelist :: "string \<Rightarrow> string option" where
  "normalize_source_whitelist value =
     (if trim value = [] then Some []
      else let items = list_items value
           in if list_all source_item items then Some (join '','' items) else None)"

definition source_endpoint_allowed :: "socket_addr \<Rightarrow> string \<Rightarrow> bool" where
  "source_endpoint_allowed endpoint whitelist =
     (if trim whitelist = [] then True
      else (case endpoint of
              V6 _ _ \<Rightarrow> False
            | V4 ip _ \<Rightarrow> list_ex (cidr_match ip) (str_split is_sep whitelist)))"

section \<open>The private blocks\<close>

lemma private_block_eq_None_iff: "private_block ip = None \<longleftrightarrow> \<not> is_rfc1918 ip"
  by (auto simp: private_block_def is_rfc1918_def)

lemma private_block_interval:
  "private_block ip =
     (if 167772160 \<le> unat ip \<and> unat ip < 184549376 then Some 10
      else if 2886729728 \<le> unat ip \<and> unat ip < 2887778304 then Some 172
      else if 3232235520 \<le> unat ip \<and> unat ip < 3232301056 then Some 192 else None)"
proof -
  obtain r where r: "unat ip = octet 0 ip * 16777216 + octet 1 ip * 65536 + r" "r < 65536"
    by (rule octet01_cases)
  have b: "octet 0 ip < 256" "octet 1 ip < 256" by simp_all
  have "octet 0 ip = 10 \<longleftrightarrow> 167772160 \<le> unat ip \<and> unat ip < 184549376"
    using r b by linarith
  moreover have "octet 0 ip = 172 \<and> 16 \<le> octet 1 ip \<and> octet 1 ip \<le> 31
      \<longleftrightarrow> 2886729728 \<le> unat ip \<and> unat ip < 2887778304"
    using r b by (cases "octet 0 ip = 172"; simp; linarith)
  moreover have "octet 0 ip = 192 \<and> octet 1 ip = 168
      \<longleftrightarrow> 3232235520 \<le> unat ip \<and> unat ip < 3232301056"
    using r b by (cases "octet 0 ip = 192"; simp; linarith)
  ultimately show ?thesis by (simp only: private_block_def)
qed

text \<open>A range whose two ends lie in the same block lies in the block.\<close>

lemma private_block_convex:
  assumes "private_block n = Some k" and "private_block b = Some k" and "n \<le> a" and "a \<le> b"
  shows "private_block a = Some k"
  using assms unfolding private_block_interval word_le_nat_alt by (auto split: if_splits)

lemma private_item_match:
  assumes "private_item item" and "trim item = item" and "cidr_match a item"
  shows "is_rfc1918 a"
proof -
  from assms obtain ip prefix where e: "cidr_entry item = Some (ip, prefix)"
    by (auto simp: private_item_def split: option.splits)
  let ?m = "cidr_mask prefix"
  from e assms obtain k where
    k: "private_block (ip AND ?m) = Some k" "private_block ((ip AND ?m) OR NOT ?m) = Some k"
    by (auto simp: private_item_def Let_def split: if_splits) metis
  from e assms(3) have "a AND ?m = ip AND ?m" by (simp add: cidr_match_def Let_def)
  from private_block_convex[OF k] mask_interval[OF this] have "private_block a = Some k" by blast
  then show ?thesis using private_block_eq_None_iff[of a] by simp
qed

section \<open>Lists of entries\<close>

lemma is_sep_comma [simp]: "is_sep '',''"
  by (simp add: is_sep_def)

lemma not_is_cont_comma [simp]: "\<not> is_cont CHR '',''"
  by (simp add: is_cont_def)

lemma list_items_pieces: "list_items v = nonempty_pieces is_sep v"
  by (simp add: list_items_def nonempty_pieces_def)

lemma trim_list_item: "item \<in> set (str_split is_sep v) \<Longrightarrow> trim item = item"
  using trim_piece[of is_sep] is_sep_def by blast

lemma list_items_join: "list_items v \<noteq> [] \<Longrightarrow> list_items (join '','' (list_items v)) = list_items v"
  using str_split_join_pieces[of is_sep "CHR '',''" v]
  by (simp add: list_items_pieces) (simp add: nonempty_pieces_def)

lemma cidr_entry_Nil [simp]: "cidr_entry [] = None"
  by (simp add: cidr_entry_def parse_ipv4_def)

text \<open>An empty piece matches nothing, so a search through the pieces is one through the entries.\<close>

lemma list_ex_items: "\<not> f [] \<Longrightarrow> list_ex f (str_split is_sep v) = list_ex f (list_items v)"
  by (auto simp: list_ex_iff list_items_def)

lemma matches_items:
  "list_ex (cidr_match a) (str_split is_sep v) = list_ex (cidr_match a) (list_items v)"
  by (rule list_ex_items) (simp add: cidr_match_def)

lemma network_items:
  "list_items v = list_items w \<Longrightarrow>
   is_family_network_or_broadcast a v = is_family_network_or_broadcast a w"
  unfolding is_family_network_or_broadcast_def by (simp add: list_ex_items)

text \<open>
  What a normaliser promises: on a list with entries it accepts exactly the lists whose entries
  it accepts, and it writes the entries back separated by commas.
\<close>

locale entry_list =
  fixes normalize :: "string \<Rightarrow> string option" and entry_ok :: "string \<Rightarrow> bool"
  assumes normalize_items: "list_items v \<noteq> [] \<Longrightarrow>
    normalize v = (if list_all entry_ok (list_items v) then Some (join '','' (list_items v)) else None)"
begin

lemma normalize_keeps_items:
  assumes "normalize v = Some w" and "list_items v \<noteq> []"
  shows "list_items w = list_items v"
  using assms by (auto simp: normalize_items list_items_join split: if_splits)

lemma normalize_idem:
  assumes "normalize v = Some w" and "list_items v \<noteq> []"
  shows "normalize w = Some w"
  using assms normalize_keeps_items[OF assms] by (auto simp: normalize_items split: if_splits)

lemma normalize_entries:
  assumes "normalize v = Some w" and "list_items v \<noteq> []" and "item \<in> set (list_items w)"
  shows "entry_ok item"
  using assms normalize_keeps_items[OF assms(1,2)]
  by (auto simp: normalize_items list_all_iff split: if_splits)

end

interpretation family: entry_list normalize_private_whitelist private_item
  by unfold_locales (simp add: normalize_private_whitelist_def)

lemma trim_Nil_items:
  assumes "trim v = []"
  shows "list_items v = []"
proof -
  have "concat ps = []" if "ps \<in> set (splitp is_sep (chars v))" for ps
    using splitp_pieces[OF that] trim_Nil[OF assms] unfolding is_sep_def concat_eq_Nil_conv by blast
  then show ?thesis by (auto simp: list_items_def str_split_def filter_empty_conv)
qed

interpretation sources: entry_list normalize_source_whitelist source_item
  by unfold_locales (auto simp: normalize_source_whitelist_def Let_def dest: trim_Nil_items)

section \<open>Prefix lengths\<close>

text \<open>For a prefix length up to 32 the mask test compares the leading bits; the shift of the
  all-ones word reaches 32 only when the prefix is zero, which the code treats apart.\<close>

lemma and_push_bit_eq_iff:
  fixes a b :: u32
  shows "a AND push_bit k 0xFFFFFFFF = b AND push_bit k 0xFFFFFFFF \<longleftrightarrow> drop_bit k a = drop_bit k b"
proof -
  have ones: "(0xFFFFFFFF :: u32) = mask 32" by (simp add: mask_eq_exp_minus_1)
  have "a AND push_bit k 0xFFFFFFFF = b AND push_bit k 0xFFFFFFFF
      \<longleftrightarrow> (\<forall>n < 32. k \<le> n \<longrightarrow> bit a n = bit b n)"
    unfolding ones by (auto simp: bit_eq_iff bit_simps)
  also have "\<dots> \<longleftrightarrow> (\<forall>n < 32. bit a (k + n) = bit b (k + n))"
  proof (rule iffI; intro allI impI)
    fix n assume "\<forall>n < 32. k \<le> n \<longrightarrow> bit a n = bit b n"
    then show "bit a (k + n) = bit b (k + n)"
      using bit_imp_le_length[of a "k + n"] bit_imp_le_length[of b "k + n"] by fastforce
  next
    fix n assume "\<forall>n < 32. bit a (k + n) = bit b (k + n)" "n < 32" "k \<le> n"
    then show "bit a n = bit b n"
      using le_add_diff_inverse[of k n] by (metis diff_le_self order_le_less_trans)
  qed
  also have "\<dots> \<longleftrightarrow> drop_bit k a = drop_bit k b"
    by (auto simp: bit_eq_iff bit_simps)
  finally show ?thesis .
qed

lemma cidr_match_prefix:
  assumes "cidr_entry e = Some (ip, p)" and "p \<le> 32"
  shows "cidr_match a e \<longleftrightarrow> p = 0 \<or> drop_bit (32 - unat p) a = drop_bit (32 - unat p) ip"
proof (cases "p = 0")
  case False
  have p: "unat p \<le> 32" "0 < unat p"
    using assms(2) False by (simp_all add: word_le_nat_alt unat_gt_0)
  have "unat (32 - p) = 32 - unat p" using assms(2) by (simp add: unat_sub)
  with p have "cidr_mask p = push_bit (32 - unat p) 0xFFFFFFFF"
    using False by (simp add: cidr_mask_def shl_u32_def)
  with assms(1) False show ?thesis by (simp add: cidr_match_def and_push_bit_eq_iff)
qed (simp add: assms cidr_match_def cidr_mask_def)

lemma parse_mode_as_str [simp]: "network_mode_parse (network_mode_as_str m) = Some m"
  by (cases m) (simp_all add: network_mode_parse_def)

lemma parse_mode_literals [simp]:
  "network_mode_parse ''lan_only'' = Some LanOnly" "network_mode_parse ''self_hosted'' = Some SelfHosted"
  by (simp_all add: network_mode_parse_def)

lemma normalize_private_Some_items:
  "normalize_private_whitelist v = Some w \<Longrightarrow> list_items v \<noteq> []"
  by (auto simp: normalize_private_whitelist_def Let_def split: if_splits)

text \<open>The search of \<^verbatim>\<open>address_in_whitelist\<close> for an address given as a value.\<close>

lemma address_in_whitelist_show:
  "address_in_whitelist (show_ipv4 ip) w \<longleftrightarrow>
     normalize_private_whitelist w \<noteq> None \<and> list_ex (cidr_match ip) (list_items w)"
proof -
  have "strip_port (show_ipv4 ip) = show_ipv4 ip"
    using show_ipv4_no_colon[of ip] rsplit_once_None[of "CHR '':''" "show_ipv4 ip"]
    by (simp add: strip_port_def)
  then show ?thesis by (simp add: address_in_whitelist_def matches_items)
qed

lemma address_in_whitelist_items:
  assumes "address_in_whitelist s w"
  obtains ip e net p where "parse_ipv4 (strip_port s) = Some ip" "e \<in> set (list_items w)"
    "cidr_entry e = Some (net, p)" "p \<le> 32" "cidr_match ip e" "is_rfc1918 ip"
proof -
  from assms obtain ip v e where ip: "parse_ipv4 (strip_port s) = Some ip"
    and v: "normalize_private_whitelist w = Some v"
    and e: "e \<in> set (list_items w)" "cidr_match ip e"
    unfolding address_in_whitelist_def matches_items
    by (auto simp: list_ex_iff split: option.splits if_splits)
  have ne: "list_items w \<noteq> []" using e by auto
  have ok: "private_item e"
    using family.normalize_entries[OF v ne] family.normalize_keeps_items[OF v ne] e by simp
  have t: "trim e = e" using e(1) by (auto simp: list_items_def intro: trim_list_item)
  from ok t obtain net p where "cidr_entry e = Some (net, p)" "p \<le> 32"
    by (auto simp: private_item_def Let_def split: option.splits if_splits)
  with that[OF ip e(1)] e(2) private_item_match[OF ok t e(2)] show ?thesis by blast
qed

section \<open>Properties\<close>

text \<open>\<^bold>\<open>C18\<close> (the family whitelist never admits a public address).  Whatever text a whitelist
  holds, an address string that \<^verbatim>\<open>address_in_whitelist\<close> accepts is, after the port is removed, a
  dotted IPv4 address inside 10/8, 172.16/12 or 192.168/16: a range that starts or ends outside a
  private block, or a list with any malformed entry, admits nothing.\<close>

theorem address_in_whitelist_private:
  assumes "address_in_whitelist address whitelist"
  shows "\<exists>ip. parse_ipv4 (strip_port address) = Some ip \<and> is_rfc1918 ip"
  by (rule address_in_whitelist_items[OF assms]) blast

theorem address_in_whitelist_private_witness:
  "\<exists>ip. parse_ipv4 (strip_port ''192.168.7.20:21118'') = Some ip \<and> is_rfc1918 ip"
proof -
  have "address_in_whitelist ''192.168.7.20:21118'' ''10.0.0.0/8; 192.168.7.0/24''" by code_simp
  then show ?thesis by (rule address_in_whitelist_private)
qed

text \<open>\<^bold>\<open>C17\<close> (what an accepted peer endpoint is).  A peer endpoint that passes the policy is IPv4
  with a non-zero port and no special-purpose address; in LAN-only mode it is a private address;
  and a private address is accepted only in LAN-only mode or for a local peer, and only when its
  leading bits agree with those of an entry of the family list, of which it is neither a network nor a
  broadcast address.\<close>

theorem peer_endpoint_allowed_bounds:
  assumes "peer_endpoint_allowed endpoint mode is_local family_cidr"
  shows "\<exists>ip port. endpoint = V4 ip port \<and> port \<noteq> 0 \<and> \<not> is_special ip
    \<and> (mode = LanOnly \<longrightarrow> is_rfc1918 ip)
    \<and> (is_rfc1918 ip \<longrightarrow> (mode = LanOnly \<or> is_local)
         \<and> (\<exists>e net p. e \<in> set (list_items family_cidr) \<and> cidr_entry e = Some (net, p) \<and> p \<le> 32
              \<and> (p = 0 \<or> drop_bit (32 - unat p) ip = drop_bit (32 - unat p) net))
         \<and> \<not> is_family_network_or_broadcast ip family_cidr)"
proof -
  from assms obtain ip port where ep: "endpoint = V4 ip port" "port \<noteq> 0" "\<not> is_special ip"
    by (auto simp: peer_endpoint_allowed_def split: socket_addr.splits if_splits)
  have inside: "is_rfc1918 ip \<and> (\<exists>e net p. e \<in> set (list_items family_cidr)
      \<and> cidr_entry e = Some (net, p) \<and> p \<le> 32
      \<and> (p = 0 \<or> drop_bit (32 - unat p) ip = drop_bit (32 - unat p) net))"
    if w: "address_in_whitelist (show_ipv4 ip) family_cidr"
  proof -
    have "parse_ipv4 (strip_port (show_ipv4 ip)) = Some ip"
      using show_ipv4_no_colon[of ip] rsplit_once_None[of "CHR '':''" "show_ipv4 ip"]
      by (simp add: strip_port_def)
    with w obtain e net p where "e \<in> set (list_items family_cidr)" "cidr_entry e = Some (net, p)"
      "p \<le> 32" "cidr_match ip e" "is_rfc1918 ip"
      by (elim address_in_whitelist_items) simp
    then show ?thesis using cidr_match_prefix by blast
  qed
  from assms ep inside show ?thesis
    by (cases mode; cases "is_rfc1918 ip") (simp_all add: peer_endpoint_allowed_def)
qed

theorem peer_endpoint_allowed_bounds_witness:
  "\<not> is_special 0xC0A80714 \<and> is_rfc1918 0xC0A80714
    \<and> (\<exists>e net p. e \<in> set (list_items ''192.168.7.0/24'') \<and> cidr_entry e = Some (net, p) \<and> p \<le> 32
         \<and> (p = 0 \<or> drop_bit (32 - unat p) 0xC0A80714 = drop_bit (32 - unat p) net))
    \<and> \<not> is_family_network_or_broadcast 0xC0A80714 ''192.168.7.0/24''"
proof -
  have "peer_endpoint_allowed (V4 0xC0A80714 21118) LanOnly True ''192.168.7.0/24''" by code_simp
  from peer_endpoint_allowed_bounds[OF this] show ?thesis by simp
qed

text \<open>(normalising the family list keeps its meaning).  The normal form of an accepted
  list is a fixed point of the normaliser and admits the same addresses, network and broadcast
  addresses as the list it came from.\<close>

theorem normalize_private_whitelist_same:
  assumes "normalize_private_whitelist value = Some out"
  shows "normalize_private_whitelist out = Some out
    \<and> address_in_whitelist a out = address_in_whitelist a value
    \<and> is_family_network_or_broadcast ip out = is_family_network_or_broadcast ip value"
proof -
  note ne = normalize_private_Some_items[OF assms]
  note items = family.normalize_keeps_items[OF assms ne]
  note idem = family.normalize_idem[OF assms ne]
  have "address_in_whitelist a out = address_in_whitelist a value"
    unfolding address_in_whitelist_def matches_items items by (simp add: assms idem split: option.split)
  with idem network_items[OF items] show ?thesis by simp
qed

theorem normalize_private_whitelist_same_witness:
  "normalize_private_whitelist ''10.0.0.0/8,192.168.7.0/24'' = Some ''10.0.0.0/8,192.168.7.0/24''
    \<and> address_in_whitelist ''10.1.2.3'' ''10.0.0.0/8,192.168.7.0/24''
      = address_in_whitelist ''10.1.2.3'' '' 10.0.0.0/8 ;192.168.7.0/24''
    \<and> is_family_network_or_broadcast 0xC0A80700 ''10.0.0.0/8,192.168.7.0/24''
      = is_family_network_or_broadcast 0xC0A80700 '' 10.0.0.0/8 ;192.168.7.0/24''"
proof -
  have "normalize_private_whitelist '' 10.0.0.0/8 ;192.168.7.0/24'' = Some ''10.0.0.0/8,192.168.7.0/24''"
    by code_simp
  then show ?thesis by (rule normalize_private_whitelist_same)
qed

lemma cidr_entry_sources:
  assumes "normalize_source_whitelist v = Some w" and "list_items v \<noteq> []" and "e \<in> set (list_items w)"
  obtains net p where "cidr_entry e = Some (net, p)" "0 < p" "p \<le> 32" "\<not> is_special net"
  using sources.normalize_entries[OF assms]
  by (auto simp: source_item_def split: option.splits)

text \<open>(normalising the source list).  The normal form of an accepted source list with at
  least one entry is a fixed point, admits the same endpoints, and each endpoint it admits is an IPv4
  address that shares at least one leading bit, the whole prefix, with an entry that is no
  special-purpose address.\<close>

theorem normalize_source_whitelist_same:
  assumes "normalize_source_whitelist value = Some out" and "list_items value \<noteq> []"
  shows "normalize_source_whitelist out = Some out
    \<and> source_endpoint_allowed ep out = source_endpoint_allowed ep value
    \<and> (source_endpoint_allowed ep out \<longrightarrow>
         (\<exists>ip port e net p. ep = V4 ip port \<and> e \<in> set (list_items out) \<and> cidr_entry e = Some (net, p)
            \<and> 0 < p \<and> p \<le> 32 \<and> \<not> is_special net
            \<and> drop_bit (32 - unat p) ip = drop_bit (32 - unat p) net))"
proof -
  note items = sources.normalize_keeps_items[OF assms]
  have nontrivial: "trim value \<noteq> []" "trim out \<noteq> []"
    using assms(2) items trim_Nil_items by auto
  have "source_endpoint_allowed ep out = source_endpoint_allowed ep value"
    unfolding source_endpoint_allowed_def matches_items items using nontrivial by simp
  moreover have "\<exists>ip port e net p. ep = V4 ip port \<and> e \<in> set (list_items out)
      \<and> cidr_entry e = Some (net, p) \<and> 0 < p \<and> p \<le> 32 \<and> \<not> is_special net
      \<and> drop_bit (32 - unat p) ip = drop_bit (32 - unat p) net"
    if allowed: "source_endpoint_allowed ep out"
  proof -
    from allowed nontrivial obtain ip port e where
      ep: "ep = V4 ip port" "e \<in> set (list_items out)" "cidr_match ip e"
      unfolding source_endpoint_allowed_def matches_items
      by (auto simp: list_ex_iff split: socket_addr.splits)
    then show ?thesis
      using cidr_entry_sources[OF assms ep(2)] cidr_match_prefix[of e _ _ ip] word_neq_0_conv
      by metis
  qed
  ultimately show ?thesis using sources.normalize_idem[OF assms] by blast
qed

theorem normalize_source_whitelist_same_witness:
  "normalize_source_whitelist ''8.8.0.0/16,1.2.3.4'' = Some ''8.8.0.0/16,1.2.3.4''
    \<and> source_endpoint_allowed (V4 0x08080102 1) ''8.8.0.0/16,1.2.3.4''
      = source_endpoint_allowed (V4 0x08080102 1) ''8.8.0.0/16 1.2.3.4''
    \<and> (\<exists>e net p. e \<in> set (list_items ''8.8.0.0/16,1.2.3.4'') \<and> cidr_entry e = Some (net, p)
         \<and> 0 < p \<and> p \<le> 32 \<and> \<not> is_special net
         \<and> drop_bit (32 - unat p) 0x08080102 = drop_bit (32 - unat p) net)"
proof -
  have "normalize_source_whitelist ''8.8.0.0/16 1.2.3.4'' = Some ''8.8.0.0/16,1.2.3.4''"
    "list_items ''8.8.0.0/16 1.2.3.4'' \<noteq> []" by code_simp+
  note same = normalize_source_whitelist_same[OF this, of "V4 0x08080102 1"]
  have "source_endpoint_allowed (V4 0x08080102 1) ''8.8.0.0/16,1.2.3.4''" by code_simp
  with same show ?thesis by (simp del: Bex_set)
qed

text \<open>\<^bold>\<open>C39\<close> (a source list of separators only turns into an open list).  A non-blank source list
  without entries admits no endpoint, yet the normaliser accepts it and returns the empty list,
  which admits every endpoint.\<close>

theorem normalize_source_whitelist_opens:
  assumes "trim value \<noteq> []" and "list_items value = []"
  shows "normalize_source_whitelist value = Some [] \<and> \<not> source_endpoint_allowed ep value
    \<and> source_endpoint_allowed ep []"
proof -
  have "trim [] = ([] :: string)" by (simp add: trim_def)
  with assms show ?thesis
    unfolding source_endpoint_allowed_def matches_items
    by (simp add: normalize_source_whitelist_def split: socket_addr.split)
qed

theorem normalize_source_whitelist_opens_witness:
  "normalize_source_whitelist '' , ;'' = Some [] \<and> \<not> source_endpoint_allowed (V4 0x08080808 443) '' , ;''
    \<and> source_endpoint_allowed (V4 0x08080808 443) []"
proof -
  have "trim '' , ;'' \<noteq> []" "list_items '' , ;'' = []" by code_simp+
  then show ?thesis by (rule normalize_source_whitelist_opens)
qed

text \<open>(a prefix length above 32 in a raw source list).  The search of
  \<^verbatim>\<open>source_endpoint_allowed\<close> does not check the prefix length: with the wrapping arithmetic of a
  release build, an entry with prefix \<open>32 + k\<close>, \<open>1 \<le> k \<le> 31\<close>, is treated as one of prefix
  length \<open>k\<close>, although the normaliser rejects it.\<close>

theorem cidr_match_long_prefix:
  assumes "cidr_entry e = Some (ip, 32 + k)" and "1 \<le> k" and "k \<le> 31"
  shows "(cidr_match a e \<longleftrightarrow> drop_bit (32 - unat k) a = drop_bit (32 - unat k) ip) \<and> \<not> source_item e"
proof -
  have k: "1 \<le> unat k" "unat k \<le> 31" using assms(2,3) by (simp_all add: word_le_nat_alt)
  have plus: "unat (32 + k) = 32 + unat k" using k by (simp add: unat_plus_if')
  have "unat (32 - (32 + k)) = 4294967296 - unat k"
    using k plus by (subst unat_sub_if_size) (simp add: size_word.rep_eq)
  moreover have "(4294967296 - unat k) mod 32 = 32 - unat k"
  proof -
    have "4294967296 - unat k = (32 - unat k) + 32 * 134217727" using k by simp
    then show ?thesis using k by (simp only: mod_mult_self2) simp
  qed
  moreover have "32 + k \<noteq> 0" using plus by (metis add_is_0 unat_0 zero_neq_numeral)
  ultimately have "cidr_mask (32 + k) = push_bit (32 - unat k) 0xFFFFFFFF"
    by (simp add: cidr_mask_def shl_u32_def)
  moreover have "\<not> 32 + k \<le> 32" using k plus by (simp add: word_le_nat_alt)
  ultimately show ?thesis
    using assms(1) by (simp add: cidr_match_def and_push_bit_eq_iff source_item_def)
qed

theorem cidr_match_long_prefix_witness:
  "(cidr_match 0x08080808 ''1.2.3.4/33'' \<longleftrightarrow> drop_bit (32 - unat (1 :: u32)) (0x08080808 :: u32)
      = drop_bit (32 - unat (1 :: u32)) 0x01020304) \<and> \<not> source_item ''1.2.3.4/33''"
proof -
  have "cidr_entry ''1.2.3.4/33'' = Some (0x01020304, 32 + 1)" "1 \<le> (1 :: u32)" "(1 :: u32) \<le> 31"
    by code_simp+
  then show ?thesis by (rule cidr_match_long_prefix)
qed

text \<open>The text of an address with a port, as it appears in the configuration.\<close>

lemma plain_show_nat: "c \<in> set (show_nat n) \<Longrightarrow> is_ascii_digit c"
  using show_nat_digits[of n] by (simp add: list_all_iff)

lemma plain_show_ipv4: "c \<in> set (show_ipv4 ip) \<Longrightarrow> is_ascii_digit c \<or> c = CHR ''.''"
  using plain_show_nat by (auto simp: show_ipv4_def)

lemma digit_plain:
  assumes "is_ascii_digit c"
  shows "\<not> is_cont c \<and> \<not> is_whitespace [c]
    \<and> c \<notin> {CHR ''/'', CHR 0x5C, CHR ''@'', CHR ''['', CHR '']'', CHR '':''}"
  using assms by (auto simp: is_ascii_digit_def is_cont_def is_whitespace_def)

lemma split_host_port_ipv4:
  "split_host_port (show_ipv4 ip @ CHR '':'' # show_nat n)
     = (if 0 < n \<and> n \<le> 65535 then Some (show_ipv4 ip, Some (of_nat n)) else None)"
proof -
  let ?s = "show_ipv4 ip @ CHR '':'' # show_nat n"
  have plain: "\<not> is_cont c \<and> \<not> is_whitespace [c]
      \<and> c \<notin> {CHR ''/'', CHR 0x5C, CHR ''@'', CHR ''['', CHR '']''}" if "c \<in> set ?s" for c
  proof -
    from that consider "is_ascii_digit c" | "c = CHR ''.''" | "c = CHR '':''"
      using plain_show_ipv4 plain_show_nat by auto
    then show ?thesis
    proof cases
      case 1
      then show ?thesis using digit_plain by blast
    qed (simp_all add: is_cont_def is_whitespace_def)
  qed
  have t: "trim ?s = ?s" using plain unfolding list_all_iff by (intro trim_ascii[unfolded list_all_iff]) blast
  have sep: "\<not> list_ex (\<lambda>c. c \<in> {CHR ''/'', CHR 0x5C, CHR ''@'', CHR ''['', CHR '']''}) ?s"
    using plain unfolding list_ex_iff by blast
  from sep have "split_host_port ?s =
      (case rsplit_once CHR '':'' ?s of
         Some (host, port) \<Rightarrow>
           (case parse_u16 port of
              Some p \<Rightarrow> if p = 0 \<or> host = [] \<or> CHR '':'' \<in> set host then None else Some (host, Some p)
            | None \<Rightarrow> None)
       | None \<Rightarrow> Some (?s, None))"
    by (simp only: split_host_port_def Let_def t append_is_Nil_conv list.distinct simp_thms if_False)
  moreover have "rsplit_once CHR '':'' ?s = Some (show_ipv4 ip, show_nat n)"
    using show_nat_no_sep by (intro rsplit_once_append) auto
  moreover have "parse_u16 (show_nat n) = (if n \<le> 65535 then Some (of_nat n) else None)"
    by (simp add: parse_u16_def parse_unsigned_big)
  moreover have "of_nat n = (0 :: u16) \<longleftrightarrow> n = 0" if "n \<le> 65535"
    using that by (simp add: word_unat_eq_iff unat_of_nat)
  ultimately show ?thesis
    using show_ipv4_no_colon[of ip] by simp
qed

lemma is_valid_server_show:
  "is_valid_server (show_ipv4 ip @ CHR '':'' # show_nat n) m \<longleftrightarrow>
     0 < n \<and> n \<le> 65535 \<and> \<not> is_special ip \<and> (m = SelfHosted \<or> is_rfc1918 ip)"
  by (simp add: is_valid_server_def split_host_port_ipv4)

lemma valid_server_host:
  "is_valid_server s LanOnly \<longleftrightarrow>
     (\<exists>host port ip. split_host_port s = Some (host, port) \<and> parse_ipv4 host = Some ip
        \<and> \<not> is_special ip \<and> is_rfc1918 ip)"
  by (auto simp: is_valid_server_def split: option.splits)

text \<open>(which servers are accepted).  The printed form of an IPv4 address with a port is
  accepted exactly when the port is a non-zero 16-bit number, the address is not special and,
  in LAN-only mode, it is private; and LAN-only mode accepts nothing but such a host: a
  name is never resolved there.\<close>

theorem is_valid_server_ipv4:
  "(is_valid_server (show_ipv4 ip @ CHR '':'' # show_nat n) mode \<longleftrightarrow>
      0 < n \<and> n \<le> 65535 \<and> \<not> is_special ip \<and> (mode = SelfHosted \<or> is_rfc1918 ip))
   \<and> (is_valid_server s LanOnly \<longleftrightarrow>
       (\<exists>host port a. split_host_port s = Some (host, port) \<and> parse_ipv4 host = Some a
          \<and> \<not> is_special a \<and> is_rfc1918 a))"
  unfolding valid_server_host is_valid_server_show by blast

end
