(* ===== verification/Connection_Path.thy ===== *)
theory Connection_Path
  imports Homedesk_Net
begin

text \<open>
  The display of the selected connection path (\<^verbatim>\<open>client/src/homedesk_connection_path.rs\<close>) and the
  bookkeeping of queued save requests (\<^verbatim>\<open>client/src/homedesk_async.rs\<close>).

  The path shown is one of four words.  The lemmas relate the word to the address policy of
  \<open>Homedesk_Net\<close>, so that what is shown is what the policy would accept.  A queued save is
  claimed by its worker or abandoned by its caller, whichever compare-exchange comes first; the
  step relation below covers every interleaving of the two.
\<close>

section \<open>Connection path\<close>

definition classify ::
    "bool \<Rightarrow> socket_addr option \<Rightarrow> bool \<Rightarrow> string \<Rightarrow> string \<Rightarrow> string" where
  "classify direct endpoint local_hint family_cidr transport =
     (if \<not> direct then ''relay''
      else if transport \<noteq> ''TCP'' then ''direct_unknown''
      else (case endpoint of
              None \<Rightarrow> ''direct_unknown''
            | Some (V6 _ _) \<Rightarrow> ''direct_unknown''
            | Some (V4 ip _) \<Rightarrow>
                if is_rfc1918 ip
                then if local_hint \<and> address_in_whitelist (show_ipv4 ip) family_cidr
                     then ''lan'' else ''direct_unknown''
                else if is_valid_server (show_ipv4 ip) SelfHosted then ''p2p''
                else ''direct_unknown''))"

text \<open>The IPv4 forms of \<^verbatim>\<open>parse::<SocketAddr>\<close> and \<^verbatim>\<open>parse::<IpAddr>\<close>: the port is digits
  only.  Text in an IPv6 form gives no endpoint here; \<open>classify\<close> treats an IPv6 endpoint as it
  treats none (\<open>classify_v6\<close>).\<close>

definition parse_socket_v4 :: "string \<Rightarrow> socket_addr option" where
  "parse_socket_v4 s =
     (case split_once CHR '':'' s of
        None \<Rightarrow> None
      | Some (ip, port) \<Rightarrow>
          (case parse_ipv4 ip of
             None \<Rightarrow> None
           | Some ip \<Rightarrow>
               if port \<noteq> [] \<and> list_all is_ascii_digit port \<and> dec port \<le> 65535
               then Some (V4 ip (of_nat (dec port))) else None))"

definition classify_manual :: "string \<Rightarrow> string \<Rightarrow> string \<Rightarrow> string" where
  "classify_manual peer family_cidr transport =
     (let endpoint = (case parse_socket_v4 peer of
                        Some a \<Rightarrow> Some a
                      | None \<Rightarrow> map_option (\<lambda>ip. V4 ip 1) (parse_ipv4 peer))
      in classify True endpoint True family_cidr transport)"

lemma classify_v6: "classify direct (Some (V6 a p)) hint cidr t = classify direct None hint cidr t"
  by (simp add: classify_def)

lemma is_valid_server_show_ipv4:
  "is_valid_server (show_ipv4 ip) SelfHosted \<longleftrightarrow> \<not> is_special ip"
proof -
  let ?s = "show_ipv4 ip"
  have plain: "\<not> is_cont c \<and> \<not> is_whitespace [c]
      \<and> c \<notin> {CHR ''/'', CHR 0x5C, CHR ''@'', CHR ''['', CHR '']''}" if "c \<in> set ?s" for c
  proof (cases "is_ascii_digit c")
    case False
    with that plain_show_ipv4 have "c = CHR ''.''" by blast
    then show ?thesis by (simp add: is_cont_def is_whitespace_def)
  qed (use digit_plain in blast)
  have t: "trim ?s = ?s" using plain by (intro trim_ascii[unfolded list_all_iff]) blast
  have "\<not> list_ex (\<lambda>c. c \<in> {CHR ''/'', CHR 0x5C, CHR ''@'', CHR ''['', CHR '']''}) ?s"
    using plain unfolding list_ex_iff by blast
  moreover have "rsplit_once CHR '':'' ?s = None"
    using show_ipv4_no_colon rsplit_once_None by metis
  ultimately have "split_host_port ?s = Some (?s, None)"
    using show_ipv4_not_Nil by (simp only: split_host_port_def Let_def t simp_thms if_False option.case)
  then show ?thesis by (simp add: is_valid_server_def)
qed

text \<open>(what the displayed path means).  A path is shown as \<open>lan\<close> exactly for a direct TCP
  endpoint with a local hint whose private address is in the family list, and as \<open>p2p\<close> exactly
  for a direct TCP endpoint with a public, non-special address; an endpoint that is shown as
  \<open>lan\<close> or \<open>p2p\<close> and has a non-zero port, and is no network or broadcast address, passes the
  peer policy in self-hosted mode.\<close>

theorem classify_meaning:
  "(classify direct endpoint hint cidr t = ''lan'' \<longleftrightarrow>
      (\<exists>ip port. direct \<and> t = ''TCP'' \<and> endpoint = Some (V4 ip port) \<and> hint
         \<and> address_in_whitelist (show_ipv4 ip) cidr \<and> is_rfc1918 ip))
   \<and> (classify direct endpoint hint cidr t = ''p2p'' \<longleftrightarrow>
      (\<exists>ip port. direct \<and> t = ''TCP'' \<and> endpoint = Some (V4 ip port)
         \<and> \<not> is_rfc1918 ip \<and> \<not> is_special ip))
   \<and> (classify direct (Some (V4 ip port)) hint cidr t \<in> {''lan'', ''p2p''} \<and> port \<noteq> 0 \<and> \<not> is_special ip
        \<and> \<not> is_family_network_or_broadcast ip cidr
      \<longrightarrow> peer_endpoint_allowed (V4 ip port) SelfHosted hint cidr)"
  by (auto simp: classify_def is_valid_server_show_ipv4 peer_endpoint_allowed_def
      split: option.splits socket_addr.splits)

theorem classify_meaning_witness:
  "classify True (Some (V4 0xC0A80714 5000)) True ''192.168.7.0/24'' ''TCP'' = ''lan''
   \<and> peer_endpoint_allowed (V4 0xC0A80714 5000) SelfHosted True ''192.168.7.0/24''"
proof -
  have lan: "classify True (Some (V4 0xC0A80714 5000)) True ''192.168.7.0/24'' ''TCP'' = ''lan''"
    and ok: "\<not> is_special 0xC0A80714" "\<not> is_family_network_or_broadcast 0xC0A80714 ''192.168.7.0/24''"
    by code_simp+
  with classify_meaning[where direct = True and hint = True and cidr = "''192.168.7.0/24''"
    and t = "''TCP''" and ip = "0xC0A80714" and port = 5000]
  show ?thesis by simp
qed

section \<open>Queued saves\<close>

datatype enqueue_error = Busy | Stopped

text \<open>A bounded channel: its capacity, its queue and whether the receiver still exists.\<close>

record 't sync_channel =
  capacity :: nat
  queue :: "'t list"
  connected :: bool

definition try_enqueue :: "'t sync_channel \<Rightarrow> 't \<Rightarrow> (enqueue_error + unit) \<times> 't sync_channel" where
  "try_enqueue sender task =
     (if \<not> connected sender then (Inl Stopped, sender)
      else if length (queue sender) \<ge> capacity sender then (Inl Busy, sender)
      else (Inr (), sender\<lparr>queue := queue sender @ [task]\<rparr>))"

definition save_request_may_execute :: "bool \<Rightarrow> int \<Rightarrow> int \<Rightarrow> bool" where
  "save_request_may_execute abandoned now deadline \<longleftrightarrow> \<not> abandoned \<and> now < deadline"

definition compare_exchange :: "u8 \<Rightarrow> u8 \<Rightarrow> u8 \<Rightarrow> bool \<times> u8" where
  "compare_exchange old new state = (if state = old then (True, new) else (False, state))"

definition claim_queued_save :: "u8 \<Rightarrow> bool \<times> u8" where
  "claim_queued_save state = compare_exchange 0 1 state"

definition abandon_queued_save :: "u8 \<Rightarrow> bool \<times> u8" where
  "abandon_queued_save state = compare_exchange 0 2 state"

datatype save_call = Claim bool | Abandon bool

text \<open>The calls that have happened on one request, newest first, with what each returned.\<close>

inductive save_run :: "u8 \<Rightarrow> save_call list \<Rightarrow> bool" where
  queued: "save_run 0 []"
| claim: "save_run s tr \<Longrightarrow> claim_queued_save s = (ok, s') \<Longrightarrow> save_run s' (Claim ok # tr)"
| abandon: "save_run s tr \<Longrightarrow> abandon_queued_save s = (ok, s') \<Longrightarrow> save_run s' (Abandon ok # tr)"

lemma save_run_state:
  "save_run s tr \<Longrightarrow>
     (s = 0 \<and> tr = [])
   \<or> (s = 1 \<and> filter (\<lambda>c. c \<in> {Claim True, Abandon True}) tr = [Claim True])
   \<or> (s = 2 \<and> filter (\<lambda>c. c \<in> {Claim True, Abandon True}) tr = [Abandon True])"
  by (induction rule: save_run.induct)
    (auto simp: claim_queued_save_def abandon_queued_save_def compare_exchange_def split: if_splits)

text \<open>(a queued save has one outcome).  In every sequence of claims and abandons on one
  request exactly one call succeeds once there has been a call at all; so a request whose
  caller gave up in time is never executed, and one that is being executed cannot be given up.\<close>

theorem save_run_single_winner:
  assumes "save_run s tr" and "tr \<noteq> []"
  shows "length (filter (\<lambda>c. c \<in> {Claim True, Abandon True}) tr) = 1
    \<and> last tr \<in> {Claim True, Abandon True} \<and> (Abandon True \<in> set tr \<longrightarrow> Claim True \<notin> set tr)"
proof -
  have "last tr \<in> {Claim True, Abandon True}"
    using assms
    by (induction rule: save_run.induct)
      (auto simp: claim_queued_save_def abandon_queued_save_def compare_exchange_def
        dest: save_run_state split: if_splits)
  moreover from save_run_state[OF assms(1)] assms(2) consider
      "filter (\<lambda>c. c \<in> {Claim True, Abandon True}) tr = [Claim True]"
    | "filter (\<lambda>c. c \<in> {Claim True, Abandon True}) tr = [Abandon True]" by blast
  then have "length (filter (\<lambda>c. c \<in> {Claim True, Abandon True}) tr) = 1
      \<and> (Abandon True \<in> set tr \<longrightarrow> Claim True \<notin> set tr)"
  proof cases
    case 1
    have "Abandon True \<notin> set tr"
      using arg_cong[OF 1, of set] by auto
    with 1 show ?thesis by simp
  next
    case 2
    have "Claim True \<notin> set tr"
      using arg_cong[OF 2, of set] by auto
    with 2 show ?thesis by simp
  qed
  ultimately show ?thesis by blast
qed

theorem save_run_single_winner_witness:
  "length (filter (\<lambda>c. c \<in> {Claim True, Abandon True}) [Claim False, Abandon True]) = 1
    \<and> last [Claim False, Abandon True] \<in> {Claim True, Abandon True}
    \<and> Claim True \<notin> set [Claim False, Abandon True]"
proof -
  have "save_run 2 [Abandon True]"
    by (rule save_run.abandon[OF save_run.queued]) (simp add: abandon_queued_save_def compare_exchange_def)
  then have "save_run 2 [Claim False, Abandon True]"
    by (rule save_run.claim) (simp add: claim_queued_save_def compare_exchange_def)
  from save_run_single_winner[OF this] show ?thesis by simp
qed

end
