(* ===== verification/Homedesk_Config.thy ===== *)
theory Homedesk_Config
  imports Homedesk_Net
begin

text \<open>
  The network profile of \<^verbatim>\<open>client/src/homedesk_config.rs\<close>: validation, saving with rollback, the
  migration at start-up, the filter for imported options, and the policy questions the rest of
  the client asks.

  The option store itself (\<^verbatim>\<open>hbb_common::config\<close>) is not part of the repository.  It is the
  parameter \<open>config_api\<close>, the operations the file calls on a store of type \<^typ>\<open>'c\<close>;
  \<open>config_laws\<close> states what the file relies on.  The names of the upstream options
  (\<^verbatim>\<open>keys::OPTION_*\<close>), the values baked in by the build (\<^verbatim>\<open>env!\<close>), the Base64 decoder, the URL
  parser and the resolver are parameters as well.  The error texts of the source are
  the constructors of \<open>profile_error\<close>.
\<close>

type_synonym options = "string \<rightharpoonup> string"

record ('c, 'd) config_api =
  get_options :: "'c \<Rightarrow> options"
  get_option :: "'c \<Rightarrow> string \<Rightarrow> string"
  set_options :: "options \<Rightarrow> 'c \<Rightarrow> 'c"
  config2_get :: "'c \<Rightarrow> 'd"
  config2_set :: "'d \<Rightarrow> 'c \<Rightarrow> 'c"
  config2_options :: "'d \<Rightarrow> options"
  config2_load :: "'c \<Rightarrow> 'd"
  clear_trusted_devices :: "'c \<Rightarrow> 'c"
  clear_exe_rendezvous_server :: "'c \<Rightarrow> 'c"
  set_socks_none :: "'c \<Rightarrow> 'c"
  set_prod_rendezvous_server :: "string \<Rightarrow> 'c \<Rightarrow> 'c"
  insert_default :: "string \<Rightarrow> string \<Rightarrow> 'c \<Rightarrow> 'c"
  insert_default_local :: "string \<Rightarrow> string \<Rightarrow> 'c \<Rightarrow> 'c"
  insert_hard :: "string \<Rightarrow> string \<Rightarrow> 'c \<Rightarrow> 'c"
  insert_overwrite :: "string \<Rightarrow> string \<Rightarrow> 'c \<Rightarrow> 'c"
  insert_overwrite_local :: "string \<Rightarrow> string \<Rightarrow> 'c \<Rightarrow> 'c"

record option_keys =
  k_custom_rendezvous_server :: string
  k_relay_server :: string
  k_key :: string
  k_whitelist :: string
  k_api_server :: string
  k_allow_auto_update :: string
  k_allow_insecure_tls_fallback :: string
  k_language :: string
  k_enable_check_update :: string
  k_enable_udp_punch :: string
  k_enable_ipv6_punch :: string

record build_env =
  net_mode_env :: string
  server_host :: string
  server_key :: string
  whitelist_cidr_env :: string
  source_cidr_env :: string
  console_enabled_env :: string
  console_trusted_path_env :: string
  console_url_env :: string
  console_token_env :: string

definition relay_host :: string where "relay_host = []"
definition mode_key :: string where "mode_key = ''homedesk-net-mode''"
definition profile_prefix :: string where "profile_prefix = ''homedesk-profile-''"
definition profile_schema_key :: string where "profile_schema_key = ''homedesk-profile-schema''"

text \<open>The store together with the two statics of the file.\<close>

record 'c config_state =
  cfg_store :: 'c
  profile_confirmed :: bool
  portal_permission_epoch :: u64

definition mark_profile_unconfirmed :: "('c, 'z) config_state_scheme \<Rightarrow> ('c, 'z) config_state_scheme" where
  "mark_profile_unconfirmed s = s\<lparr>profile_confirmed := False\<rparr>"

definition mark_profile_confirmed :: "('c, 'z) config_state_scheme \<Rightarrow> ('c, 'z) config_state_scheme" where
  "mark_profile_confirmed s = s\<lparr>profile_confirmed := True\<rparr>"

text \<open>A parsed URL as \<^verbatim>\<open>reqwest::Url\<close> presents it.\<close>

record url =
  url_scheme :: string
  url_host_str :: "string option"
  url_username :: string
  url_password :: "string option"
  url_query :: "string option"
  url_fragment :: "string option"
  url_path :: string
  url_port_or_known_default :: "u16 option"
  url_origin_ascii :: string

definition normalize_portal_origin :: "(string \<Rightarrow> url option) \<Rightarrow> string \<Rightarrow> string option" where
  "normalize_portal_origin url_parse value =
     (if trim value \<noteq> value \<or> list_ex (\<lambda>c. is_control c \<or> is_whitespace c \<or> c = [CHR 0x5C]) (chars value)
      then None
      else (case url_parse value of
              None \<Rightarrow> None
            | Some url \<Rightarrow>
                if url_scheme url \<noteq> ''https'' \<or> url_host_str url = None \<or> url_username url \<noteq> []
                   \<or> url_password url \<noteq> None \<or> url_query url \<noteq> None \<or> url_fragment url \<noteq> None
                   \<or> url_path url \<notin> {[], ''/''} \<or> url_port_or_known_default url = Some 0
                then None else Some (url_origin_ascii url)))"

record network_profile =
  np_mode :: network_mode
  np_server :: string
  np_relay :: string
  np_key :: string
  np_family_cidr :: string
  np_source_cidr :: string

definition profile_key :: "network_mode \<Rightarrow> string \<Rightarrow> string" where
  "profile_key m field = profile_prefix @ network_mode_as_str m @ ''-'' @ field"

definition compiled_mode :: "build_env \<Rightarrow> network_mode" where
  "compiled_mode env = (case network_mode_parse (net_mode_env env) of Some m \<Rightarrow> m | None \<Rightarrow> LanOnly)"

definition validate_key :: "(string \<Rightarrow> u8 list option) \<Rightarrow> string \<Rightarrow> bool" where
  "validate_key decode64 value =
     (case decode64 value of Some decoded \<Rightarrow> length decoded = 32 | None \<Rightarrow> False)"

datatype profile_error =
    NotSelfHosted | BadServer | RelayConfigured | BadKey | BadFamilyCidr | BadSourceCidr
  | NotPersisted | RelayForbidden | NotReady | OutsideProfile | ResolveFailed | NoAllowedAddress

definition validate_profile ::
    "(string \<Rightarrow> u8 list option) \<Rightarrow> network_profile \<Rightarrow> profile_error + unit" where
  "validate_profile decode64 p =
     (if np_mode p \<noteq> SelfHosted then Inl NotSelfHosted
      else if \<not> is_valid_server (np_server p) (np_mode p) then Inl BadServer
      else if np_relay p \<noteq> [] then Inl RelayConfigured
      else if \<not> validate_key decode64 (np_key p) then Inl BadKey
      else if normalize_private_whitelist (np_family_cidr p) = None then Inl BadFamilyCidr
      else if normalize_source_whitelist (np_source_cidr p) = None then Inl BadSourceCidr
      else Inr ())"

definition active_mode :: "('c, 'd) config_api \<Rightarrow> ('c, 'z) config_state_scheme \<Rightarrow> network_mode" where
  "active_mode api s =
     (if \<not> profile_confirmed s then LanOnly
      else (case network_mode_parse (get_option api (cfg_store s) mode_key) of
              Some m \<Rightarrow> m | None \<Rightarrow> LanOnly))"

definition active_profile :: "('c, 'd) config_api \<Rightarrow> ('c, 'z) config_state_scheme \<Rightarrow> network_profile" where
  "active_profile api s =
     (let m = active_mode api s in
      if \<not> profile_confirmed s
      then \<lparr>np_mode = m, np_server = [], np_relay = [], np_key = [], np_family_cidr = [], np_source_cidr = []\<rparr>
      else \<lparr>np_mode = m,
            np_server = get_option api (cfg_store s) (profile_key m ''server''),
            np_relay = [],
            np_key = get_option api (cfg_store s) (profile_key m ''key''),
            np_family_cidr = get_option api (cfg_store s) (profile_key m ''family-cidr''),
            np_source_cidr = get_option api (cfg_store s) (profile_key m ''source-cidr'')\<rparr>)"

definition ingress :: "network_profile \<Rightarrow> string" where
  "ingress p = (if np_mode p = LanOnly then np_family_cidr p else np_source_cidr p)"

text \<open>The options \<^verbatim>\<open>save_network_profile\<close> builds, in the order of its inserts.\<close>

definition profile_options :: "option_keys \<Rightarrow> network_profile \<Rightarrow> options \<Rightarrow> options" where
  "profile_options ks p opts = opts(
     profile_key (np_mode p) ''server'' \<mapsto> np_server p,
     profile_key (np_mode p) ''relay'' \<mapsto> np_relay p,
     profile_key (np_mode p) ''key'' \<mapsto> np_key p,
     profile_key (np_mode p) ''family-cidr'' \<mapsto> np_family_cidr p,
     profile_key (np_mode p) ''source-cidr'' \<mapsto> np_source_cidr p,
     k_custom_rendezvous_server ks \<mapsto> np_server p,
     k_relay_server ks \<mapsto> np_relay p,
     k_key ks \<mapsto> np_key p,
     k_whitelist ks \<mapsto> ingress p,
     profile_schema_key \<mapsto> ''1'',
     mode_key \<mapsto> network_mode_as_str (np_mode p))"

definition save_network_profile ::
    "('c, 'd) config_api \<Rightarrow> option_keys \<Rightarrow> (string \<Rightarrow> u8 list option) \<Rightarrow> network_profile
       \<Rightarrow> 'c \<Rightarrow> (profile_error + unit) \<times> 'c" where
  "save_network_profile api ks decode64 p c =
     (case validate_profile decode64 p of
        Inl e \<Rightarrow> (Inl e, c)
      | Inr _ \<Rightarrow>
          let previous = config2_get api c;
              c = set_options api (profile_options ks p (get_options api c)) c;
              current = config2_get api c;
              stored = config2_load api c
          in if config2_options api stored \<noteq> config2_options api current
             then (Inl NotPersisted, config2_set api previous c)
             else (Inr (), c))"

section \<open>Start-up\<close>

text \<open>\<^verbatim>\<open>apply\<close>, cut at its blank lines: reading what is stored, the compiled defaults, the
  migration of options from before profiles existed, and the settings that are enforced.\<close>

definition strip_old_options :: "('c, 'd) config_api \<Rightarrow> 'c \<Rightarrow> 'c" where
  "strip_old_options api c =
     clear_trusted_devices api
       (set_options api ((get_options api c)(''2fa'' := None, ''telegram-bot'' := None)) c)"

definition or_default :: "string option \<Rightarrow> string" where
  "or_default v = (case v of Some x \<Rightarrow> x | None \<Rightarrow> [])"

definition insert_defaults :: "('c, 'd) config_api \<Rightarrow> option_keys \<Rightarrow> build_env \<Rightarrow> 'c \<Rightarrow> 'c" where
  "insert_defaults api ks env c =
     (let m = compiled_mode env in
      fold (\<lambda>(k, v). insert_default api k v)
        [(mode_key, network_mode_as_str m),
         (profile_key m ''server'', server_host env),
         (profile_key m ''relay'', relay_host),
         (profile_key m ''key'', server_key env),
         (profile_key m ''family-cidr'', whitelist_cidr_env env),
         (profile_key m ''source-cidr'', source_cidr_env env),
         (k_custom_rendezvous_server ks, server_host env),
         (k_relay_server ks, relay_host),
         (k_key ks, server_key env),
         (k_whitelist ks, if m = LanOnly then whitelist_cidr_env env else source_cidr_env env)] c)"

definition legacy_profile :: "option_keys \<Rightarrow> build_env \<Rightarrow> options \<Rightarrow> network_profile" where
  "legacy_profile ks env stored =
     (let legacy_key = or_default (stored (k_key ks)) in
      \<lparr>np_mode = LanOnly, np_server = or_default (stored (k_custom_rendezvous_server ks)), np_relay = [],
       np_key = (if legacy_key = [] then server_key env else legacy_key),
       np_family_cidr = or_default (stored (k_whitelist ks)), np_source_cidr = []\<rparr>)"

definition quarantine_options :: "network_profile \<Rightarrow> options \<Rightarrow> options" where
  "quarantine_options legacy opts = opts(
     mode_key \<mapsto> network_mode_as_str LanOnly,
     profile_schema_key \<mapsto> ''1'',
     profile_key LanOnly ''server'' \<mapsto> np_server legacy,
     profile_key LanOnly ''relay'' \<mapsto> np_relay legacy,
     profile_key LanOnly ''key'' \<mapsto> np_key legacy,
     profile_key LanOnly ''family-cidr'' \<mapsto> np_family_cidr legacy,
     profile_key LanOnly ''source-cidr'' \<mapsto> [])"

definition migrate_legacy ::
    "('c, 'd) config_api \<Rightarrow> option_keys \<Rightarrow> build_env \<Rightarrow> (string \<Rightarrow> u8 list option) \<Rightarrow> options \<Rightarrow> 'c \<Rightarrow> 'c" where
  "migrate_legacy api ks env decode64 stored c =
     (let existing_mode = or_default (stored mode_key);
          existing_schema = or_default (stored profile_schema_key);
          had_legacy_options = (stored \<noteq> Map.empty);
          legacy = legacy_profile ks env stored;
          c = (if existing_schema = [] \<and> existing_mode = [] \<and> had_legacy_options
               then (case validate_profile decode64 legacy of
                       Inl _ \<Rightarrow> set_options api (quarantine_options legacy (get_options api c)) c
                     | Inr _ \<Rightarrow> snd (save_network_profile api ks decode64 legacy c))
               else c)
      in if existing_schema = [] \<and> \<not> had_legacy_options
         then set_options api ((get_options api c)(profile_schema_key \<mapsto> ''1'')) c
         else c)"

definition reset_transport ::
    "('c, 'd) config_api \<Rightarrow> option_keys \<Rightarrow> network_profile \<Rightarrow> 'c \<Rightarrow> 'c" where
  "reset_transport api ks p c =
     set_options api ((get_options api c)(
       k_custom_rendezvous_server ks \<mapsto> np_server p,
       k_relay_server ks \<mapsto> np_relay p,
       k_key ks \<mapsto> np_key p,
       k_whitelist ks \<mapsto> ingress p)) c"

definition enforced_settings :: "option_keys \<Rightarrow> (string \<times> string) list" where
  "enforced_settings ks =
     [(k_api_server ks, []), (k_allow_auto_update ks, ''N''),
      (''hide-help-cards'', ''Y''), (''hide-proxy-settings'', ''Y''),
      (''hide-websocket-settings'', ''Y''), (''hide-remote-printer-settings'', ''Y''),
      (k_allow_insecure_tls_fallback ks, ''N''),
      (k_relay_server ks, []), (''force-always-relay'', ''N''), (''allow-websocket'', ''N'')]"

definition enforced_local_settings :: "option_keys \<Rightarrow> build_env \<Rightarrow> (string \<times> string) list" where
  "enforced_local_settings ks env =
     [(k_enable_check_update ks, ''N''), (k_enable_udp_punch ks, ''N''), (k_enable_ipv6_punch ks, ''N''),
      (''homedesk-console-url'', console_url_env env), (''homedesk-console-token'', console_token_env env)]"

definition apply_config ::
    "('c, 'd) config_api \<Rightarrow> option_keys \<Rightarrow> build_env \<Rightarrow> (string \<Rightarrow> u8 list option)
       \<Rightarrow> ('c, 'z) config_state_scheme \<Rightarrow> ('c, 'z) config_state_scheme" where
  "apply_config api ks env decode64 s =
     (let c = strip_old_options api (cfg_store s);
          stored = config2_options api (config2_get api c);
          c = set_prod_rendezvous_server api (server_host env)
                (set_socks_none api (clear_exe_rendezvous_server api c));
          c = insert_defaults api ks env c;
          c = migrate_legacy api ks env decode64 stored c;
          c = insert_default_local api (k_language ks) ''zh-cn'' c;
          c = fold (\<lambda>k. insert_hard api k ''Y'') [''disable-account'', ''disable-ab''] c;
          p = active_profile api (s\<lparr>cfg_store := c\<rparr>);
          c = reset_transport api ks p c;
          c = fold (\<lambda>(k, v). insert_overwrite api k v) (enforced_settings ks) c;
          c = fold (\<lambda>(k, v). insert_overwrite_local api k v) (enforced_local_settings ks env) c
      in s\<lparr>cfg_store := c\<rparr>)"

section \<open>Policy questions\<close>

definition public_services_disabled :: bool where "public_services_disabled = True"
definition pure_lan_enabled :: bool where "pure_lan_enabled = False"
definition requires_secure_session :: bool where "requires_secure_session = True"
definition require_direct :: bool where "require_direct = True"
definition public_stun_allowed :: bool where "public_stun_allowed = False"

text \<open>\<open>auth_ready\<close> is the answer of \<^verbatim>\<open>nestlink_auth::ready()\<close>.\<close>

definition remote_profile_ready ::
    "('c, 'd) config_api \<Rightarrow> (string \<Rightarrow> u8 list option) \<Rightarrow> bool \<Rightarrow> ('c, 'z) config_state_scheme \<Rightarrow> bool" where
  "remote_profile_ready api decode64 auth_ready s \<longleftrightarrow>
     auth_ready \<and> validate_profile decode64 (active_profile api s) = Inr ()"

definition config_home_tunnel_allowed :: "('c, 'd) config_api \<Rightarrow> ('c, 'z) config_state_scheme \<Rightarrow> bool" where
  "config_home_tunnel_allowed api s = home_tunnel_allowed (active_mode api s) (profile_confirmed s)"

text \<open>The epoch is read twice; \<open>s'\<close> is the state at the second read.\<close>

definition home_tunnel_permission ::
    "('c, 'd) config_api \<Rightarrow> ('c, 'z) config_state_scheme \<Rightarrow> ('c, 'z) config_state_scheme \<Rightarrow> string" where
  "home_tunnel_permission api s s' =
     (let epoch = portal_permission_epoch s in
      if \<not> config_home_tunnel_allowed api s' \<or> epoch \<noteq> portal_permission_epoch s' then []
      else show_nat (unat epoch))"

definition config_console_allowed ::
    "('c, 'd) config_api \<Rightarrow> build_env \<Rightarrow> ('c, 'z) config_state_scheme \<Rightarrow> bool" where
  "config_console_allowed api env s =
     (if \<not> profile_confirmed s then False
      else console_allowed (active_mode api s) (console_enabled_env env = ''true'')
             (console_trusted_path_env env = ''true''))"

definition console_configured :: "build_env \<Rightarrow> bool" where
  "console_configured env \<longleftrightarrow> console_enabled_env env = ''true''"

definition allows_http ::
    "('c, 'd) config_api \<Rightarrow> (string \<Rightarrow> url option) \<Rightarrow> ('c, 'z) config_state_scheme \<Rightarrow> string \<Rightarrow> bool" where
  "allows_http api url_parse s text =
     (case url_parse text of
        None \<Rightarrow> False
      | Some url \<Rightarrow>
          if url_scheme url \<notin> {''http'', ''https''} \<or> url_username url \<noteq> [] \<or> url_password url \<noteq> None
          then False
          else (case url_host_str url of
                  None \<Rightarrow> False
                | Some host \<Rightarrow> address_in_whitelist host (np_family_cidr (active_profile api s))))"

definition rendezvous_servers ::
    "('c, 'd) config_api \<Rightarrow> (string \<Rightarrow> u8 list option) \<Rightarrow> bool \<Rightarrow> ('c, 'z) config_state_scheme \<Rightarrow> string list" where
  "rendezvous_servers api decode64 auth_ready s =
     (if remote_profile_ready api decode64 auth_ready s then [np_server (active_profile api s)] else [])"

definition config_relay_allowed :: "string \<Rightarrow> bool" where
  "config_relay_allowed candidate = relay_allowed candidate"

definition normalize_relay_candidate :: "string \<Rightarrow> profile_error + string" where
  "normalize_relay_candidate candidate = Inl RelayForbidden"

fun show_socket_v4 :: "socket_addr \<Rightarrow> string option" where
  "show_socket_v4 (V4 ip port) = Some (show_ipv4 ip @ CHR '':'' # show_nat (unat port))"
| "show_socket_v4 (V6 _ _) = None"

definition resolve_configured_endpoint ::
    "('c, 'd) config_api \<Rightarrow> (string \<Rightarrow> u8 list option) \<Rightarrow> (string \<Rightarrow> int \<Rightarrow> string)
       \<Rightarrow> (string \<Rightarrow> socket_addr list option) \<Rightarrow> bool \<Rightarrow> ('c, 'z) config_state_scheme
       \<Rightarrow> string \<Rightarrow> int \<Rightarrow> bool \<Rightarrow> profile_error + socket_addr" where
  "resolve_configured_endpoint api decode64 check_port lookup_host auth_ready s endpoint default_port relay =
     (let p = active_profile api s in
      if relay then Inl RelayForbidden
      else if \<not> remote_profile_ready api decode64 auth_ready s then Inl NotReady
      else let candidate = check_port endpoint default_port;
               configured = check_port (np_server p) default_port
           in if \<not> eq_ignore_ascii_case candidate configured then Inl OutsideProfile
              else (case lookup_host candidate of
                      None \<Rightarrow> Inl ResolveFailed
                    | Some addresses \<Rightarrow>
                        (case filter (\<lambda>a. case show_socket_v4 a of
                                            None \<Rightarrow> False
                                          | Some t \<Rightarrow> is_valid_server t (np_mode p)) addresses of
                           [] \<Rightarrow> Inl NoAllowedAddress
                         | a # _ \<Rightarrow> Inr a)))"

definition source_allowed :: "('c, 'd) config_api \<Rightarrow> ('c, 'z) config_state_scheme \<Rightarrow> socket_addr \<Rightarrow> bool" where
  "source_allowed api s endpoint \<longleftrightarrow>
     (let p = active_profile api s
      in np_mode p = LanOnly \<or> source_endpoint_allowed endpoint (np_source_cidr p))"

definition sanitize_options ::
    "('c, 'd) config_api \<Rightarrow> option_keys \<Rightarrow> ('c, 'z) config_state_scheme \<Rightarrow> options \<Rightarrow> options" where
  "sanitize_options api ks s opts =
     (let current = get_options api (cfg_store s);
          opts = (\<lambda>k. if starts_with k profile_prefix then current k else opts k);
          p = active_profile api s;
          opts = opts(profile_schema_key \<mapsto> ''1'', mode_key \<mapsto> network_mode_as_str (np_mode p),
                      k_custom_rendezvous_server ks \<mapsto> np_server p, k_relay_server ks \<mapsto> np_relay p,
                      k_key ks \<mapsto> np_key p, k_whitelist ks \<mapsto> ingress p);
          opts = opts(k_api_server ks := None, k_allow_auto_update ks := None,
                      k_allow_insecure_tls_fallback ks := None, ''force-always-relay'' := None,
                      ''allow-websocket'' := None);
          opts = opts(k_relay_server ks \<mapsto> [])
      in (\<lambda>k. if starts_with k profile_prefix \<and> ends_with k ''-relay''
              then map_option (\<lambda>_. []) (opts k) else opts k))"

section \<open>What the option store promises\<close>

text \<open>
  \<open>ov c\<close> are the keys with an enforced value.  Reading one option agrees with reading all; a
  written option is read back unless it is enforced; an enforced value wins; putting a snapshot back
  restores it; the remaining setters touch neither the options nor the enforced keys.
\<close>

definition neutral :: "('c, 'd) config_api \<Rightarrow> ('c \<Rightarrow> string set) \<Rightarrow> ('c \<Rightarrow> 'c) \<Rightarrow> bool" where
  "neutral api ov f \<longleftrightarrow> (\<forall>c. get_options api (f c) = get_options api c \<and> ov (f c) = ov c)"

definition config_laws :: "('c, 'd) config_api \<Rightarrow> ('c \<Rightarrow> string set) \<Rightarrow> bool" where
  "config_laws api ov \<longleftrightarrow>
     (\<forall>c k. get_option api c k = or_default (get_options api c k))
   \<and> (\<forall>c m k v. m k = Some v \<longrightarrow> k \<notin> ov c \<longrightarrow> get_option api (set_options api m c) k = v)
   \<and> (\<forall>c m. ov (set_options api m c) = ov c)
   \<and> (\<forall>c d. config2_get api (config2_set api d c) = d)
   \<and> (\<forall>c k v. ov (insert_default api k v c) = ov c)
   \<and> (\<forall>c k v k'. get_option api (insert_overwrite api k v c) k' = (if k' = k then v else get_option api c k'))
   \<and> neutral api ov (clear_trusted_devices api)
   \<and> neutral api ov (clear_exe_rendezvous_server api)
   \<and> neutral api ov (set_socks_none api)
   \<and> (\<forall>v. neutral api ov (set_prod_rendezvous_server api v))
   \<and> (\<forall>k v. neutral api ov (insert_default_local api k v))
   \<and> (\<forall>k v. neutral api ov (insert_hard api k v))
   \<and> (\<forall>k v. neutral api ov (insert_overwrite_local api k v))"

text \<open>The upstream key names are distinct from each other and from the names of this file.\<close>

definition keys_ok :: "option_keys \<Rightarrow> bool" where
  "keys_ok ks \<longleftrightarrow>
     distinct (mode_key # k_custom_rendezvous_server ks # k_key ks # k_whitelist ks
       # map fst (enforced_settings ks))
   \<and> list_all (\<lambda>k. \<not> starts_with k profile_prefix)
       [k_custom_rendezvous_server ks, k_relay_server ks, k_key ks, k_whitelist ks, k_api_server ks,
        k_allow_auto_update ks, k_allow_insecure_tls_fallback ks]"

lemma law_get_option: "config_laws api ov \<Longrightarrow> get_option api c k = or_default (get_options api c k)"
  unfolding config_laws_def by metis

lemma law_set_options:
  "config_laws api ov \<Longrightarrow> m k = Some v \<Longrightarrow> k \<notin> ov c \<Longrightarrow> get_option api (set_options api m c) k = v"
  unfolding config_laws_def by metis

lemma law_ov_set: "config_laws api ov \<Longrightarrow> ov (set_options api m c) = ov c"
  unfolding config_laws_def by metis

lemma law_config2: "config_laws api ov \<Longrightarrow> config2_get api (config2_set api d c) = d"
  unfolding config_laws_def by metis

lemma law_ov_default: "config_laws api ov \<Longrightarrow> ov (insert_default api k v c) = ov c"
  unfolding config_laws_def by metis

lemma law_overwrite:
  "config_laws api ov \<Longrightarrow>
   get_option api (insert_overwrite api k v c) k' = (if k' = k then v else get_option api c k')"
  unfolding config_laws_def by metis

lemma neutral_get_option:
  assumes "config_laws api ov" and "neutral api ov f"
  shows "get_option api (f c) k = get_option api c k \<and> ov (f c) = ov c"
  using assms(2) law_get_option[OF assms(1)] by (simp add: neutral_def)

lemmas neutral_laws = config_laws_def[THEN iffD1, THEN conjunct2, THEN conjunct2, THEN conjunct2,
    THEN conjunct2, THEN conjunct2, THEN conjunct2]

lemma overwrite_fold:
  assumes "config_laws api ov"
  shows "get_option api (fold (\<lambda>(k, v). insert_overwrite api k v) kvs c) k' =
    (case map_of (rev kvs) k' of Some v \<Rightarrow> v | None \<Rightarrow> get_option api c k')"
  by (induction kvs arbitrary: c)
    (auto simp: law_overwrite[OF assms] map_add_def split: option.splits)

lemma neutral_fold:
  assumes "config_laws api ov" and "\<And>k v. neutral api ov (f k v)"
  shows "get_option api (fold (\<lambda>(k, v). f k v) kvs c) k' = get_option api c k'
    \<and> ov (fold (\<lambda>(k, v). f k v) kvs c) = ov c"
  by (induction kvs arbitrary: c) (auto simp: neutral_get_option[OF assms(1) assms(2)])

section \<open>An option store in memory\<close>

text \<open>A store that keeps every promise, for the concrete instances below.\<close>

record mem_store =
  m_defaults :: options
  m_options :: options
  m_overwrite :: options

definition mem_api :: "(mem_store, options) config_api" where
  "mem_api = \<lparr>
     get_options = (\<lambda>c. m_defaults c ++ m_options c ++ m_overwrite c),
     get_option = (\<lambda>c k. or_default ((m_defaults c ++ m_options c ++ m_overwrite c) k)),
     set_options = (\<lambda>m c. c\<lparr>m_options := (\<lambda>k. if k \<in> dom (m_overwrite c) \<or> m k = m_defaults c k
                                              then None else m k)\<rparr>),
     config2_get = m_options,
     config2_set = (\<lambda>d c. c\<lparr>m_options := d\<rparr>),
     config2_options = (\<lambda>d. d),
     config2_load = m_options,
     clear_trusted_devices = (\<lambda>c. c),
     clear_exe_rendezvous_server = (\<lambda>c. c),
     set_socks_none = (\<lambda>c. c),
     set_prod_rendezvous_server = (\<lambda>v c. c),
     insert_default = (\<lambda>k v c. c\<lparr>m_defaults := (m_defaults c)(k \<mapsto> v)\<rparr>),
     insert_default_local = (\<lambda>k v c. c),
     insert_hard = (\<lambda>k v c. c),
     insert_overwrite = (\<lambda>k v c. c\<lparr>m_overwrite := (m_overwrite c)(k \<mapsto> v)\<rparr>),
     insert_overwrite_local = (\<lambda>k v c. c)\<rparr>"

definition mem_ov :: "mem_store \<Rightarrow> string set" where
  "mem_ov c = dom (m_overwrite c)"

definition mem_keys :: option_keys where
  "mem_keys = \<lparr>k_custom_rendezvous_server = ''custom-rendezvous-server'', k_relay_server = ''relay-server'',
     k_key = ''key'', k_whitelist = ''whitelist'', k_api_server = ''api-server'',
     k_allow_auto_update = ''allow-auto-update'',
     k_allow_insecure_tls_fallback = ''allow-insecure-tls-fallback'', k_language = ''lang'',
     k_enable_check_update = ''enable-check-update'', k_enable_udp_punch = ''enable-udp-punch'',
     k_enable_ipv6_punch = ''enable-ipv6-punch''\<rparr>"

lemma mem_laws: "config_laws mem_api mem_ov"
  unfolding config_laws_def neutral_def
  by (auto simp: mem_api_def mem_ov_def or_default_def map_add_def split: option.splits)

lemma mem_keys_ok: "keys_ok mem_keys"
  by (simp add: keys_ok_def mem_keys_def mode_key_def profile_prefix_def starts_with_def
      enforced_settings_def)

lemma relay_key_enforced: "k_relay_server ks \<in> set (map fst (enforced_settings ks))"
  by (simp add: enforced_settings_def)

section \<open>Properties\<close>

lemma validate_profile_Inr:
  "validate_profile d p = Inr () \<longleftrightarrow>
     np_mode p = SelfHosted \<and> is_valid_server (np_server p) SelfHosted \<and> np_relay p = []
     \<and> validate_key d (np_key p) \<and> normalize_private_whitelist (np_family_cidr p) \<noteq> None
     \<and> normalize_source_whitelist (np_source_cidr p) \<noteq> None"
  by (auto simp: validate_profile_def)

lemma profile_key_prefix [simp]: "starts_with (profile_key m f) profile_prefix"
  by (simp add: profile_key_def)

lemma profile_key_inject [simp]: "profile_key m f = profile_key m g \<longleftrightarrow> f = g"
  by (simp add: profile_key_def)

lemma mode_key_prefix [simp]: "\<not> starts_with mode_key profile_prefix"
  by (simp add: mode_key_def profile_prefix_def starts_with_def)

lemma profile_key_schema: "f \<in> {''server'', ''relay'', ''key'', ''family-cidr'', ''source-cidr''} \<Longrightarrow>
    profile_key m f \<noteq> profile_schema_key"
  by (cases m) (auto simp: profile_key_def profile_schema_key_def profile_prefix_def)

lemma keys_ok_prefix:
  assumes "keys_ok ks" and "starts_with k profile_prefix"
  shows "k \<noteq> mode_key \<and> k \<noteq> k_custom_rendezvous_server ks \<and> k \<noteq> k_relay_server ks \<and> k \<noteq> k_key ks
    \<and> k \<noteq> k_whitelist ks"
  using assms by (auto simp: keys_ok_def simp del: set_map)

lemma profile_options_lookup:
  assumes "keys_ok ks"
  shows "profile_options ks p m mode_key = Some (network_mode_as_str (np_mode p))"
    "profile_options ks p m (profile_key (np_mode p) ''server'') = Some (np_server p)"
    "profile_options ks p m (profile_key (np_mode p) ''key'') = Some (np_key p)"
    "profile_options ks p m (profile_key (np_mode p) ''family-cidr'') = Some (np_family_cidr p)"
    "profile_options ks p m (profile_key (np_mode p) ''source-cidr'') = Some (np_source_cidr p)"
  using keys_ok_prefix[OF assms profile_key_prefix]
  by (simp_all add: profile_options_def profile_key_schema)

lemma active_profile_saved:
  assumes "config_laws api ov" and "keys_ok ks" and "profile_confirmed s" and "np_relay p = []"
    and "\<forall>k. starts_with k profile_prefix \<or> k = mode_key \<longrightarrow> k \<notin> ov c"
  shows "active_profile api (s\<lparr>cfg_store := set_options api (profile_options ks p m) c\<rparr>) = p"
proof -
  let ?m = "profile_options ks p m"
  have read: "get_option api (set_options api ?m c) k = v"
    if "?m k = Some v" "starts_with k profile_prefix \<or> k = mode_key" for k v
    using law_set_options[OF assms(1), of ?m] assms(5) that by blast
  show ?thesis
    using assms(3,4) read profile_options_lookup[OF assms(2), of p m]
    by (simp add: active_profile_def active_mode_def Let_def)
qed

text \<open>\<^bold>\<open>C31\<close> (saving a profile is all or nothing).  With a store that keeps its promises and does
  not enforce the keys of the profile: a rejected profile leaves the store as it was; when the
  written options did not reach the disk, the previous settings are back; and after success
  the active profile of a confirmed client is exactly the profile that was saved, which was
  valid.\<close>

theorem save_network_profile_atomic:
  assumes "config_laws api ov" and "keys_ok ks" and "profile_confirmed s"
    and "\<forall>k. starts_with k profile_prefix \<or> k = mode_key \<longrightarrow> k \<notin> ov c"
    and "save_network_profile api ks decode64 p c = (r, c')"
  shows "case r of
      Inr _ \<Rightarrow> validate_profile decode64 p = Inr () \<and> active_profile api (s\<lparr>cfg_store := c'\<rparr>) = p
    | Inl e \<Rightarrow> if e = NotPersisted then config2_get api c' = config2_get api c
               else validate_profile decode64 p = Inl e \<and> c' = c"
proof (cases "validate_profile decode64 p")
  case (Inl e)
  moreover have "e \<noteq> NotPersisted" using Inl by (auto simp: validate_profile_def split: if_splits)
  ultimately show ?thesis
    using assms(5) by (auto simp: save_network_profile_def split: sum.splits)
next
  case (Inr u)
  have "active_profile api (s\<lparr>cfg_store := set_options api (profile_options ks p (get_options api c)) c\<rparr>) = p"
    using Inr by (intro active_profile_saved[OF assms(1-3) _ assms(4)])
      (auto simp: validate_profile_def split: if_splits)
  with Inr assms(5) show ?thesis
    by (auto simp: save_network_profile_def Let_def law_config2[OF assms(1)] split: if_splits sum.splits)
qed

text \<open>A profile and a decoder for the instances: a decoder that accepts 44 characters as 32 bytes.\<close>

definition len_decode64 :: "string \<Rightarrow> u8 list option" where
  "len_decode64 v = (if length v = 44 then Some (replicate 32 0) else None)"

definition sample_profile :: network_profile where
  "sample_profile = \<lparr>np_mode = SelfHosted, np_server = ''8.8.8.8:21116'', np_relay = [],
     np_key = replicate 44 CHR ''A'', np_family_cidr = ''192.168.7.0/24'', np_source_cidr = []\<rparr>"

definition sample_store :: mem_store where
  "sample_store = \<lparr>m_defaults = Map.empty, m_options = Map.empty, m_overwrite = Map.empty\<rparr>"

definition sample_state :: "mem_store config_state" where
  "sample_state = \<lparr>cfg_store = sample_store, profile_confirmed = True, portal_permission_epoch = 0\<rparr>"

lemma sample_valid: "validate_profile len_decode64 sample_profile = Inr ()"
proof -
  have "is_valid_server ''8.8.8.8:21116'' SelfHosted" "normalize_private_whitelist ''192.168.7.0/24'' \<noteq> None"
    "normalize_source_whitelist [] \<noteq> None" by code_simp+
  then show ?thesis
    by (simp add: validate_profile_def sample_profile_def validate_key_def len_decode64_def)
qed

lemma sample_save:
  "save_network_profile mem_api mem_keys len_decode64 sample_profile sample_store =
     (Inr (), set_options mem_api (profile_options mem_keys sample_profile Map.empty) sample_store)"
  by (simp add: save_network_profile_def sample_valid mem_api_def sample_store_def Let_def)

theorem save_network_profile_atomic_witness:
  "active_profile mem_api (sample_state\<lparr>cfg_store :=
     set_options mem_api (profile_options mem_keys sample_profile Map.empty) sample_store\<rparr>) = sample_profile"
proof -
  have "\<forall>k. starts_with k profile_prefix \<or> k = mode_key \<longrightarrow> k \<notin> mem_ov sample_store"
    by (simp add: mem_ov_def sample_store_def)
  moreover have "profile_confirmed sample_state" by (simp add: sample_state_def)
  ultimately show ?thesis
    using save_network_profile_atomic[OF mem_laws mem_keys_ok _ _ sample_save, of sample_state] by simp
qed

definition guarded_key :: "option_keys \<Rightarrow> string \<Rightarrow> bool" where
  "guarded_key ks k \<longleftrightarrow> starts_with k profile_prefix
     \<or> k \<in> {mode_key, k_custom_rendezvous_server ks, k_relay_server ks, k_key ks, k_whitelist ks,
            k_api_server ks, k_allow_auto_update ks, k_allow_insecure_tls_fallback ks,
            ''force-always-relay'', ''allow-websocket''}"

lemma schema_prefix [simp]: "starts_with profile_schema_key profile_prefix"
  by (simp add: profile_schema_key_def profile_prefix_def starts_with_def)

lemma schema_not_relay [simp]: "\<not> ends_with profile_schema_key ''-relay''"
  by (simp add: profile_schema_key_def ends_with_def)

lemma upd_agree: "(k \<noteq> a \<Longrightarrow> f k = g k) \<Longrightarrow> (f(a := x)) k = (g(a := x)) k"
  by simp

lemma upd_other: "k \<noteq> a \<Longrightarrow> f k = v \<Longrightarrow> (f(a := x)) k = v"
  by simp

lemma sanitize_guarded:
  assumes "guarded_key ks k"
  shows "sanitize_options api ks s o1 k = sanitize_options api ks s o2 k"
proof -
  have relay: "(if P then map_option h x else x) = (if P then map_option h y else y)"
    if "x = y" for P and h :: "string \<Rightarrow> string" and x y
    using that by simp
  show ?thesis
    unfolding sanitize_options_def Let_def
    by (intro relay upd_agree) (use assms in \<open>simp add: guarded_key_def\<close>)
qed

lemma sanitize_unguarded:
  assumes "\<not> guarded_key ks k"
  shows "sanitize_options api ks s opts k = opts k"
proof -
  have relay: "(if P then map_option h x else x) = v"
    if "\<not> P" "x = v" for P and h :: "string \<Rightarrow> string" and x v
    using that by simp
  have "k \<noteq> profile_schema_key" using assms schema_prefix by (auto simp only: guarded_key_def)
  then show ?thesis
    unfolding sanitize_options_def Let_def
    by (intro relay upd_other) (use assms in \<open>simp_all add: guarded_key_def\<close>)
qed

text \<open>(imported options cannot touch the profile).  The filter gives the same values to the
  profile keys, the mode, the server, key and whitelist options and the switches of the transport
  whatever the import holds, leaves every other option as imported, never lets a relay through,
  and is idempotent.\<close>

theorem sanitize_options_guard:
  "sanitize_options api ks s opts k =
     (if guarded_key ks k then sanitize_options api ks s Map.empty k else opts k)
   \<and> sanitize_options api ks s opts (k_relay_server ks) = Some []
   \<and> (starts_with k profile_prefix \<and> ends_with k ''-relay''
        \<longrightarrow> sanitize_options api ks s opts k \<in> {None, Some []})
   \<and> sanitize_options api ks s (sanitize_options api ks s opts) = sanitize_options api ks s opts"
proof (intro conjI impI)
  show "sanitize_options api ks s opts k =
     (if guarded_key ks k then sanitize_options api ks s Map.empty k else opts k)"
    using sanitize_guarded sanitize_unguarded by metis
  show "sanitize_options api ks s opts (k_relay_server ks) = Some []"
    by (simp add: sanitize_options_def Let_def)
  show "sanitize_options api ks s opts k \<in> {None, Some []}"
    if "starts_with k profile_prefix \<and> ends_with k ''-relay''"
    using that by (auto simp: sanitize_options_def Let_def)
  show "sanitize_options api ks s (sanitize_options api ks s opts) = sanitize_options api ks s opts"
  proof
    fix x
    show "sanitize_options api ks s (sanitize_options api ks s opts) x = sanitize_options api ks s opts x"
      by (cases "guarded_key ks x") (rule sanitize_guarded, simp, rule sanitize_unguarded, simp)
  qed
qed

theorem sanitize_options_guard_witness:
  "sanitize_options mem_api mem_keys sample_state [''relay-server'' \<mapsto> ''evil:21117'', ''lang'' \<mapsto> ''fr''] ''lang'' = Some ''fr''
   \<and> sanitize_options mem_api mem_keys sample_state [''relay-server'' \<mapsto> ''evil:21117'', ''lang'' \<mapsto> ''fr'']
       (k_relay_server mem_keys) = Some []"
proof -
  have "\<not> guarded_key mem_keys ''lang''"
    by (simp add: guarded_key_def mem_keys_def mode_key_def starts_with_def profile_prefix_def)
  with sanitize_options_guard[where api = mem_api and ks = mem_keys and s = sample_state
      and opts = "[''relay-server'' \<mapsto> ''evil:21117'', ''lang'' \<mapsto> ''fr'']" and k = "''lang''"]
  show ?thesis by simp
qed

lemma lan_profile_invalid: "np_mode p = LanOnly \<Longrightarrow> validate_profile d p = Inl NotSelfHosted"
  by (simp add: validate_profile_def)

lemma np_mode_active [simp]: "np_mode (active_profile api s) = active_mode api s"
  by (simp add: active_profile_def Let_def)

lemma lan_no_servers:
  assumes "active_mode api s = LanOnly"
  shows "rendezvous_servers api d ready s = []"
  by (simp add: rendezvous_servers_def remote_profile_ready_def lan_profile_invalid assms)

text \<open>The enforced settings win over whatever is stored.\<close>

lemma enforced_settings_lookup:
  assumes "keys_ok ks"
  shows "map_of (rev (enforced_settings ks)) (k_relay_server ks) = Some []"
    "map_of (rev (enforced_settings ks)) ''force-always-relay'' = Some ''N''"
    "map_of (rev (enforced_settings ks)) ''allow-websocket'' = Some ''N''"
    "map_of (rev (enforced_settings ks)) (k_api_server ks) = Some []"
    "map_of (rev (enforced_settings ks)) (k_allow_insecure_tls_fallback ks) = Some ''N''"
    "map_of (rev (enforced_settings ks)) mode_key = None"
proof -
  have "distinct (map fst (enforced_settings ks))"
    using assms by (simp add: keys_ok_def)
  then have "distinct (map fst (rev (enforced_settings ks)))" by (simp add: rev_map[symmetric])
  note some = map_of_is_SomeI[OF this]
  show "map_of (rev (enforced_settings ks)) (k_relay_server ks) = Some []"
    by (rule some) (simp add: enforced_settings_def)
  show "map_of (rev (enforced_settings ks)) ''force-always-relay'' = Some ''N''"
    by (rule some) (simp add: enforced_settings_def)
  show "map_of (rev (enforced_settings ks)) ''allow-websocket'' = Some ''N''"
    by (rule some) (simp add: enforced_settings_def)
  show "map_of (rev (enforced_settings ks)) (k_api_server ks) = Some []"
    by (rule some) (simp add: enforced_settings_def)
  show "map_of (rev (enforced_settings ks)) (k_allow_insecure_tls_fallback ks) = Some ''N''"
    by (rule some) (simp add: enforced_settings_def)
  show "map_of (rev (enforced_settings ks)) mode_key = None"
    using assms unfolding map_of_eq_None_iff by (simp add: keys_ok_def)
qed

lemma apply_config_option:
  assumes "config_laws api ov"
  obtains c where "\<And>k. get_option api (cfg_store (apply_config api ks env decode64 s)) k =
    (case map_of (rev (enforced_settings ks)) k of Some v \<Rightarrow> v | None \<Rightarrow> get_option api c k)"
proof -
  have local: "neutral api ov (insert_overwrite_local api k v)" for k v
    using assms unfolding config_laws_def by metis
  show ?thesis
    by (rule that)
      (simp add: apply_config_def Let_def neutral_fold[OF assms local] overwrite_fold[OF assms])
qed


definition sample_env :: build_env where
  "sample_env = \<lparr>net_mode_env = ''self_hosted'', server_host = ''8.8.8.8:21116'',
     server_key = replicate 44 CHR ''A'', whitelist_cidr_env = ''192.168.7.0/24'', source_cidr_env = [],
     console_enabled_env = ''true'', console_trusted_path_env = ''false'', console_url_env = [],
     console_token_env = []\<rparr>"


text \<open>The steps of start-up leave the enforced keys alone until the enforced settings are
  written, so what the migration stores is what is read.\<close>

lemma ov_insert_defaults:
  assumes "config_laws api ov"
  shows "ov (insert_defaults api ks env c) = ov c"
proof -
  have "ov (fold (\<lambda>(k, v). insert_default api k v) kvs c) = ov c" for kvs
    by (induction kvs arbitrary: c) (auto simp: law_ov_default[OF assms])
  then show ?thesis unfolding insert_defaults_def Let_def by blast
qed

lemma get_options_of_option:
  "config_laws api ov \<Longrightarrow> get_option api c k \<noteq> [] \<Longrightarrow> get_options api c k = Some (get_option api c k)"
  by (cases "get_options api c k") (simp_all add: law_get_option or_default_def)

lemma migrate_legacy_mode:
  assumes "config_laws api ov" and "mode_key \<notin> ov c"
    and "stored mode_key = None" and "stored profile_schema_key = None" and "stored \<noteq> Map.empty"
  shows "get_option api (migrate_legacy api ks env d stored c) mode_key = ''lan_only''
    \<and> ov (migrate_legacy api ks env d stored c) = ov c"
proof -
  have lan: "validate_profile d (legacy_profile ks env stored) = Inl NotSelfHosted"
    by (simp add: lan_profile_invalid legacy_profile_def Let_def)
  let ?q = "quarantine_options (legacy_profile ks env stored) (get_options api c)"
  have "?q mode_key = Some ''lan_only''"
  proof -
    have "mode_key \<noteq> profile_key LanOnly f" for f using mode_key_prefix profile_key_prefix by metis
    moreover have "mode_key \<noteq> profile_schema_key" by (simp add: mode_key_def profile_schema_key_def)
    ultimately show ?thesis by (simp add: quarantine_options_def)
  qed
  from law_set_options[OF assms(1), of ?q, OF this assms(2)] show ?thesis
    using assms(3-5) lan by (simp add: migrate_legacy_def or_default_def law_ov_set[OF assms(1)])
qed

lemma reset_transport_mode:
  assumes "config_laws api ov" and "keys_ok ks" and "mode_key \<notin> ov c"
    and "get_option api c mode_key = v" and "v \<noteq> []"
  shows "get_option api (reset_transport api ks p c) mode_key = v"
proof -
  let ?m = "(get_options api c)(k_custom_rendezvous_server ks \<mapsto> np_server p,
    k_relay_server ks \<mapsto> np_relay p, k_key ks \<mapsto> np_key p, k_whitelist ks \<mapsto> ingress p)"
  have "?m mode_key = Some v"
    using get_options_of_option[OF assms(1), of c mode_key] assms(2,4,5) relay_key_enforced[of ks]
    by (auto simp: keys_ok_def simp del: set_map)
  from law_set_options[OF assms(1), of ?m, OF this assms(3)] show ?thesis
    by (simp add: reset_transport_def)
qed

text \<open>(options from before profiles are quarantined).  When the stored options are not
  empty but hold neither a mode nor a schema, start-up ends in LAN-only mode with no rendezvous
  server, whatever those options, the compiled defaults and the sign-in state are.  The
  branch that would save the old settings as a valid profile is never taken, because a LAN-only
  profile never validates.\<close>

theorem apply_config_legacy:
  assumes "config_laws api ov" and "keys_ok ks" and "mode_key \<notin> ov (cfg_store s)"
    and "stored = config2_options api (config2_get api (strip_old_options api (cfg_store s)))"
    and "stored mode_key = None" and "stored profile_schema_key = None" and "stored \<noteq> Map.empty"
  shows "active_mode api (apply_config api ks env decode64 s) = LanOnly
    \<and> rendezvous_servers api decode64 ready (apply_config api ks env decode64 s) = []
    \<and> validate_profile decode64 (legacy_profile ks env stored) = Inl NotSelfHosted"
proof -
  note laws = assms(1)
  have n: "neutral api ov (clear_trusted_devices api)" "neutral api ov (clear_exe_rendezvous_server api)"
    "neutral api ov (set_socks_none api)" "neutral api ov (set_prod_rendezvous_server api v)"
    "neutral api ov (insert_default_local api k v)" "neutral api ov (insert_hard api k v)"
    "neutral api ov (insert_overwrite_local api k v)" for k v
    using laws unfolding config_laws_def by metis+
  note keep = n[THEN neutral_get_option[OF laws]]
  define c1 where "c1 = insert_defaults api ks env (set_prod_rendezvous_server api (server_host env)
    (set_socks_none api (clear_exe_rendezvous_server api (strip_old_options api (cfg_store s)))))"
  define c2 where "c2 = fold (\<lambda>k. insert_hard api k ''Y'') [''disable-account'', ''disable-ab'']
    (insert_default_local api (k_language ks) ''zh-cn'' (migrate_legacy api ks env decode64 stored c1))"
  have "mode_key \<notin> ov c1"
    using assms(3) by (simp add: c1_def ov_insert_defaults[OF laws] keep strip_old_options_def law_ov_set[OF laws])
  from migrate_legacy_mode[OF laws this assms(5-7), of ks env decode64] this
  have "get_option api c2 mode_key = ''lan_only''" "mode_key \<notin> ov c2"
    by (simp_all add: c2_def keep)
  then have r: "get_option api (reset_transport api ks p c2) mode_key = ''lan_only''" for p
    using reset_transport_mode[OF laws assms(2)] by simp
  have "get_option api (cfg_store (apply_config api ks env decode64 s)) mode_key = ''lan_only''"
    unfolding apply_config_def Let_def assms(4)[symmetric] c1_def[symmetric] c2_def[symmetric]
    by (simp add: neutral_fold[OF laws n(7)] overwrite_fold[OF laws] enforced_settings_lookup[OF assms(2)] r)
  then have "active_mode api (apply_config api ks env decode64 s) = LanOnly"
    by (simp add: active_mode_def)
  with lan_no_servers[OF this] show ?thesis
    by (simp add: lan_profile_invalid legacy_profile_def Let_def)
qed

theorem apply_config_legacy_witness:
  "active_mode mem_api (apply_config mem_api mem_keys sample_env len_decode64
     (sample_state\<lparr>cfg_store := sample_store\<lparr>m_options := [''custom-rendezvous-server'' \<mapsto> ''1.1.1.1'']\<rparr>\<rparr>)) = LanOnly"
proof -
  let ?c = "sample_store\<lparr>m_options := [''custom-rendezvous-server'' \<mapsto> ''1.1.1.1'']\<rparr>"
  let ?s = "sample_state\<lparr>cfg_store := ?c\<rparr>"
  let ?o = "config2_options mem_api (config2_get mem_api (strip_old_options mem_api (cfg_store ?s)))"
  have o: "?o = [''custom-rendezvous-server'' \<mapsto> ''1.1.1.1'']"
    by (auto simp: mem_api_def strip_old_options_def sample_store_def fun_eq_iff)
  have "mode_key \<notin> mem_ov (cfg_store ?s)" by (simp add: mem_ov_def sample_store_def)
  moreover have "?o mode_key = None" "?o profile_schema_key = None" "?o \<noteq> Map.empty"
    unfolding o by (simp_all add: mode_key_def profile_schema_key_def)
  ultimately show ?thesis
    using apply_config_legacy[OF mem_laws mem_keys_ok _ refl] by blast
qed

text \<open>(only the configured server is dialled).  An address returned for signalling is one
  the resolver gave for the endpoint asked for, which names the server of the active profile up to
  letter case; the profile is valid, the sign-in is ready, no relay was asked for, and the address
  is IPv4 with a non-zero port and not special.\<close>

theorem resolve_configured_endpoint_sound:
  assumes "resolve_configured_endpoint api decode64 check_port lookup_host ready s endpoint port is_relay = Inr a"
  shows "\<not> is_relay \<and> ready \<and> validate_profile decode64 (active_profile api s) = Inr ()
    \<and> eq_ignore_ascii_case (check_port endpoint port) (check_port (np_server (active_profile api s)) port)
    \<and> (\<exists>as ip p. lookup_host (check_port endpoint port) = Some as \<and> a \<in> set as \<and> a = V4 ip p
         \<and> p \<noteq> 0 \<and> \<not> is_special ip)"
proof -
  let ?p = "active_profile api s"
  let ?ok = "\<lambda>a. case show_socket_v4 a of None \<Rightarrow> False | Some t \<Rightarrow> is_valid_server t (np_mode ?p)"
  from assms obtain as where as: "\<not> is_relay" "remote_profile_ready api decode64 ready s"
    "eq_ignore_ascii_case (check_port endpoint port) (check_port (np_server ?p) port)"
    "lookup_host (check_port endpoint port) = Some as" "\<exists>rest. filter ?ok as = a # rest"
    by (auto simp: resolve_configured_endpoint_def Let_def split: if_splits option.splits list.splits)
  then have a: "a \<in> set as" "?ok a"
    by (auto dest: filter_eq_ConsD)
  from a(2) obtain ip p where ip: "a = V4 ip p" by (cases a rule: socket_addr.exhaust) auto
  with a(2) have "0 < unat p \<and> \<not> is_special ip" by (simp add: is_valid_server_show)
  with as a ip show ?thesis by (auto simp: remote_profile_ready_def unat_gt_0)
qed

theorem resolve_configured_endpoint_sound_witness:
  "\<exists>as ip p. Some [V4 0x08080808 21116] = Some as \<and> V4 0x08080808 21116 \<in> set as
     \<and> (V4 0x08080808 21116 :: socket_addr) = V4 ip p \<and> p \<noteq> 0 \<and> \<not> is_special ip"
proof -
  let ?s = "sample_state\<lparr>cfg_store :=
    set_options mem_api (profile_options mem_keys sample_profile Map.empty) sample_store\<rparr>"
  have "profile_confirmed sample_state" "\<forall>k. starts_with k profile_prefix \<or> k = mode_key \<longrightarrow> k \<notin> mem_ov sample_store"
    by (simp_all add: sample_state_def mem_ov_def sample_store_def)
  then have p: "active_profile mem_api ?s = sample_profile"
    by (intro active_profile_saved[OF mem_laws mem_keys_ok]) (simp_all add: sample_profile_def)
  have v: "is_valid_server (show_ipv4 0x08080808 @ CHR '':'' # show_nat 21116) SelfHosted" by code_simp
  have "resolve_configured_endpoint mem_api len_decode64 (\<lambda>e _. e) (\<lambda>_. Some [V4 0x08080808 21116]) True
      ?s ''8.8.8.8:21116'' 21116 False = Inr (V4 0x08080808 21116)"
    using v unfolding resolve_configured_endpoint_def Let_def remote_profile_ready_def p
    by (simp add: sample_valid eq_ignore_ascii_case_def) (simp add: sample_profile_def)
  from resolve_configured_endpoint_sound[OF this] show ?thesis by simp
qed

end
