(* ===== verification/Nestlink_Auth.thy ===== *)
theory Nestlink_Auth
  imports Homedesk_Config
begin

text \<open>
  Account authorisation (\<^verbatim>\<open>client/src/nestlink_auth.rs\<close>): the in-memory sign-in with its revision
  and epoch counters, the verification of browser grants and remote permits, and the guards of
  running sessions.

  The statics of the file are the record \<open>auth_state\<close>, which extends the configuration state,
  because \<^verbatim>\<open>install\<close> saves the profile it received.  Every \<^verbatim>\<open>await\<close> lets other tasks run; the
  operations that wait are cut there and take the state found afterwards as an argument, and
  \<open>auth_step\<close> interleaves the pieces.  \<^verbatim>\<open>Instant\<close> is a number of milliseconds.  The effects on
  other parts of the client (waking waiters, restarting the mediator, stopping the browser helper,
  spawning the monitor) are appended to a log.

  Base64, Ed25519, UUID and JSON decoding and the HTTP exchange come from libraries: they are the
  fields of \<open>crypto\<close> and the arguments named after them.  The fixed error texts are the
  constructors of \<open>message\<close>.
\<close>

section \<open>Errors\<close>

datatype message =
    LoginInfoInvalid | NoDeviceGrant | TooLarge | SignInFirst | AuthSuperseded | AuthEnded
  | BrowserPermitInvalid | ServiceKeyInvalid | SignatureInvalid | BrowserPermitScope | SharingOff
  | BrowserPermitOther | RotationTimeout | PermitTooLong | PermitFormat | PermitSignature
  | PermitExpired | UseDeviceId | NoPermitReturned | PermitScope | IdentityMismatch
  | SecretKeyInvalid | PermitMissing | PermitDeviceMismatch | PeerKeyInvalid | PeerSignatureInvalid
  | PeerProofInvalid | DecodeFailed | JsonFailed | FromProfile profile_error | Foreign string

text \<open>What \<^verbatim>\<open>downcast_ref\<close> can find in an \<^verbatim>\<open>anyhow::Error\<close>, and the messages of its source chain.\<close>

record any_error =
  er_http :: "u16 option"
  er_reqwest :: "(bool \<times> bool) option"
  er_json :: bool
  er_chain :: "message list"

definition bail :: "message \<Rightarrow> any_error + 'a" where
  "bail m = Inl \<lparr>er_http = None, er_reqwest = None, er_json = False, er_chain = [m]\<rparr>"

definition http_error :: "u16 \<Rightarrow> any_error" where
  "http_error code = \<lparr>er_http = Some code, er_reqwest = None, er_json = False, er_chain = []\<rparr>"

definition json_error :: any_error where
  "json_error = \<lparr>er_http = None, er_reqwest = None, er_json = True, er_chain = [JsonFailed]\<rparr>"

definition decode_error :: any_error where
  "decode_error = \<lparr>er_http = None, er_reqwest = None, er_json = False, er_chain = [DecodeFailed]\<rparr>"

definition message_contains :: "message \<Rightarrow> string \<Rightarrow> bool" where
  "message_contains m t = (case m of Foreign s \<Rightarrow> str_contains s t | _ \<Rightarrow> False)"

fun chain_code :: "message list \<Rightarrow> string option" where
  "chain_code [] = None"
| "chain_code (m # ms) =
     (if message_contains m ''Unknown TLS backend passed to `use_preconfigured_tls`''
         \<or> message_contains m ''Unknown TLS backend passed to use_preconfigured_tls''
      then Some ''NESTLINK_NATIVE_AUTH_V1:TLS_CONFIGURATION''
      else if message_contains m ''rustls-platform-verifier not initialized''
      then Some ''NESTLINK_NATIVE_AUTH_V1:PLATFORM_VERIFIER''
      else if message_contains m ''invalid peer certificate''
         \<or> message_contains m ''certificate verify failed''
      then Some ''NESTLINK_NATIVE_AUTH_V1:CERTIFICATE_REJECTED''
      else if m \<in> {LoginInfoInvalid, NoDeviceGrant, TooLarge}
      then Some ''NESTLINK_NATIVE_AUTH_V1:INVALID_RESPONSE''
      else if m \<in> {SignInFirst, AuthSuperseded, AuthEnded}
      then Some ''NESTLINK_NATIVE_AUTH_V1:AUTH_REQUIRED''
      else chain_code ms)"

definition native_failure_code :: "any_error \<Rightarrow> string" where
  "native_failure_code e =
     (case er_http e of
        Some code \<Rightarrow>
          if code = 401 then ''NESTLINK_NATIVE_AUTH_V1:HTTP_401''
          else if code = 403 then ''NESTLINK_NATIVE_AUTH_V1:HTTP_403''
          else ''NESTLINK_NATIVE_AUTH_V1:HTTP_OTHER''
      | None \<Rightarrow>
          if (case er_reqwest e of Some (timeout, _) \<Rightarrow> timeout | None \<Rightarrow> False)
          then ''NESTLINK_NATIVE_AUTH_V1:TIMEOUT''
          else if (case er_reqwest e of Some (_, decode) \<Rightarrow> decode | None \<Rightarrow> False)
          then ''NESTLINK_NATIVE_AUTH_V1:INVALID_RESPONSE''
          else if er_json e then ''NESTLINK_NATIVE_AUTH_V1:INVALID_RESPONSE''
          else (case chain_code (er_chain e) of
                  Some c \<Rightarrow> c
                | None \<Rightarrow> if er_reqwest e \<noteq> None then ''NESTLINK_NATIVE_AUTH_V1:NETWORK''
                          else ''NESTLINK_NATIVE_AUTH_V1:UNKNOWN''))"

section \<open>The HTTP exchange\<close>

text \<open>The answer to a request: nothing (a transport error), or a status, an announced length and
  the chunks of the body, each of which may fail.\<close>

record http_response =
  rs_status :: u16
  rs_content_length :: "nat option"
  rs_chunks :: "(any_error + string) list"

definition body_limit :: nat where "body_limit = 64 * 1024"

fun read_body :: "string \<Rightarrow> (any_error + string) list \<Rightarrow> any_error + string" where
  "read_body bytes [] = Inr bytes"
| "read_body bytes (Inl e # _) = Inl e"
| "read_body bytes (Inr chunk # rest) =
     (if length bytes + length chunk > body_limit then bail TooLarge
      else read_body (bytes @ chunk) rest)"

text \<open>\<open>json\<close> is the JSON parser and \<open>null\<close> its null value; \<open>answer\<close> is what came back
  for the method, path and body that were sent.\<close>

definition request :: "(string \<Rightarrow> 'j option) \<Rightarrow> 'j \<Rightarrow> any_error + http_response \<Rightarrow> any_error + 'j" where
  "request json null answer =
     (case answer of
        Inl e \<Rightarrow> Inl e
      | Inr response \<Rightarrow>
          if \<not> (200 \<le> rs_status response \<and> rs_status response < 300) then Inl (http_error (rs_status response))
          else if rs_status response = 204 then Inr null
          else if (case rs_content_length response of Some n \<Rightarrow> n > body_limit | None \<Rightarrow> False)
          then bail TooLarge
          else (case read_body [] (rs_chunks response) of
                  Inl e \<Rightarrow> Inl e
                | Inr bytes \<Rightarrow> (case json bytes of Some v \<Rightarrow> Inr v | None \<Rightarrow> Inl json_error)))"

section \<open>Records and state\<close>

record auth_request =
  ar_origin :: string
  ar_device_id :: string
  ar_access_token :: string

record trust =
  t_algorithm :: string
  t_public_key :: string
  t_realm :: string

record presence =
  pr_device_id :: string
  pr_session_id :: string
  pr_server :: string
  pr_key :: string
  pr_key_sha256 :: string
  pr_family_cidr :: string
  pr_source_cidr :: string
  pr_permit_trust :: trust

record validated_auth =
  va_request :: auth_request
  va_presence :: presence
  va_valid_until :: ms
  va_revision :: u64
  va_epoch :: u64

datatype auth_effect = NotifyWaiters | MediatorRestart | BrowserStop | AccountRevoked | SpawnMonitor | SpawnWatch

record 'c auth_state = "'c config_state" +
  a_epoch :: u64
  a_revision :: u64
  a_monitoring :: bool
  a_watching :: bool
  a_auth :: "validated_auth option"
  a_updates :: u64
  a_effects :: "auth_effect list"

record crypto =
  std_decode :: "string \<Rightarrow> u8 list option"
  std_encode :: "u8 list \<Rightarrow> string"
  url_decode :: "string \<Rightarrow> u8 list option"
  public_key_from_slice :: "u8 list \<Rightarrow> u8 list option"
  secret_key_from_slice :: "u8 list \<Rightarrow> u8 list option"
  signature_from_bytes :: "u8 list \<Rightarrow> u8 list option"
  verify_detached :: "u8 list \<Rightarrow> string \<Rightarrow> u8 list \<Rightarrow> bool"
  sign_detached :: "string \<Rightarrow> u8 list \<Rightarrow> u8 list"
  uuid_ok :: "string \<Rightarrow> bool"

definition live :: "ms \<Rightarrow> validated_auth option \<Rightarrow> validated_auth option" where
  "live now a = (case a of Some v \<Rightarrow> if now < va_valid_until v then Some v else None | None \<Rightarrow> None)"

definition ready :: "ms \<Rightarrow> ('c, 'z) auth_state_scheme \<Rightarrow> bool" where
  "ready now s = (case a_auth s of Some v \<Rightarrow> now < va_valid_until v | None \<Rightarrow> False)"

definition current_request :: "ms \<Rightarrow> ('c, 'z) auth_state_scheme \<Rightarrow> auth_request option" where
  "current_request now s = map_option va_request (live now (a_auth s))"

definition snapshot :: "ms \<Rightarrow> ('c, 'z) auth_state_scheme \<Rightarrow> any_error + validated_auth" where
  "snapshot now s = (case live now (a_auth s) of Some v \<Rightarrow> Inr v | None \<Rightarrow> bail SignInFirst)"

text \<open>\<open>android\<close> and \<open>ios\<close> are the build targets.\<close>

definition after_revocation :: "bool \<Rightarrow> bool \<Rightarrow> ('c, 'z) auth_state_scheme \<Rightarrow> ('c, 'z) auth_state_scheme" where
  "after_revocation android ios s =
     s\<lparr>a_updates := a_revision s,
       a_effects := a_effects s @ [NotifyWaiters] @ (if android then [AccountRevoked] else [])
                      @ (if ios then [] else [MediatorRestart])\<rparr>"

definition clear :: "bool \<Rightarrow> bool \<Rightarrow> ('c, 'z) auth_state_scheme \<Rightarrow> ('c, 'z) auth_state_scheme" where
  "clear android ios s =
     after_revocation android ios
       (s\<lparr>a_effects := a_effects s @ [BrowserStop], a_auth := None,
          a_revision := a_revision s + 1, a_epoch := a_epoch s + 1\<rparr>)"

definition invalidate_revision ::
    "u64 \<Rightarrow> bool \<Rightarrow> ('c, 'z) auth_state_scheme \<Rightarrow> bool \<times> ('c, 'z) auth_state_scheme" where
  "invalidate_revision revision require_installed s =
     (if a_revision s \<noteq> revision
         \<or> (require_installed \<and> map_option va_revision (a_auth s) \<noteq> Some revision)
      then (False, s)
      else (True, s\<lparr>a_auth := None, a_revision := a_revision s + 1, a_epoch := a_epoch s + 1\<rparr>))"

definition clear_if_revision ::
    "bool \<Rightarrow> bool \<Rightarrow> u64 \<Rightarrow> bool \<Rightarrow> ('c, 'z) auth_state_scheme \<Rightarrow> ('c, 'z) auth_state_scheme" where
  "clear_if_revision android ios revision require_installed s =
     (case invalidate_revision revision require_installed s of
        (False, s) \<Rightarrow> s
      | (True, s) \<Rightarrow> after_revocation android ios s)"

definition clear_revision ::
    "bool \<Rightarrow> bool \<Rightarrow> u64 \<Rightarrow> ('c, 'z) auth_state_scheme \<Rightarrow> ('c, 'z) auth_state_scheme" where
  "clear_revision android ios revision s = clear_if_revision android ios revision True s"

definition store_validated_auth ::
    "ms \<Rightarrow> auth_request \<Rightarrow> presence \<Rightarrow> u64 \<Rightarrow> ('c, 'z) auth_state_scheme
       \<Rightarrow> bool \<times> ('c, 'z) auth_state_scheme" where
  "store_validated_auth now req pres revision s =
     (let changed = (case a_auth s of
                       None \<Rightarrow> True
                     | Some old \<Rightarrow> ar_origin (va_request old) \<noteq> ar_origin req \<or> va_presence old \<noteq> pres);
          epoch = (if changed then a_epoch s + 1 else a_epoch s)
      in (changed,
          s\<lparr>a_epoch := epoch,
            a_auth := Some \<lparr>va_request = req, va_presence = pres, va_valid_until = now + 15000,
                            va_revision = revision, va_epoch = epoch\<rparr>\<rparr>))"

definition renew_presence_revision ::
    "ms \<Rightarrow> u64 \<Rightarrow> ('c, 'z) auth_state_scheme \<Rightarrow> ('c, 'z) auth_state_scheme" where
  "renew_presence_revision now revision s =
     (case a_auth s of
        Some current \<Rightarrow>
          if va_revision current = revision
          then s\<lparr>a_auth := Some (current\<lparr>va_valid_until := now + 15000\<rparr>)\<rparr> else s
      | None \<Rightarrow> s)"

section \<open>Browser grants\<close>

record browser_claims =
  bc_v :: u32
  bc_typ :: string
  bc_jti :: string
  bc_realm :: string
  bc_host_device :: string
  bc_host_session :: string
  bc_controller_session :: string
  bc_offer_sha256 :: string
  bc_answer_sha256 :: string
  bc_iat :: u64
  bc_exp :: u64
  bc_policy :: string

text \<open>The two token formats share the decoding of a key and of a signature.\<close>

definition service_key :: "crypto \<Rightarrow> trust \<Rightarrow> any_error + u8 list" where
  "service_key cr tr =
     (case std_decode cr (t_public_key tr) of
        None \<Rightarrow> Inl decode_error
      | Some k \<Rightarrow> (case public_key_from_slice cr k of Some key \<Rightarrow> Inr key | None \<Rightarrow> bail ServiceKeyInvalid))"

definition token_signature :: "crypto \<Rightarrow> message \<Rightarrow> string \<Rightarrow> any_error + u8 list" where
  "token_signature cr m part =
     (case url_decode cr part of
        None \<Rightarrow> Inl decode_error
      | Some b \<Rightarrow> (case signature_from_bytes cr b of Some sg \<Rightarrow> Inr sg | None \<Rightarrow> bail m))"

definition token_json :: "crypto \<Rightarrow> (u8 list \<Rightarrow> 'j option) \<Rightarrow> string \<Rightarrow> any_error + 'j" where
  "token_json cr json part =
     (case url_decode cr part of
        None \<Rightarrow> Inl decode_error
      | Some b \<Rightarrow> (case json b of Some c \<Rightarrow> Inr c | None \<Rightarrow> Inl json_error))"

definition is_sha256 :: "string \<Rightarrow> bool" where
  "is_sha256 h \<longleftrightarrow> length h = 64 \<and> list_all is_ascii_hexdigit h"

definition browser_claims_ok :: "crypto \<Rightarrow> trust \<Rightarrow> u64 \<Rightarrow> browser_claims \<Rightarrow> bool" where
  "browser_claims_ok cr tr now c \<longleftrightarrow>
     \<not> (bc_v c \<noteq> 1 \<or> bc_typ c \<noteq> ''NestLink-Browser'' \<or> bc_realm c \<noteq> t_realm tr
        \<or> bc_policy c \<noteq> ''require_direct'' \<or> bc_iat c > saturating_add_u64 now 5 \<or> bc_exp c \<le> now
        \<or> checked_sub_u64 (bc_exp c) (bc_iat c) \<noteq> Some 15
        \<or> list_ex (\<lambda>i. \<not> uuid_ok cr i) [bc_jti c, bc_host_device c, bc_host_session c, bc_controller_session c]
        \<or> \<not> list_all is_sha256 [bc_offer_sha256 c, bc_answer_sha256 c])"

definition verify_browser_grant_at ::
    "crypto \<Rightarrow> (u8 list \<Rightarrow> browser_claims option) \<Rightarrow> string \<Rightarrow> trust \<Rightarrow> u64 \<Rightarrow> any_error + browser_claims" where
  "verify_browser_grant_at cr json token tr now =
     (let parts = splitp (\<lambda>c. c = CHR ''.'') token in
      if length token > 4096 \<or> length parts \<noteq> 3 \<or> parts ! 0 \<noteq> ''nlb1'' \<or> t_algorithm tr \<noteq> ''Ed25519''
      then bail BrowserPermitInvalid
      else (case service_key cr tr of
              Inl e \<Rightarrow> Inl e
            | Inr key \<Rightarrow>
                (case token_signature cr SignatureInvalid (parts ! 2) of
                   Inl e \<Rightarrow> Inl e
                 | Inr sg \<Rightarrow>
                     if \<not> verify_detached cr sg (''nlb1.'' @ parts ! 1) key then bail SignatureInvalid
                     else (case token_json cr json (parts ! 1) of
                             Inl e \<Rightarrow> Inl e
                           | Inr c \<Rightarrow> if browser_claims_ok cr tr now c then Inr c
                                      else bail BrowserPermitScope))))"

definition stop_service :: "('c, 'd) config_api \<Rightarrow> ('c, 'z) config_state_scheme \<Rightarrow> bool" where
  "stop_service api s \<longleftrightarrow> get_option api (cfg_store s) ''stop-service'' = ''Y''"

text \<open>\<open>now\<close> is the monotonic clock, \<open>now_s\<close> the wall clock in seconds; the result is the epoch and the
  seconds left.\<close>

definition browser_grant ::
    "('c, 'd) config_api \<Rightarrow> crypto \<Rightarrow> (u8 list \<Rightarrow> browser_claims option) \<Rightarrow> ms \<Rightarrow> u64
       \<Rightarrow> ('c, 'z) auth_state_scheme \<Rightarrow> string \<Rightarrow> string \<Rightarrow> string \<Rightarrow> string \<Rightarrow> any_error + (u64 \<times> u64)" where
  "browser_grant api cr json now now_s s token expected_id offer answer =
     (case live now (a_auth s) of
        None \<Rightarrow> bail SignInFirst
      | Some auth \<Rightarrow>
          if stop_service api s then bail SharingOff
          else (case verify_browser_grant_at cr json token (pr_permit_trust (va_presence auth)) now_s of
                  Inl e \<Rightarrow> Inl e
                | Inr c \<Rightarrow>
                    if bc_jti c \<noteq> expected_id \<or> bc_offer_sha256 c \<noteq> offer \<or> bc_answer_sha256 c \<noteq> answer
                       \<or> bc_host_device c \<noteq> ar_device_id (va_request auth)
                       \<or> bc_host_session c \<noteq> pr_session_id (va_presence auth)
                    then bail BrowserPermitOther
                    else Inr (va_epoch auth, bc_exp c - now_s)))"

definition browser_epoch_live ::
    "('c, 'd) config_api \<Rightarrow> ms \<Rightarrow> ('c, 'z) auth_state_scheme \<Rightarrow> u64 \<Rightarrow> bool" where
  "browser_epoch_live api now s epoch \<longleftrightarrow> ready now s \<and> epoch = a_epoch s \<and> \<not> stop_service api s"

section \<open>Signing in\<close>

definition install_begin ::
    "(string \<Rightarrow> url option) \<Rightarrow> crypto \<Rightarrow> auth_request \<Rightarrow> ('c, 'z) auth_state_scheme
       \<Rightarrow> any_error + (u64 \<times> ('c, 'z) auth_state_scheme)" where
  "install_begin url_parse cr req s =
     (if normalize_portal_origin url_parse (ar_origin req) \<noteq> Some (ar_origin req)
         \<or> \<not> uuid_ok cr (ar_device_id req)
         \<or> length (ar_access_token req) < 32 \<or> length (ar_access_token req) > 256
      then bail LoginInfoInvalid
      else Inr (a_revision s + 1, s\<lparr>a_revision := a_revision s + 1\<rparr>))"

definition presence_ok :: "crypto \<Rightarrow> auth_request \<Rightarrow> presence \<Rightarrow> bool" where
  "presence_ok cr req p \<longleftrightarrow>
     \<not> (pr_device_id p \<noteq> ar_device_id req \<or> t_algorithm (pr_permit_trust p) \<noteq> ''Ed25519''
        \<or> \<not> uuid_ok cr (pr_session_id p)
        \<or> t_realm (pr_permit_trust p) = [] \<or> length (t_realm (pr_permit_trust p)) > 128
        \<or> Option.bind (std_decode cr (t_public_key (pr_permit_trust p))) (public_key_from_slice cr) = None)"

definition presence_profile :: "presence \<Rightarrow> network_profile" where
  "presence_profile p =
     \<lparr>np_mode = SelfHosted, np_server = pr_server p, np_relay = [], np_key = pr_key p,
      np_family_cidr = pr_family_cidr p, np_source_cidr = pr_source_cidr p\<rparr>"

text \<open>The platform-dependent environment of the operations that wait.\<close>

record ('c, 'd) auth_env =
  e_api :: "('c, 'd) config_api"
  e_keys :: option_keys
  e_crypto :: crypto
  e_url_parse :: "string \<Rightarrow> url option"
  e_android :: bool
  e_ios :: bool

definition install_finish ::
    "('c, 'd) auth_env \<Rightarrow> auth_request \<Rightarrow> u64 \<Rightarrow> any_error + presence \<Rightarrow> ms
       \<Rightarrow> ('c, 'z) auth_state_scheme \<Rightarrow> (any_error + unit) \<times> ('c, 'z) auth_state_scheme" where
  "install_finish env req revision result now s =
     (case result of
        Inl e \<Rightarrow> (Inl e, clear_if_revision (e_android env) (e_ios env) revision False s)
      | Inr pres \<Rightarrow>
          if \<not> presence_ok (e_crypto env) req pres
          then (bail NoDeviceGrant, clear_if_revision (e_android env) (e_ios env) revision False s)
          else if revision \<noteq> a_revision s then (bail AuthSuperseded, s)
          else (case save_network_profile (e_api env) (e_keys env) (std_decode (e_crypto env))
                       (presence_profile pres) (cfg_store s) of
                  (Inl e, c) \<Rightarrow>
                    (bail (FromProfile e),
                     clear_if_revision (e_android env) (e_ios env) revision False (s\<lparr>cfg_store := c\<rparr>))
                | (Inr _, c) \<Rightarrow>
                    let s = mark_profile_confirmed (s\<lparr>cfg_store := c\<rparr>);
                        (changed, s) = store_validated_auth now req pres revision s;
                        s = s\<lparr>a_updates := revision,
                              a_effects := a_effects s @
                                (if changed then [NotifyWaiters] @ (if e_ios env then [] else [MediatorRestart])
                                 else [])\<rparr>;
                        s = (if a_monitoring s then s
                             else s\<lparr>a_monitoring := True, a_effects := a_effects s @ [SpawnMonitor]\<rparr>)
                    in (Inr (), s)))"

text \<open>\<open>fetch\<close> is the presence request; \<open>others\<close> is what the other tasks did to the state while it was
  under way.\<close>

definition install ::
    "('c, 'd) auth_env \<Rightarrow> auth_request \<Rightarrow> any_error + presence \<Rightarrow> ms
       \<Rightarrow> (('c, 'z) auth_state_scheme \<Rightarrow> ('c, 'z) auth_state_scheme)
       \<Rightarrow> ('c, 'z) auth_state_scheme \<Rightarrow> (any_error + unit) \<times> ('c, 'z) auth_state_scheme" where
  "install env req fetch now others s =
     (case install_begin (e_url_parse env) (e_crypto env) req s of
        Inl e \<Rightarrow> (Inl e, s)
      | Inr (revision, s) \<Rightarrow> install_finish env req revision fetch now (others s))"

text \<open>One turn of the monitor: \<open>auth\<close> is the snapshot taken before the request.\<close>

definition monitor_finish ::
    "('c, 'd) auth_env \<Rightarrow> validated_auth \<Rightarrow> any_error + presence \<Rightarrow> ms
       \<Rightarrow> ('c, 'z) auth_state_scheme \<Rightarrow> ('c, 'z) auth_state_scheme" where
  "monitor_finish env auth result now s =
     (case result of
        Inr pres \<Rightarrow>
          if pres = va_presence auth then renew_presence_revision now (va_revision auth) s
          else clear_revision (e_android env) (e_ios env) (va_revision auth) s
      | Inl _ \<Rightarrow> clear_revision (e_android env) (e_ios env) (va_revision auth) s)"

definition start_account_watch :: "('c, 'z) auth_state_scheme \<Rightarrow> ('c, 'z) auth_state_scheme" where
  "start_account_watch s =
     (if a_watching s then s else s\<lparr>a_watching := True, a_effects := a_effects s @ [SpawnWatch]\<rparr>)"

text \<open>\<open>ipc\<close> is the answer of \<^verbatim>\<open>ipc::nestlink_auth_request\<close> on a desktop.\<close>

definition ensure_current ::
    "('c, 'd) auth_env \<Rightarrow> any_error + auth_request option \<Rightarrow> any_error + presence \<Rightarrow> ms \<Rightarrow> ms
       \<Rightarrow> (('c, 'z) auth_state_scheme \<Rightarrow> ('c, 'z) auth_state_scheme)
       \<Rightarrow> ('c, 'z) auth_state_scheme \<Rightarrow> (any_error + unit) \<times> ('c, 'z) auth_state_scheme" where
  "ensure_current env ipc fetch now now' others s =
     (if ready now s then (Inr (), s)
      else if e_android env \<or> e_ios env then (bail SignInFirst, s)
      else (case ipc of
              Inl e \<Rightarrow> (Inl e, s)
            | Inr None \<Rightarrow> (bail SignInFirst, s)
            | Inr (Some req) \<Rightarrow>
                (case install env req fetch now' others s of
                   (Inl e, s) \<Rightarrow> (Inl e, s)
                 | (Inr _, s) \<Rightarrow> (Inr (), start_account_watch s))))"

section \<open>Authorised requests\<close>

definition still_authorized ::
    "ms \<Rightarrow> ('c, 'z) auth_state_scheme \<Rightarrow> validated_auth \<Rightarrow> 'v \<Rightarrow> any_error + 'v" where
  "still_authorized now s auth v =
     (if va_epoch auth = a_epoch s \<and> ready now s then Inr v else bail AuthEnded)"

text \<open>The waiting loop, over the moments at which it looks; it ends with the list, the timeout.\<close>

fun replacement_after_401 ::
    "validated_auth \<Rightarrow> (ms \<times> ('c, 'z) auth_state_scheme) list \<Rightarrow> any_error + validated_auth" where
  "replacement_after_401 auth [] = bail RotationTimeout"
| "replacement_after_401 auth ((now, s) # later) =
     (case snapshot now s of
        Inl e \<Rightarrow> Inl e
      | Inr current \<Rightarrow>
          if va_epoch current \<noteq> va_epoch auth
             \<or> ar_origin (va_request current) \<noteq> ar_origin (va_request auth)
             \<or> ar_device_id (va_request current) \<noteq> ar_device_id (va_request auth)
             \<or> va_presence current \<noteq> va_presence auth
          then bail AuthEnded
          else if va_revision current \<noteq> va_revision auth \<and> va_revision current = a_revision s
                  \<and> ar_access_token (va_request current) \<noteq> ar_access_token (va_request auth)
          then Inr current
          else replacement_after_401 auth later)"

text \<open>\<open>send k req\<close> is the outcome of the \<open>k\<close>-th request, \<open>seen k\<close> the clock and state after it.  The second
  component of the result are the requests that were sent.\<close>

definition authorized_request_using ::
    "validated_auth \<Rightarrow> (nat \<Rightarrow> auth_request \<Rightarrow> any_error + 'v)
       \<Rightarrow> (nat \<Rightarrow> ms \<times> ('c, 'z) auth_state_scheme) \<Rightarrow> (ms \<times> ('c, 'z) auth_state_scheme) list
       \<Rightarrow> (any_error + 'v) \<times> auth_request list" where
  "authorized_request_using auth send seen waits =
     (let first = va_request auth in
      case send 0 first of
        Inr v \<Rightarrow> (still_authorized (fst (seen 0)) (snd (seen 0)) auth v, [first])
      | Inl e \<Rightarrow>
          if er_http e \<noteq> Some 401 then (Inl e, [first])
          else (case replacement_after_401 auth waits of
                  Inl _ \<Rightarrow> (Inl e, [first])
                | Inr current \<Rightarrow>
                    (case send 1 (va_request current) of
                       Inr v \<Rightarrow> (still_authorized (fst (seen 1)) (snd (seen 1)) current v,
                                 [first, va_request current])
                     | Inl e \<Rightarrow> (Inl e, [first, va_request current]))))"

section \<open>Permits\<close>

record permit_claims =
  pc_v :: u32
  pc_typ :: string
  pc_jti :: string
  pc_realm :: string
  pc_iat :: u64
  pc_exp :: u64
  pc_controller_device :: string
  pc_host_device :: string
  pc_controller_session :: string
  pc_host_session :: string
  pc_controller_id :: string
  pc_host_id :: string
  pc_controller_key :: string
  pc_host_key :: string
  pc_policy :: string

record envelope =
  en_permit :: string
  en_proof :: string

definition permit_claims_ok :: "crypto \<Rightarrow> trust \<Rightarrow> u64 \<Rightarrow> permit_claims \<Rightarrow> bool" where
  "permit_claims_ok cr tr now c \<longleftrightarrow>
     \<not> (pc_v c \<noteq> 2 \<or> pc_typ c \<noteq> ''NestLink-P2P'' \<or> pc_realm c \<noteq> t_realm tr \<or> pc_policy c \<noteq> ''require_direct''
        \<or> pc_iat c > saturating_add_u64 now 5 \<or> pc_exp c \<le> now
        \<or> checked_sub_u64 (pc_exp c) (pc_iat c) \<noteq> Some 45 \<or> \<not> uuid_ok cr (pc_jti c))"

definition verify_permit_at ::
    "crypto \<Rightarrow> (u8 list \<Rightarrow> permit_claims option) \<Rightarrow> string \<Rightarrow> trust \<Rightarrow> u64 \<Rightarrow> any_error + permit_claims" where
  "verify_permit_at cr json token tr now =
     (if length token > 4096 then bail PermitTooLong
      else let parts = splitp (\<lambda>c. c = CHR ''.'') token in
      if length parts \<noteq> 3 \<or> parts ! 0 \<noteq> ''nlp2'' then bail PermitFormat
      else (case token_signature cr PermitSignature (parts ! 2) of
              Inl e \<Rightarrow> Inl e
            | Inr sg \<Rightarrow>
                (case service_key cr tr of
                   Inl e \<Rightarrow> Inl e
                 | Inr key \<Rightarrow>
                     if \<not> verify_detached cr sg (''nlp2.'' @ parts ! 1) key then bail PermitSignature
                     else (case token_json cr json (parts ! 1) of
                             Inl e \<Rightarrow> Inl e
                           | Inr c \<Rightarrow> if permit_claims_ok cr tr now c then Inr c else bail PermitExpired))))"

section \<open>Session guards\<close>

record session_guard =
  g_epoch :: u64
  g_permit_id :: string
  g_alive :: bool

definition guard_start :: "string \<Rightarrow> u64 \<Rightarrow> session_guard" where
  "guard_start permit_id epoch = \<lparr>g_epoch = epoch, g_permit_id = permit_id, g_alive = True\<rparr>"

text \<open>The test of the \<^verbatim>\<open>revoked\<close> loop, and the loop over the moments at which it wakes (at least once a
  second): the number of waits before it returns.\<close>

definition guard_ended :: "ms \<Rightarrow> ('c, 'z) auth_state_scheme \<Rightarrow> session_guard \<Rightarrow> bool" where
  "guard_ended now s g \<longleftrightarrow> \<not> g_alive g \<or> g_epoch g \<noteq> a_epoch s \<or> \<not> ready now s"

fun revoked :: "(ms \<times> ('c, 'z) auth_state_scheme \<times> session_guard) list \<Rightarrow> nat option" where
  "revoked [] = None"
| "revoked ((now, s, g) # later) = (if guard_ended now s g then Some 0 else map_option Suc (revoked later))"

text \<open>The heartbeat task: each turn sees the state at the loop condition, then the snapshot and the
  outcome of the heartbeat.  The result is the number of heartbeats sent; when the task ends the guard is
  no longer alive.\<close>

record ('c, 'z) beat =
  b_alive :: bool
  b_head :: "('c, 'z) auth_state_scheme"
  b_now :: ms
  b_state :: "('c, 'z) auth_state_scheme"
  b_result :: "any_error + unit"

fun heartbeat :: "u64 \<Rightarrow> ('c, 'z) beat list \<Rightarrow> nat" where
  "heartbeat epoch [] = 0"
| "heartbeat epoch (b # later) =
     (if \<not> (b_alive b \<and> epoch = a_epoch (b_head b)) then 0
      else (case snapshot (b_now b) (b_state b) of
              Inl _ \<Rightarrow> 0
            | Inr _ \<Rightarrow> (case b_result b of Inl _ \<Rightarrow> 1 | Inr _ \<Rightarrow> Suc (heartbeat epoch later))))"

definition guard_stop :: "session_guard \<Rightarrow> session_guard" where
  "guard_stop g = g\<lparr>g_alive := False\<rparr>"

text \<open>Dropping a guard: the permit that is reported closed, if somebody is still signed in.\<close>

definition guard_drop ::
    "ms \<Rightarrow> ('c, 'z) auth_state_scheme \<Rightarrow> session_guard \<Rightarrow> session_guard \<times> (auth_request \<times> string) option" where
  "guard_drop now s g =
     (guard_stop g,
      case snapshot now s of Inl _ \<Rightarrow> None | Inr auth \<Rightarrow> Some (va_request auth, ''/api/v2/remote/permits/'' @ g_permit_id g))"

section \<open>Both ends of a remote login\<close>

definition target_ok :: "string \<Rightarrow> u64 \<Rightarrow> bool" where
  "target_ok target connection_id \<longleftrightarrow>
     \<not> (target = [] \<or> length target > 64
        \<or> \<not> list_all (\<lambda>c. is_ascii_alphanumeric c \<or> c = CHR ''_'' \<or> c = CHR ''-'') target \<or> connection_id = 0)"

definition login_text :: "string \<Rightarrow> u64 \<Rightarrow> string" where
  "login_text permit connection_id =
     ''NestLink-login-v2:'' @ permit @ '':'' @ show_nat (unat connection_id)"

text \<open>\<^verbatim>\<open>prepare\<close> after \<^verbatim>\<open>ensure_current\<close>: \<open>s\<close> is the state at the snapshot, \<open>permit\<close> the string the service
  returned (if it is one), \<open>pair\<close> the device keys (secret, public), \<open>s'\<close> the state at the end.\<close>

definition prepare ::
    "crypto \<Rightarrow> (u8 list \<Rightarrow> permit_claims option) \<Rightarrow> (envelope \<Rightarrow> string) \<Rightarrow> string \<Rightarrow> u64 \<Rightarrow> u64
       \<Rightarrow> ms \<Rightarrow> ('c, 'z) auth_state_scheme \<Rightarrow> any_error + string option \<Rightarrow> any_error + (u8 list \<times> u8 list)
       \<Rightarrow> ms \<Rightarrow> ('c, 'z) auth_state_scheme \<Rightarrow> any_error + (string \<times> permit_claims \<times> session_guard)" where
  "prepare cr json to_json target connection_id now_s now s reply pair now' s' =
     (if \<not> target_ok target connection_id then bail UseDeviceId
      else (case snapshot now s of
        Inl e \<Rightarrow> Inl e
      | Inr auth \<Rightarrow>
          (case reply of
             Inl e \<Rightarrow> Inl e
           | Inr None \<Rightarrow> bail NoPermitReturned
           | Inr (Some permit) \<Rightarrow>
               (case verify_permit_at cr json permit (pr_permit_trust (va_presence auth)) now_s of
                  Inl e \<Rightarrow> Inl e
                | Inr c \<Rightarrow>
                    if pc_controller_device c \<noteq> ar_device_id (va_request auth)
                       \<or> pc_controller_session c \<noteq> pr_session_id (va_presence auth) \<or> pc_host_id c \<noteq> target
                    then bail PermitScope
                    else (case pair of
                            Inl e \<Rightarrow> Inl e
                          | Inr (sk, pk) \<Rightarrow>
                              if std_encode cr pk \<noteq> pc_controller_key c then bail IdentityMismatch
                              else (case secret_key_from_slice cr sk of
                                      None \<Rightarrow> bail SecretKeyInvalid
                                    | Some sk \<Rightarrow>
                                        let pf = std_encode cr (sign_detached cr (login_text permit connection_id) sk);
                                            env = to_json \<lparr>en_permit = permit, en_proof = pf\<rparr>
                                        in if va_epoch auth \<noteq> a_epoch s' \<or> \<not> ready now' s' then bail AuthEnded
                                           else Inr (env, c, guard_start (pc_jti c) (va_epoch auth))))))))"

text \<open>The parts of a login message that \<^verbatim>\<open>accept\<close> reads: the length-delimited unknown field 100, the peer's id
  and the session id.\<close>

record login_fields =
  lf_permit :: "string option"
  lf_my_id :: string
  lf_session_id :: u64

text \<open>\<open>own_id\<close> and \<open>own_key\<close> are \<^verbatim>\<open>Config::get_id()\<close> and the public half of \<^verbatim>\<open>Config::get_key_pair()\<close>;
  \<open>confirm\<close> is the outcome of the request that reports the permit accepted.\<close>

definition accept ::
    "crypto \<Rightarrow> (u8 list \<Rightarrow> permit_claims option) \<Rightarrow> (string \<Rightarrow> envelope option) \<Rightarrow> string \<Rightarrow> u8 list \<Rightarrow> u64
       \<Rightarrow> ms \<Rightarrow> ('c, 'z) auth_state_scheme \<Rightarrow> login_fields \<Rightarrow> any_error + unit
       \<Rightarrow> ms \<Rightarrow> ('c, 'z) auth_state_scheme \<Rightarrow> any_error + session_guard" where
  "accept cr json of_json own_id own_key now_s now s login confirm now' s' =
     (case snapshot now s of
        Inl e \<Rightarrow> Inl e
      | Inr auth \<Rightarrow>
          (case lf_permit login of
             None \<Rightarrow> bail PermitMissing
           | Some bytes \<Rightarrow>
               if length bytes > 6144 then bail PermitTooLong
               else (case of_json bytes of
                       None \<Rightarrow> Inl json_error
                     | Some env \<Rightarrow>
                         (case verify_permit_at cr json (en_permit env) (pr_permit_trust (va_presence auth)) now_s of
                            Inl e \<Rightarrow> Inl e
                          | Inr c \<Rightarrow>
                              if pc_host_device c \<noteq> ar_device_id (va_request auth)
                                 \<or> pc_host_session c \<noteq> pr_session_id (va_presence auth)
                                 \<or> pc_host_id c \<noteq> own_id \<or> pc_controller_id c \<noteq> lf_my_id login
                                 \<or> lf_session_id login = 0 \<or> std_encode cr own_key \<noteq> pc_host_key c
                              then bail PermitDeviceMismatch
                              else (case std_decode cr (pc_controller_key c) of
                                      None \<Rightarrow> Inl decode_error
                                    | Some k \<Rightarrow>
                                        (case public_key_from_slice cr k of
                                           None \<Rightarrow> bail PeerKeyInvalid
                                         | Some key \<Rightarrow>
                                             (case std_decode cr (en_proof env) of
                                                None \<Rightarrow> Inl decode_error
                                              | Some b \<Rightarrow>
                                                  (case signature_from_bytes cr b of
                                                     None \<Rightarrow> bail PeerSignatureInvalid
                                                   | Some sg \<Rightarrow>
                                                       if \<not> verify_detached cr sg (login_text (en_permit env) (lf_session_id login)) key
                                                       then bail PeerProofInvalid
                                                       else (case confirm of
                                                               Inl e \<Rightarrow> Inl e
                                                             | Inr _ \<Rightarrow>
                                                                 if va_epoch auth \<noteq> a_epoch s' \<or> \<not> ready now' s'
                                                                 then bail AuthEnded
                                                                 else Inr (guard_start (pc_jti c) (va_epoch auth)))))))))))"

section \<open>Interleaved tasks\<close>

text \<open>The sign-in state with the clock, the sign-ins whose presence request is under way (with the
  revision they drew) and the monitor turns whose request is under way.\<close>

record 'c world =
  w_state :: "'c auth_state"
  w_now :: ms
  w_installs :: "(auth_request \<times> u64) list"
  w_probes :: "validated_auth list"

inductive auth_step :: "('c, 'd) auth_env \<Rightarrow> 'c world \<Rightarrow> 'c world \<Rightarrow> bool" for env where
  tick: "w_now w \<le> t \<Longrightarrow> auth_step env w (w\<lparr>w_now := t\<rparr>)"
| sign_out: "auth_step env w (w\<lparr>w_state := clear (e_android env) (e_ios env) (w_state w)\<rparr>)"
| begin_install:
    "install_begin (e_url_parse env) (e_crypto env) req (w_state w) = Inr (r, s)
     \<Longrightarrow> auth_step env w (w\<lparr>w_state := s, w_installs := (req, r) # w_installs w\<rparr>)"
| end_install:
    "(req, r) \<in> set (w_installs w)
     \<Longrightarrow> install_finish env req r fetched (w_now w) (w_state w) = (res, s)
     \<Longrightarrow> auth_step env w (w\<lparr>w_state := s, w_installs := remove1 (req, r) (w_installs w)\<rparr>)"
| begin_probe:
    "snapshot (w_now w) (w_state w) = Inr a \<Longrightarrow> auth_step env w (w\<lparr>w_probes := a # w_probes w\<rparr>)"
| end_probe:
    "a \<in> set (w_probes w)
     \<Longrightarrow> auth_step env w (w\<lparr>w_state := monitor_finish env a fetched (w_now w) (w_state w),
                            w_probes := remove1 a (w_probes w)\<rparr>)"

inductive_cases auth_stepE: "auth_step env w w'"

text \<open>What each operation does to the counters and to the stored sign-in.\<close>

definition lease_ok :: "ms \<Rightarrow> ('c, 'z) auth_state_scheme \<Rightarrow> bool" where
  "lease_ok now s \<longleftrightarrow>
     (case a_auth s of
        None \<Rightarrow> True
      | Some v \<Rightarrow> va_epoch v = a_epoch s \<and> va_valid_until v \<le> now + 15000)"

named_theorems auth_defs "the operations on the sign-in state"

lemmas [auth_defs] = after_revocation_def clear_def invalidate_revision_def clear_if_revision_def
  clear_revision_def store_validated_auth_def renew_presence_revision_def mark_profile_confirmed_def

lemma clear_epoch: "a_epoch (clear android ios s) = a_epoch s + 1"
  and clear_revision_bump: "a_revision (clear android ios s) = a_revision s + 1"
  and clear_auth [simp]: "a_auth (clear android ios s) = None"
  by (simp_all add: auth_defs)

lemma clear_if_revision_cases:
  obtains "clear_if_revision android ios r inst s = s"
  | "a_revision s = r" "a_auth (clear_if_revision android ios r inst s) = None"
    "a_epoch (clear_if_revision android ios r inst s) = a_epoch s + 1"
    "a_revision (clear_if_revision android ios r inst s) = a_revision s + 1"
  by (cases "invalidate_revision r inst s") (auto simp: auth_defs split: if_splits)

text \<open>The outcomes of \<^verbatim>\<open>install\<close> after its wait.\<close>

lemma install_finish_cases:
  assumes "install_finish env req r fetched now s = (res, s')"
  obtains (failed) e c where "res = Inl e"
    "s' = clear_if_revision (e_android env) (e_ios env) r False (s\<lparr>cfg_store := c\<rparr>)"
  | (superseded) "res = bail AuthSuperseded" "s' = s" "a_revision s \<noteq> r"
  | (stored) pres c where "res = Inr ()" "fetched = Inr pres" "presence_ok (e_crypto env) req pres" "a_revision s = r"
    "save_network_profile (e_api env) (e_keys env) (std_decode (e_crypto env)) (presence_profile pres) (cfg_store s)
       = (Inr (), c)" "cfg_store s' = c" "profile_confirmed s'" "a_revision s' = a_revision s"
    "a_epoch s' = a_epoch s \<or> a_epoch s' = a_epoch s + 1"
    "a_auth s' = Some \<lparr>va_request = req, va_presence = pres, va_valid_until = now + 15000,
                       va_revision = r, va_epoch = a_epoch s'\<rparr>"
proof (cases fetched)
  case (Inl e)
  with assms show ?thesis
    by (intro failed[of e "cfg_store s"]) (auto simp: install_finish_def)
next
  case (Inr pres)
  show ?thesis
  proof (cases "presence_ok (e_crypto env) req pres")
    case False
    with Inr assms show ?thesis
      by (intro failed[of _ "cfg_store s"]) (auto simp: install_finish_def bail_def)
  next
    case ok: True
    show ?thesis
    proof (cases "r = a_revision s")
      case False
      with ok Inr assms show ?thesis by (intro superseded) (auto simp: install_finish_def)
    next
      case True
      obtain x c where save: "save_network_profile (e_api env) (e_keys env) (std_decode (e_crypto env))
          (presence_profile pres) (cfg_store s) = (x, c)" by fastforce
      show ?thesis
      proof (cases x)
        case (Inl e)
        with save True ok Inr assms \<open>fetched = Inr pres\<close> show ?thesis
          by (intro failed[of _ c]) (auto simp: install_finish_def bail_def)
      next
        case (Inr u)
        with save True ok assms \<open>fetched = Inr pres\<close> show ?thesis
          by (cases "a_monitoring s"; intro stored[of pres c])
            (auto simp: install_finish_def auth_defs Let_def split: if_splits option.splits)
      qed
    qed
  qed
qed

lemma monitor_finish_cases:
  obtains "monitor_finish env a fetched now s = renew_presence_revision now (va_revision a) s"
  | "monitor_finish env a fetched now s = clear_if_revision (e_android env) (e_ios env) (va_revision a) True s"
  by (cases "fetched = Inr (va_presence a)"; cases fetched) (simp_all add: monitor_finish_def clear_revision_def)

lemma renew_counters [simp]:
  "a_epoch (renew_presence_revision now r s) = a_epoch s"
  "a_revision (renew_presence_revision now r s) = a_revision s"
  by (simp_all add: renew_presence_revision_def split: option.split)

text \<open>Every step advances each counter by at most one.\<close>

lemma auth_step_counters:
  assumes "auth_step env w w'"
  shows "(a_epoch (w_state w') = a_epoch (w_state w) \<or> a_epoch (w_state w') = a_epoch (w_state w) + 1)
    \<and> (a_revision (w_state w') = a_revision (w_state w) \<or> a_revision (w_state w') = a_revision (w_state w) + 1)"
  using assms
proof cases
  case (end_install req r fetched res s)
  from end_install(3) show ?thesis
  proof (cases rule: install_finish_cases)
    case (failed e c)
    then show ?thesis
      using end_install(1)
      by (cases rule: clear_if_revision_cases[of "e_android env" "e_ios env" r False "w_state w\<lparr>cfg_store := c\<rparr>"]) auto
  qed (use end_install in auto)
next
  case (end_probe a fetched)
  then show ?thesis
    by (cases rule: monitor_finish_cases[of env a fetched "w_now w" "w_state w"];
        cases rule: clear_if_revision_cases[of "e_android env" "e_ios env" "va_revision a" True "w_state w"]) auto
qed (auto simp: clear_epoch clear_revision_bump install_begin_def bail_def split: if_splits)

lemma auth_steps_counters:
  assumes "(auth_step env ^^ n) w w'"
  shows "\<exists>j k. j \<le> n \<and> k \<le> n \<and> a_epoch (w_state w') = a_epoch (w_state w) + of_nat j
    \<and> a_revision (w_state w') = a_revision (w_state w) + of_nat k"
  using assms
proof (induction n arbitrary: w')
  case (Suc n)
  then obtain v where v: "(auth_step env ^^ n) w v" "auth_step env v w'" by auto
  from Suc.IH[OF v(1)] obtain j k where jk: "j \<le> n" "k \<le> n"
    "a_epoch (w_state v) = a_epoch (w_state w) + of_nat j"
    "a_revision (w_state v) = a_revision (w_state w) + of_nat k" by blast
  have "\<exists>j'. j' \<le> Suc n \<and> a_epoch (w_state w') = a_epoch (w_state w) + of_nat j'"
    using auth_step_counters[OF v(2)] jk(1,3)
    by (elim conjE disjE) (auto intro: exI[of _ j] exI[of _ "Suc j"] simp: add.assoc add.commute)
  moreover have "\<exists>k'. k' \<le> Suc n \<and> a_revision (w_state w') = a_revision (w_state w) + of_nat k'"
    using auth_step_counters[OF v(2)] jk(2,4)
    by (elim conjE disjE) (auto intro: exI[of _ k] exI[of _ "Suc k"] simp: add.assoc add.commute)
  ultimately show ?case by blast
qed auto

lemma of_nat_u64_nonzero: "0 < m \<Longrightarrow> m < 2 ^ 64 \<Longrightarrow> (of_nat m :: u64) \<noteq> 0"
  by (simp add: word_unat_eq_iff unat_of_nat)

lemma lease_ok_later: "lease_ok now s \<Longrightarrow> now \<le> t \<Longrightarrow> lease_ok t s"
  by (auto simp: lease_ok_def split: option.splits)

lemma lease_ok_clear_if: "lease_ok now s \<Longrightarrow> lease_ok now (clear_if_revision a i r b s)"
  by (cases rule: clear_if_revision_cases[of a i r b s]) (simp_all add: lease_ok_def)

lemma lease_ok_renew: "lease_ok now s \<Longrightarrow> lease_ok now (renew_presence_revision now r s)"
  by (auto simp: lease_ok_def renew_presence_revision_def split: option.splits)

lemma lease_ok_store [simp]: "lease_ok now (s\<lparr>cfg_store := c\<rparr>) = lease_ok now s"
  by (simp add: lease_ok_def split: option.split)

lemma lease_ok_step:
  assumes "auth_step env w w'" and "lease_ok (w_now w) (w_state w)"
  shows "lease_ok (w_now w') (w_state w')"
  using assms(1)
proof cases
  case (begin_install req r s)
  then show ?thesis
    using assms(2) by (auto simp: install_begin_def bail_def lease_ok_def split: if_splits option.splits)
next
  case (end_install req r fetched res s)
  from end_install(3) show ?thesis
  proof (cases rule: install_finish_cases)
    case (failed e c)
    then show ?thesis
      using end_install(1) assms(2) lease_ok_clear_if[of "w_now w" "w_state w\<lparr>cfg_store := c\<rparr>"] by simp
  qed (use end_install assms(2) in \<open>simp_all add: lease_ok_def\<close>)
next
  case (end_probe a fetched)
  then show ?thesis
    using assms(2)
    by (cases rule: monitor_finish_cases[of env a fetched "w_now w" "w_state w"])
      (simp_all add: lease_ok_renew lease_ok_clear_if)
qed (use assms(2) lease_ok_later in \<open>auto simp: lease_ok_def\<close>)

section \<open>Concrete libraries for the instances\<close>

text \<open>An encoding that keeps the bytes, signatures that repeat the signed text without its dots, and ids
  of 36 characters.\<close>

definition plain_bytes :: "string \<Rightarrow> u8 list" where
  "plain_bytes t = map (\<lambda>c. of_nat (byte c)) t"

definition plain_crypto :: crypto where
  "plain_crypto = \<lparr>
     std_decode = (\<lambda>t. Some (plain_bytes t)), std_encode = map (\<lambda>b. char_of (unat b)),
     url_decode = (\<lambda>t. Some (plain_bytes t)),
     public_key_from_slice = Some, secret_key_from_slice = Some, signature_from_bytes = Some,
     verify_detached = (\<lambda>sg t k. sg = plain_bytes (filter (\<lambda>c. c \<noteq> CHR ''.'') t)),
     sign_detached = (\<lambda>t k. plain_bytes (filter (\<lambda>c. c \<noteq> CHR ''.'') t)),
     uuid_ok = (\<lambda>t. length t = 36)\<rparr>"

definition plain_url :: "string \<Rightarrow> url option" where
  "plain_url t = Some \<lparr>url_scheme = ''https'', url_host_str = Some (drop 8 t), url_username = [],
     url_password = None, url_query = None, url_fragment = None, url_path = [],
     url_port_or_known_default = Some 443, url_origin_ascii = t\<rparr>"

definition plain_env :: "(mem_store, options) auth_env" where
  "plain_env = \<lparr>e_api = mem_api, e_keys = mem_keys, e_crypto = plain_crypto, e_url_parse = plain_url,
     e_android = False, e_ios = False\<rparr>"

definition sample_auth :: "mem_store auth_state" where
  "sample_auth = \<lparr>cfg_store = sample_store, profile_confirmed = True, portal_permission_epoch = 0,
     a_epoch = 1, a_revision = 1, a_monitoring = False, a_watching = False, a_auth = None, a_updates = 1,
     a_effects = []\<rparr>"

definition sample_world :: "mem_store world" where
  "sample_world = \<lparr>w_state = sample_auth, w_now = 0, w_installs = [], w_probes = []\<rparr>"

definition sample_request :: auth_request where
  "sample_request = \<lparr>ar_origin = ''https://a.b'', ar_device_id = replicate 36 CHR ''d'',
     ar_access_token = replicate 32 CHR ''t''\<rparr>"

lemma sample_install_begin:
  "install_begin plain_url plain_crypto sample_request sample_auth = Inr (2, sample_auth\<lparr>a_revision := 2\<rparr>)"
proof -
  have "normalize_portal_origin plain_url ''https://a.b'' = Some ''https://a.b''" by code_simp
  then show ?thesis
    by (simp add: install_begin_def sample_request_def plain_crypto_def sample_auth_def)
qed

section \<open>Properties\<close>





text \<open>(a superseded sign-in changes nothing).  A sign-in draws a revision when it starts.  If the
  revision has moved on by the time the service answers, because of another sign-in or a sign-out, then
  finishing it returns an error and leaves the whole state as it is, whatever the answer was; and
  within \<open>2 ^ 64\<close> steps the revision does not come back.\<close>

theorem install_superseded:
  assumes "install_begin url_parse cr req s = Inr (r, s1)"
    and "w_state w1 = s1" and "(auth_step env ^^ m) w1 w2" and "auth_step env w2 w3"
    and "a_revision (w_state w3) \<noteq> a_revision (w_state w2)"
    and "(auth_step env ^^ n) w3 w4" and "m + n < 2 ^ 64 - 1"
  shows "\<exists>e. install_finish env' req r fetched now (w_state w4) = (Inl e, w_state w4)"
proof -
  have r: "r = a_revision s1"
    using assms(1) by (auto simp: install_begin_def bail_def split: if_splits)
  from auth_steps_counters[OF assms(3)] obtain i where i: "i \<le> m"
    "a_revision (w_state w2) = r + of_nat i" using r assms(2) by blast
  have "a_revision (w_state w3) = r + of_nat (Suc i)"
    using auth_step_counters[OF assms(4)] assms(5) i by (simp add: add.commute add.left_commute)
  moreover from auth_steps_counters[OF assms(6)] obtain k where "k \<le> n"
    "a_revision (w_state w4) = a_revision (w_state w3) + of_nat k" by blast
  ultimately have "a_revision (w_state w4) = r + of_nat (Suc (i + k))" "Suc (i + k) < 2 ^ 64"
    using i(1) assms(7) by (simp_all add: ac_simps)
  with of_nat_u64_nonzero[of "Suc (i + k)"] have "a_revision (w_state w4) \<noteq> r"
    by (metis add_cancel_left_right zero_less_Suc)
  then show ?thesis
    by (auto simp: install_finish_def clear_if_revision_def invalidate_revision_def bail_def split: sum.splits)
qed

theorem install_superseded_witness:
  "\<exists>e. install_finish plain_env sample_request 2 (Inl json_error) 0
     (clear False False (sample_auth\<lparr>a_revision := 2\<rparr>))
   = (Inl e, clear False False (sample_auth\<lparr>a_revision := 2\<rparr>))"
proof -
  let ?w1 = "sample_world\<lparr>w_state := sample_auth\<lparr>a_revision := 2\<rparr>\<rparr>"
  let ?w3 = "?w1\<lparr>w_state := clear (e_android plain_env) (e_ios plain_env) (w_state ?w1)\<rparr>"
  have step: "auth_step plain_env ?w1 ?w3" by (rule auth_step.sign_out)
  have "a_revision (w_state ?w3) \<noteq> a_revision (w_state ?w1)"
    by (simp add: clear_revision_bump)
  from install_superseded[OF sample_install_begin _ _ step this, where m = 0 and n = 0
      and ?w1.0 = ?w1 and ?w4.0 = ?w3 and env' = plain_env and fetched = "Inl json_error" and now = 0]
  show ?thesis by (simp add: plain_env_def)
qed

section \<open>Tokens\<close>

text \<open>The time window of a token with a fixed life of \<open>life\<close> seconds and five seconds of clock skew.\<close>

lemma token_window:
  assumes "\<not> iat > saturating_add_u64 now 5" and "\<not> exp \<le> now" and "checked_sub_u64 exp iat = Some life"
  shows "unat exp = unat iat + unat life" and "unat now < unat exp" and "unat exp \<le> unat now + 5 + unat life"
proof -
  have "unat iat \<le> unat (saturating_add_u64 now 5)" using assms(1) by (simp add: word_le_nat_alt not_less)
  then have "unat iat \<le> unat now + 5" by (simp add: unat_saturating_add_u64)
  then show "unat exp = unat iat + unat life" "unat exp \<le> unat now + 5 + unat life"
    using assms(3) by (simp_all add: checked_sub_u64_eq_Some)
  show "unat now < unat exp" using assms(2) by (simp add: word_le_nat_alt)
qed

text \<open>What a permit token proves: it has three parts, and the signature part is one the service made for
  the claims part.  And what a login proves: its proof is a signature for the permit and the session
  id, made with the key the permit names.\<close>

definition permit_signed ::
    "crypto \<Rightarrow> (u8 list \<Rightarrow> permit_claims option) \<Rightarrow> trust \<Rightarrow> string \<Rightarrow> permit_claims \<Rightarrow> bool" where
  "permit_signed cr json tr token c \<longleftrightarrow>
     (\<exists>p t sg key. splitp (\<lambda>c. c = CHR ''.'') token = [''nlp2'', p, t] \<and> service_key cr tr = Inr key
        \<and> token_signature cr PermitSignature t = Inr sg \<and> verify_detached cr sg (''nlp2.'' @ p) key
        \<and> token_json cr json p = Inr c)"

definition login_signed :: "crypto \<Rightarrow> envelope \<Rightarrow> u64 \<Rightarrow> string \<Rightarrow> bool" where
  "login_signed cr env session_id controller_key \<longleftrightarrow>
     (\<exists>k peer b sg. std_decode cr controller_key = Some k \<and> public_key_from_slice cr k = Some peer
        \<and> std_decode cr (en_proof env) = Some b \<and> signature_from_bytes cr b = Some sg
        \<and> verify_detached cr sg (login_text (en_permit env) session_id) peer)"

lemma three_parts: "length xs = 3 \<Longrightarrow> xs = [xs ! 0, xs ! 1, xs ! 2]"
  by (cases xs; cases "tl xs"; cases "tl (tl xs)") auto

lemma verify_permit_at_Inr:
  assumes "verify_permit_at cr json token tr now = Inr c"
  shows "permit_signed cr json tr token c \<and> permit_claims_ok cr tr now c \<and> length token \<le> 4096"
proof -
  let ?parts = "splitp (\<lambda>c. c = CHR ''.'') token"
  have len: "length ?parts = 3" "?parts ! 0 = ''nlp2''" "length token \<le> 4096"
    using assms by (auto simp: verify_permit_at_def Let_def bail_def split: if_splits)
  have "\<exists>sg key. service_key cr tr = Inr key \<and> token_signature cr PermitSignature (?parts ! 2) = Inr sg
      \<and> verify_detached cr sg (''nlp2.'' @ ?parts ! 1) key \<and> token_json cr json (?parts ! 1) = Inr c
      \<and> permit_claims_ok cr tr now c"
    using assms len unfolding verify_permit_at_def Let_def bail_def
    by (simp split: if_splits sum.splits)
  with three_parts[OF len(1)] len(2,3) show ?thesis unfolding permit_signed_def by metis
qed

lemma permit_window:
  assumes "permit_claims_ok cr tr now c"
  shows "unat (pc_exp c) = unat (pc_iat c) + 45 \<and> unat now < unat (pc_exp c) \<and> unat (pc_exp c) \<le> unat now + 50"
  using assms token_window[where iat = "pc_iat c" and now = now and exp = "pc_exp c" and life = 45]
  by (simp add: permit_claims_ok_def)

lemma snapshot_Inr: "snapshot now s = Inr auth \<longleftrightarrow> a_auth s = Some auth \<and> now < va_valid_until auth"
  by (auto simp: snapshot_def live_def bail_def split: option.splits)

lemma accept_Inr:
  assumes "accept cr json of_json own_id own_key now_s now s login confirm now' s' = Inr g"
  obtains auth bytes env c where
    "snapshot now s = Inr auth" "lf_permit login = Some bytes" "of_json bytes = Some env"
    "verify_permit_at cr json (en_permit env) (pr_permit_trust (va_presence auth)) now_s = Inr c"
    "pc_host_device c = ar_device_id (va_request auth)" "pc_host_session c = pr_session_id (va_presence auth)"
    "pc_host_id c = own_id" "pc_controller_id c = lf_my_id login" "lf_session_id login \<noteq> 0"
    "std_encode cr own_key = pc_host_key c" "login_signed cr env (lf_session_id login) (pc_controller_key c)"
    "va_epoch auth = a_epoch s'" "ready now' s'" "g = guard_start (pc_jti c) (va_epoch auth)"
proof -
  obtain auth bytes env c where *: "snapshot now s = Inr auth" "lf_permit login = Some bytes"
    "of_json bytes = Some env" "length bytes \<le> 6144"
    "verify_permit_at cr json (en_permit env) (pr_permit_trust (va_presence auth)) now_s = Inr c"
    using assms unfolding accept_def bail_def by (simp split: sum.splits option.splits if_splits)
  from assms show ?thesis
    unfolding accept_def bail_def
    by (intro that[OF *(1-3,5)])
      (simp_all add: * login_signed_def split: sum.splits option.splits if_splits)
qed

text \<open>\<^bold>\<open>C2\<close> (what an accepted login proves).  When the host accepts a login, somebody is signed in both when
  the login arrives and when the check ends, under the same epoch; the permit was signed by the key of the
  sign-in service for its realm; it names this device, this sign-in session, this id and key as the host,
  and the connecting peer as the controller; the controller signed the permit together with the
  session id with the key the permit names; and the permit runs for 45 seconds, at most 50 seconds
  from now.\<close>

theorem accept_sound:
  assumes "accept cr json of_json own_id own_key now_s now s login confirm now' s' = Inr g"
  shows "\<exists>auth env c.
      a_auth s = Some auth \<and> now < va_valid_until auth \<and> va_epoch auth = a_epoch s' \<and> ready now' s'
    \<and> g_epoch g = va_epoch auth \<and> g_permit_id g = pc_jti c
    \<and> Option.bind (lf_permit login) of_json = Some env
    \<and> permit_signed cr json (pr_permit_trust (va_presence auth)) (en_permit env) c
    \<and> pc_realm c = t_realm (pr_permit_trust (va_presence auth))
    \<and> pc_host_device c = ar_device_id (va_request auth) \<and> pc_host_session c = pr_session_id (va_presence auth)
    \<and> pc_host_id c = own_id \<and> pc_host_key c = std_encode cr own_key \<and> pc_controller_id c = lf_my_id login
    \<and> lf_session_id login \<noteq> 0 \<and> login_signed cr env (lf_session_id login) (pc_controller_key c)
    \<and> unat (pc_exp c) = unat (pc_iat c) + 45 \<and> unat now_s < unat (pc_exp c) \<and> unat (pc_exp c) \<le> unat now_s + 50"
proof -
  from assms obtain auth bytes env c where *:
    "snapshot now s = Inr auth" "lf_permit login = Some bytes" "of_json bytes = Some env"
    "verify_permit_at cr json (en_permit env) (pr_permit_trust (va_presence auth)) now_s = Inr c"
    "pc_host_device c = ar_device_id (va_request auth)" "pc_host_session c = pr_session_id (va_presence auth)"
    "pc_host_id c = own_id" "pc_controller_id c = lf_my_id login" "lf_session_id login \<noteq> 0"
    "std_encode cr own_key = pc_host_key c" "login_signed cr env (lf_session_id login) (pc_controller_key c)"
    "va_epoch auth = a_epoch s'" "ready now' s'" "g = guard_start (pc_jti c) (va_epoch auth)"
    by (rule accept_Inr)
  note v = verify_permit_at_Inr[OF *(4)]
  show ?thesis
    using * v permit_window[of cr "pr_permit_trust (va_presence auth)" now_s c]
    by (intro exI[of _ auth] exI[of _ env] exI[of _ c])
      (simp add: snapshot_Inr guard_start_def permit_claims_ok_def)
qed

text \<open>The signature laws of a key pair: what the secret half signs, the public half verifies.\<close>

definition key_pair_ok :: "crypto \<Rightarrow> u8 list \<Rightarrow> u8 list \<Rightarrow> bool" where
  "key_pair_ok cr sk pk \<longleftrightarrow>
     (\<forall>k. secret_key_from_slice cr sk = Some k \<longrightarrow>
        (\<exists>p. public_key_from_slice cr pk = Some p
          \<and> (\<forall>t. \<exists>sg. signature_from_bytes cr (sign_detached cr t k) = Some sg \<and> verify_detached cr sg t p)))"

definition base64_ok :: "crypto \<Rightarrow> bool" where
  "base64_ok cr \<longleftrightarrow> (\<forall>b. std_decode cr (std_encode cr b) = Some b)"

lemma verify_permit_at_later:
  assumes "verify_permit_at cr json token tr now = Inr c" and "permit_claims_ok cr tr now' c"
  shows "verify_permit_at cr json token tr now' = Inr c"
  using assms unfolding verify_permit_at_def Let_def bail_def
  by (auto split: if_splits sum.splits)

lemma prepare_Inr:
  assumes "prepare cr json to_json target cid now_s now s (Inr (Some permit)) (Inr (sk, pk)) now' s' = Inr (env, c, g)"
  obtains auth k where "snapshot now s = Inr auth"
    "verify_permit_at cr json permit (pr_permit_trust (va_presence auth)) now_s = Inr c"
    "pc_controller_device c = ar_device_id (va_request auth)" "pc_controller_session c = pr_session_id (va_presence auth)"
    "pc_host_id c = target" "std_encode cr pk = pc_controller_key c" "secret_key_from_slice cr sk = Some k"
    "env = to_json \<lparr>en_permit = permit, en_proof = std_encode cr (sign_detached cr (login_text permit cid) k)\<rparr>"
    "cid \<noteq> 0" "g = guard_start (pc_jti c) (va_epoch auth)"
proof -
  from assms obtain auth k where "snapshot now s = Inr auth" "secret_key_from_slice cr sk = Some k"
    "verify_permit_at cr json permit (pr_permit_trust (va_presence auth)) now_s = Inr c"
    unfolding prepare_def bail_def Let_def
    by (auto split: sum.splits option.splits if_splits prod.splits)
  with assms show ?thesis
    unfolding prepare_def bail_def Let_def
    by (intro that[of auth k]) (auto simp: target_ok_def split: sum.splits option.splits if_splits prod.splits)
qed

text \<open>\<^bold>\<open>C23\<close> (a prepared permit is accepted).  What the controller prepares, the host it names accepts: when
  both are signed in at the same service, the permit has not run out at the host, the host's id, key,
  device and sign-in session are the ones the permit names, the service confirms and the host stays
  signed in, then \<^verbatim>\<open>accept\<close> succeeds on the envelope of \<^verbatim>\<open>prepare\<close> for the same connection id.\<close>

theorem prepare_accept:
  assumes "prepare cr json to_json target cid now_s now s (Inr (Some permit)) (Inr (sk, pk)) now' s' = Inr (env, c, g)"
    and "key_pair_ok cr sk pk" and "base64_ok cr" and "\<forall>e. of_json (to_json e) = Some e"
    and "a_auth s = Some ctrl" and "a_auth h = Some host" and "t < va_valid_until host"
    and "pr_permit_trust (va_presence host) = pr_permit_trust (va_presence ctrl)"
    and "permit_claims_ok cr (pr_permit_trust (va_presence host)) t_s c"
    and "pc_host_device c = ar_device_id (va_request host)" and "pc_host_session c = pr_session_id (va_presence host)"
    and "std_encode cr own_key = pc_host_key c" and "length env \<le> 6144"
    and "va_epoch host = a_epoch h'" and "ready t' h'"
  shows "accept cr json of_json target own_key t_s t h
      \<lparr>lf_permit = Some env, lf_my_id = pc_controller_id c, lf_session_id = cid\<rparr> (Inr ()) t' h'
    = Inr (guard_start (pc_jti c) (va_epoch host))"
proof -
  from assms(1) obtain auth k where p: "snapshot now s = Inr auth"
    "verify_permit_at cr json permit (pr_permit_trust (va_presence auth)) now_s = Inr c"
    "pc_host_id c = target" "std_encode cr pk = pc_controller_key c" "secret_key_from_slice cr sk = Some k"
    "env = to_json \<lparr>en_permit = permit, en_proof = std_encode cr (sign_detached cr (login_text permit cid) k)\<rparr>"
    "cid \<noteq> 0"
    by (rule prepare_Inr)
  with assms(5) have "auth = ctrl" by (simp add: snapshot_Inr)
  with p(2) assms(8,9) verify_permit_at_later
  have v: "verify_permit_at cr json permit (pr_permit_trust (va_presence host)) t_s = Inr c" by metis
  from assms(2) p(5) obtain q sg where "public_key_from_slice cr pk = Some q"
    "signature_from_bytes cr (sign_detached cr (login_text permit cid) k) = Some sg"
    "verify_detached cr sg (login_text permit cid) q" unfolding key_pair_ok_def by metis
  moreover have "std_decode cr (pc_controller_key c) = Some pk"
    using assms(3) unfolding base64_ok_def p(4)[symmetric] by blast
  moreover have "of_json env = Some \<lparr>en_permit = permit, en_proof = std_encode cr (sign_detached cr (login_text permit cid) k)\<rparr>"
    unfolding p(6) using assms(4) by blast
  moreover have "snapshot t h = Inr host" using assms(6,7) by (simp add: snapshot_Inr)
  ultimately show ?thesis
    using v assms(3,10-15) p(3,7) unfolding accept_def base64_ok_def by simp
qed

text \<open>A sign-in, a permit and a login for the instances; the permit claims are the single letter \<open>c\<close>.\<close>

definition sample_trust :: trust where
  "sample_trust = \<lparr>t_algorithm = ''Ed25519'', t_public_key = ''k'', t_realm = ''r''\<rparr>"

definition sample_presence :: presence where
  "sample_presence = \<lparr>pr_device_id = replicate 36 CHR ''d'', pr_session_id = replicate 36 CHR ''s'',
     pr_server = ''8.8.8.8:21116'', pr_key = replicate 32 CHR ''A'', pr_key_sha256 = [],
     pr_family_cidr = ''192.168.7.0/24'', pr_source_cidr = [], pr_permit_trust = sample_trust\<rparr>"

definition sample_validated :: validated_auth where
  "sample_validated = \<lparr>va_request = sample_request, va_presence = sample_presence, va_valid_until = 15000,
     va_revision = 1, va_epoch = 1\<rparr>"

definition sample_claims :: permit_claims where
  "sample_claims = \<lparr>pc_v = 2, pc_typ = ''NestLink-P2P'', pc_jti = replicate 36 CHR ''j'', pc_realm = ''r'',
     pc_iat = 100, pc_exp = 145, pc_controller_device = replicate 36 CHR ''d'',
     pc_host_device = replicate 36 CHR ''d'', pc_controller_session = replicate 36 CHR ''s'',
     pc_host_session = replicate 36 CHR ''s'', pc_controller_id = ''c1'', pc_host_id = ''h1'',
     pc_controller_key = ''p'', pc_host_key = ''q'', pc_policy = ''require_direct''\<rparr>"

definition sample_json :: "u8 list \<Rightarrow> permit_claims option" where
  "sample_json b = (if b = plain_bytes ''c'' then Some sample_claims else None)"

definition sample_to_json :: "envelope \<Rightarrow> string" where
  "sample_to_json e = show_nat (length (en_permit e)) @ ''|'' @ en_permit e @ en_proof e"

definition sample_of_json :: "string \<Rightarrow> envelope option" where
  "sample_of_json t =
     (case split_once CHR ''|'' t of
        Some (n, r) \<Rightarrow> Some \<lparr>en_permit = take (dec n) r, en_proof = drop (dec n) r\<rparr>
      | None \<Rightarrow> None)"

definition signed_in :: "mem_store auth_state" where
  "signed_in = sample_auth\<lparr>a_auth := Some sample_validated\<rparr>"

lemma sample_json_inverse: "sample_of_json (sample_to_json e) = Some e"
proof -
  have "CHR ''|'' \<notin> set (show_nat n)" for n
    using plain_show_nat[of "CHR ''|''" n] by (auto simp: is_ascii_digit_def)
  then show ?thesis by (simp add: sample_of_json_def sample_to_json_def split_once_append)
qed

lemma plain_key_pair: "key_pair_ok plain_crypto sk pk"
  by (simp add: key_pair_ok_def plain_crypto_def)

lemma plain_base64: "base64_ok plain_crypto"
proof -
  have "of_nat (unat b mod 256) = b" for b :: u8
  proof -
    have "unat b < 2 ^ LENGTH(8)" by (rule unsigned_less)
    then show ?thesis by simp
  qed
  then show ?thesis by (simp add: base64_ok_def plain_crypto_def plain_bytes_def map_idI)
qed

lemma sample_permit_ok: "permit_claims_ok plain_crypto sample_trust 100 sample_claims"
  by (simp add: permit_claims_ok_def plain_crypto_def sample_trust_def sample_claims_def
      saturating_add_u64_def checked_sub_u64_def)

lemma sample_prepare:
  "prepare plain_crypto sample_json sample_to_json ''h1'' 7 100 0 signed_in (Inr (Some ''nlp2.c.nlp2c''))
     (Inr ([], plain_bytes ''p'')) 0 signed_in
   = Inr (sample_to_json \<lparr>en_permit = ''nlp2.c.nlp2c'',
            en_proof = std_encode plain_crypto (sign_detached plain_crypto (login_text ''nlp2.c.nlp2c'' 7) [])\<rparr>,
          sample_claims, guard_start (pc_jti sample_claims) 1)"
proof -
  have snap: "snapshot 0 signed_in = Inr sample_validated"
    by (simp add: snapshot_Inr signed_in_def sample_validated_def)
  have "verify_permit_at plain_crypto sample_json ''nlp2.c.nlp2c'' sample_trust 100 = Inr sample_claims"
    using sample_permit_ok
    by (simp add: verify_permit_at_def token_signature_def service_key_def token_json_def sample_json_def
        plain_crypto_def plain_bytes_def)
  moreover have "char_of (112 :: nat) = CHR ''p''" by code_simp
  ultimately show ?thesis
    using snap
    by (simp add: prepare_def target_ok_def is_ascii_alphanumeric_def is_ascii_digit_def is_ascii_alphabetic_def
        sample_validated_def sample_presence_def sample_request_def sample_claims_def plain_crypto_def
        signed_in_def sample_auth_def ready_def Let_def plain_bytes_def)
qed

lemma sample_env_length:
  "length (sample_to_json \<lparr>en_permit = ''nlp2.c.nlp2c'',
     en_proof = std_encode plain_crypto (sign_detached plain_crypto (login_text ''nlp2.c.nlp2c'' 7) [])\<rparr>) \<le> 6144"
proof -
  have "login_text ''nlp2.c.nlp2c'' 7 = ''NestLink-login-v2:nlp2.c.nlp2c:7''"
    "length (show_nat (length ''nlp2.c.nlp2c'')) = 2" by code_simp+
  then show ?thesis by (simp add: sample_to_json_def plain_crypto_def plain_bytes_def)
qed

lemma sample_host:
  "a_auth signed_in = Some sample_validated" "0 < va_valid_until sample_validated"
  "pr_permit_trust (va_presence sample_validated) = sample_trust"
  "va_epoch sample_validated = a_epoch signed_in" "ready 0 signed_in"
  "pc_host_device sample_claims = ar_device_id (va_request sample_validated)"
  "pc_host_session sample_claims = pr_session_id (va_presence sample_validated)"
  by (simp_all add: signed_in_def sample_auth_def sample_validated_def sample_presence_def ready_def
      sample_claims_def sample_request_def)

lemma sample_own_key: "std_encode plain_crypto (plain_bytes ''q'') = pc_host_key sample_claims"
proof -
  have "char_of (113 :: nat) = CHR ''q''" by code_simp
  then show ?thesis by (simp add: plain_crypto_def plain_bytes_def sample_claims_def)
qed

theorem prepare_accept_witness:
  "\<exists>env. accept plain_crypto sample_json sample_of_json ''h1'' (plain_bytes ''q'') 100 0 signed_in
      \<lparr>lf_permit = Some env, lf_my_id = ''c1'', lf_session_id = 7\<rparr> (Inr ()) 0 signed_in
    = Inr (guard_start (replicate 36 CHR ''j'') 1)"
proof -
  have "permit_claims_ok plain_crypto (pr_permit_trust (va_presence sample_validated)) 100 sample_claims"
    using sample_permit_ok by (simp add: sample_host(3))
  from prepare_accept[OF sample_prepare plain_key_pair plain_base64 _ sample_host(1) sample_host(1,2) _ this
      sample_host(6,7) sample_own_key sample_env_length sample_host(4,5), of sample_of_json]
  show ?thesis
    by (intro exI) (simp add: sample_json_inverse sample_claims_def sample_validated_def)
qed

theorem accept_sound_witness:
  "\<exists>auth env c. a_auth signed_in = Some auth \<and> va_epoch auth = a_epoch signed_in
    \<and> permit_signed plain_crypto sample_json (pr_permit_trust (va_presence auth)) (en_permit env) c
    \<and> login_signed plain_crypto env 7 (pc_controller_key c) \<and> unat (pc_exp c) \<le> unat (100 :: u64) + 50"
proof -
  let ?e = "\<lparr>en_permit = ''nlp2.c.nlp2c'',
    en_proof = std_encode plain_crypto (sign_detached plain_crypto (login_text ''nlp2.c.nlp2c'' 7) [])\<rparr>"
  have v: "verify_permit_at plain_crypto sample_json ''nlp2.c.nlp2c'' sample_trust 100 = Inr sample_claims"
    using sample_permit_ok
    by (simp add: verify_permit_at_def token_signature_def service_key_def token_json_def sample_json_def
        plain_crypto_def plain_bytes_def)
  have snap: "snapshot 0 signed_in = Inr sample_validated" using sample_host by (simp add: snapshot_Inr)
  have dec: "std_decode plain_crypto (std_encode plain_crypto b) = Some b" for b
    using plain_base64 by (simp add: base64_ok_def)
  have own: "pc_host_id sample_claims = ''h1''" "pc_controller_id sample_claims = ''c1''" by (simp_all add: sample_claims_def)
  have lib: "signature_from_bytes plain_crypto = Some" "public_key_from_slice plain_crypto = Some"
    "std_decode plain_crypto k = Some (plain_bytes k)"
    "verify_detached plain_crypto (sign_detached plain_crypto t sk) t p" for k t sk p
    by (simp_all add: plain_crypto_def)
  have "accept plain_crypto sample_json sample_of_json ''h1'' (plain_bytes ''q'') 100 0 signed_in
      \<lparr>lf_permit = Some (sample_to_json ?e), lf_my_id = ''c1'', lf_session_id = 7\<rparr> (Inr ()) 0 signed_in
    = Inr (guard_start (pc_jti sample_claims) 1)"
    using v sample_host sample_env_length sample_own_key lib own dec
    unfolding accept_def snap
    by (simp add: sample_json_inverse del: lib(3)) (simp add: sample_validated_def)
  from accept_sound[OF this] show ?thesis by force
qed

section \<open>Browser grants and requests\<close>

text \<open>(what a browser grant gives).  A granted browser session belongs to the sign-in that is current
  at that moment, so that \<^verbatim>\<open>browser_epoch_live\<close> holds for it; sharing is not switched off; the time it gets is
  between one and twenty seconds; and the grant was issued for fifteen seconds.\<close>

theorem browser_grant_bounds:
  assumes "browser_grant api cr json now now_s s token expected offer answer = Inr (epoch, secs)"
    and "lease_ok now s"
  shows "browser_epoch_live api now s epoch \<and> 0 < unat secs \<and> unat secs \<le> 20
    \<and> (\<exists>auth c. a_auth s = Some auth
         \<and> verify_browser_grant_at cr json token (pr_permit_trust (va_presence auth)) now_s = Inr c
         \<and> bc_jti c = expected \<and> bc_offer_sha256 c = offer \<and> bc_answer_sha256 c = answer
         \<and> bc_host_device c = ar_device_id (va_request auth) \<and> unat (bc_exp c) = unat (bc_iat c) + 15
         \<and> unat (bc_exp c) = unat now_s + unat secs)"
proof -
  from assms(1) obtain auth c where *: "a_auth s = Some auth" "now < va_valid_until auth" "\<not> stop_service api s"
    "verify_browser_grant_at cr json token (pr_permit_trust (va_presence auth)) now_s = Inr c"
    "bc_jti c = expected" "bc_offer_sha256 c = offer" "bc_answer_sha256 c = answer"
    "bc_host_device c = ar_device_id (va_request auth)" "epoch = va_epoch auth" "secs = bc_exp c - now_s"
    by (auto simp: browser_grant_def live_def bail_def split: option.splits sum.splits if_splits)
  from *(4) have "browser_claims_ok cr (pr_permit_trust (va_presence auth)) now_s c"
    by (auto simp: verify_browser_grant_at_def Let_def bail_def split: if_splits sum.splits)
  then have w: "unat (bc_exp c) = unat (bc_iat c) + 15" "unat now_s < unat (bc_exp c)" "unat (bc_exp c) \<le> unat now_s + 20"
    using token_window[where iat = "bc_iat c" and now = now_s and exp = "bc_exp c" and life = 15]
    by (simp_all add: browser_claims_ok_def)
  then have "unat secs = unat (bc_exp c) - unat now_s"
    using *(10) by (simp add: unat_sub word_le_nat_alt)
  with w * assms(2) show ?thesis
    by (auto simp: browser_epoch_live_def ready_def lease_ok_def)
qed

definition sample_browser_claims :: browser_claims where
  "sample_browser_claims = \<lparr>bc_v = 1, bc_typ = ''NestLink-Browser'', bc_jti = replicate 36 CHR ''j'', bc_realm = ''r'',
     bc_host_device = replicate 36 CHR ''d'', bc_host_session = replicate 36 CHR ''s'',
     bc_controller_session = replicate 36 CHR ''x'', bc_offer_sha256 = replicate 64 CHR ''0'',
     bc_answer_sha256 = replicate 64 CHR ''1'', bc_iat = 100, bc_exp = 115, bc_policy = ''require_direct''\<rparr>"

theorem browser_grant_bounds_witness:
  "browser_epoch_live mem_api 0 signed_in 1 \<and> unat (15 :: u64) \<le> 20"
proof -
  have ok: "browser_claims_ok plain_crypto sample_trust 100 sample_browser_claims"
    by (simp add: browser_claims_ok_def plain_crypto_def sample_trust_def sample_browser_claims_def
        saturating_add_u64_def checked_sub_u64_def is_sha256_def is_ascii_hexdigit_def is_ascii_digit_def
        list_all_iff)
  have "verify_browser_grant_at plain_crypto (\<lambda>_. Some sample_browser_claims) ''nlb1.c.nlb1c'' sample_trust 100
      = Inr sample_browser_claims"
    using ok by (simp add: verify_browser_grant_at_def token_signature_def service_key_def token_json_def
        plain_crypto_def plain_bytes_def sample_trust_def)
  then have "browser_grant mem_api plain_crypto (\<lambda>_. Some sample_browser_claims) 0 100 signed_in ''nlb1.c.nlb1c''
      (replicate 36 CHR ''j'') (replicate 64 CHR ''0'') (replicate 64 CHR ''1'') = Inr (1, 15)"
    by (simp add: browser_grant_def live_def signed_in_def sample_validated_def sample_presence_def
        sample_request_def sample_browser_claims_def stop_service_def sample_auth_def mem_api_def
        sample_store_def or_default_def)
  moreover have "lease_ok 0 signed_in"
    using sample_host(1,4) by (simp add: lease_ok_def) (simp add: sample_validated_def)
  ultimately show ?thesis using browser_grant_bounds by blast
qed

text \<open>\<open>cur\<close> is a newer sign-in with another token, found during the wait, for the same service, device,
  presence and epoch.\<close>

definition fresh_token ::
    "validated_auth \<Rightarrow> validated_auth \<Rightarrow> (ms \<times> ('c, 'z) auth_state_scheme) list \<Rightarrow> bool" where
  "fresh_token auth cur waits \<longleftrightarrow>
     list_ex (\<lambda>(now, s). a_auth s = Some cur \<and> now < va_valid_until cur \<and> va_revision cur = a_revision s) waits
     \<and> va_revision cur \<noteq> va_revision auth
     \<and> ar_access_token (va_request cur) \<noteq> ar_access_token (va_request auth)
     \<and> ar_origin (va_request cur) = ar_origin (va_request auth)
     \<and> ar_device_id (va_request cur) = ar_device_id (va_request auth)
     \<and> va_presence cur = va_presence auth \<and> va_epoch cur = va_epoch auth"

lemma replacement_Inr: "replacement_after_401 auth waits = Inr cur \<Longrightarrow> fresh_token auth cur waits"
  by (induction auth waits rule: replacement_after_401.induct)
    (auto simp: bail_def fresh_token_def snapshot_Inr split: sum.splits if_splits)

text \<open>\<^bold>\<open>C30\<close> (a request is sent at most twice, the second time with a fresh token).  An authorised request is
  sent once with the token it was given.  A second request is sent only after the service refused the first
  with status 401, and then with a different token that was installed meanwhile for the same service,
  device and presence under the same epoch.  A success is reported only while the epoch under which the
  request was authorised is still the current one and the sign-in is live.\<close>

theorem authorized_request_scope:
  assumes "authorized_request_using auth send seen waits = (res, sent)"
  shows "(sent = [va_request auth] \<or>
      (\<exists>cur e. sent = [va_request auth, va_request cur] \<and> send 0 (va_request auth) = Inl e
         \<and> er_http e = Some 401 \<and> fresh_token auth cur waits))
    \<and> (\<forall>v. res = Inr v \<longrightarrow> va_epoch auth = a_epoch (snd (seen (length sent - 1)))
         \<and> ready (fst (seen (length sent - 1))) (snd (seen (length sent - 1))))"
proof (cases "send 0 (va_request auth)")
  case (Inr v)
  with assms show ?thesis
    by (auto simp: authorized_request_using_def Let_def still_authorized_def bail_def split: if_splits)
next
  case (Inl e)
  show ?thesis
  proof (cases "replacement_after_401 auth waits")
    case (Inl e')
    with assms \<open>send 0 (va_request auth) = Inl e\<close> show ?thesis
      by (auto simp: authorized_request_using_def Let_def split: if_splits)
  next
    case (Inr cur)
    note fresh = replacement_Inr[OF Inr]
    then have "va_epoch cur = va_epoch auth" by (simp add: fresh_token_def)
    with fresh assms Inr \<open>send 0 (va_request auth) = Inl e\<close> show ?thesis
      by (cases "send 1 (va_request cur)")
        (auto simp: authorized_request_using_def Let_def still_authorized_def bail_def split: if_splits)
  qed
qed

theorem authorized_request_scope_witness:
  "\<exists>cur e. [sample_request, sample_request\<lparr>ar_access_token := ''new''\<rparr>] = [va_request sample_validated, va_request cur]
     \<and> Inl (http_error 401) = Inl e \<and> er_http e = Some 401
     \<and> fresh_token sample_validated cur
         [(0, signed_in\<lparr>a_revision := 2, a_auth := Some (sample_validated\<lparr>va_revision := 2,
             va_request := sample_request\<lparr>ar_access_token := ''new''\<rparr>\<rparr>)\<rparr>)]"
proof -
  let ?cur = "sample_validated\<lparr>va_revision := 2, va_request := sample_request\<lparr>ar_access_token := ''new''\<rparr>\<rparr>"
  let ?s = "signed_in\<lparr>a_revision := 2, a_auth := Some ?cur\<rparr>"
  let ?send = "\<lambda>n r. if n = 0 then Inl (http_error 401) else Inr ()"
  have r: "replacement_after_401 sample_validated [(0, ?s)] = Inr ?cur"
    by (simp add: snapshot_def live_def sample_validated_def sample_request_def numeral_eq_Suc)
  have "authorized_request_using sample_validated ?send (\<lambda>_. (0, ?s)) [(0, ?s)] =
      (still_authorized 0 ?s ?cur (), [sample_request, sample_request\<lparr>ar_access_token := ''new''\<rparr>])"
    unfolding authorized_request_using_def r by (simp add: http_error_def sample_validated_def)
  from authorized_request_scope[OF this] show ?thesis by simp
qed

lemma read_body_Inr:
  "read_body acc chunks = Inr body \<Longrightarrow>
     body = acc @ concat (map (\<lambda>c. case c of Inr t \<Rightarrow> t | Inl _ \<Rightarrow> []) chunks)
     \<and> (\<forall>c \<in> set chunks. \<exists>t. c = Inr t) \<and> (length acc \<le> body_limit \<longrightarrow> length body \<le> body_limit)"
  by (induction acc chunks rule: read_body.induct) (auto simp: bail_def split: if_splits)

text \<open>(answers are bounded).  The body read for an answer is the concatenation of its chunks and never
  longer than 64 KiB; a longer one is refused with the size error before the excess is stored; and a value is
  returned only for a successful status.\<close>

theorem request_bounded:
  assumes "request json null (Inr response) = Inr v" and "rs_status response \<noteq> 204"
  shows "200 \<le> rs_status response \<and> rs_status response < 300
    \<and> (\<exists>body. read_body [] (rs_chunks response) = Inr body \<and> json body = Some v \<and> length body \<le> 65536
         \<and> body = concat (map (\<lambda>c. case c of Inr t \<Rightarrow> t | Inl _ \<Rightarrow> []) (rs_chunks response)))"
proof -
  from assms obtain body where "200 \<le> rs_status response" "rs_status response < 300"
    "read_body [] (rs_chunks response) = Inr body" "json body = Some v"
    by (auto simp: request_def bail_def split: if_splits option.splits sum.splits)
  moreover from this(3) have "length body \<le> 65536"
    "body = concat (map (\<lambda>c. case c of Inr t \<Rightarrow> t | Inl _ \<Rightarrow> []) (rs_chunks response))"
    using read_body_Inr[of "[]" "rs_chunks response" body] by (auto simp: body_limit_def)
  ultimately show ?thesis by blast
qed

theorem request_bounded_witness:
  "\<exists>body. read_body [] [Inr ''ab'', Inr ''c''] = Inr body \<and> Some body = Some ''abc'' \<and> length body \<le> 65536
     \<and> body = concat (map (\<lambda>c. case c of Inr t \<Rightarrow> t | Inl _ \<Rightarrow> []) [Inr ''ab'', Inr ''c''])"
proof -
  have "request Some [] (Inr \<lparr>rs_status = 200, rs_content_length = None, rs_chunks = [Inr ''ab'', Inr ''c'']\<rparr>)
      = Inr ''abc''"
    by (simp add: request_def body_limit_def)
  from request_bounded[OF this] show ?thesis by simp
qed

end
