(* ===== verification/Tunnel_Runtime.thy ===== *)
theory Tunnel_Runtime
  imports Homedesk_Config
begin

text \<open>
  The managed tunnel process (\<^verbatim>\<open>client/src/homedesk_tunnel_runtime.rs\<close>, with the manifest check of
  \<^verbatim>\<open>client/src/homedesk_runtime_compatibility.rs\<close> and the helper lookup of
  \<^verbatim>\<open>client/src/homedesk_process.rs\<close>).

  \<open>tunnel_state\<close> extends the configuration state with the controller behind its mutex, the origin
  approved on this machine and the helper processes started so far.  A worker thread runs
  \<^verbatim>\<open>execute\<close>; it is cut at each point where it takes the lock or asks for permission again, and
  \<open>tunnel_step\<close> interleaves workers, commands and revocations.  The file system, SHA-256, JSON and
  the child process are parameters; a process is the two facts the controller cares about: whether it can
  still run, and whether it was let through the gate.
\<close>

record tunnel_request =
  rq_action :: string
  rq_owner :: string
  rq_origin :: string
  rq_user_id :: string
  rq_permission :: string
  rq_name :: string
  rq_registration :: string
  rq_serial :: u64

record view =
  v_owner :: string
  v_phase :: string
  v_code :: string
  v_device_id :: string
  v_agent_state :: string
  v_install_id :: string
  v_fingerprint_hash :: string

definition view_default :: view where
  "view_default = \<lparr>v_owner = [], v_phase = [], v_code = [], v_device_id = [], v_agent_state = [],
     v_install_id = [], v_fingerprint_hash = []\<rparr>"

record controller =
  c_view :: view
  c_serial :: u64
  c_stopped :: "string set"
  c_job :: "nat option"
  c_state_path :: "string option"

definition controller_init :: controller where
  "controller_init = \<lparr>c_view = view_default\<lparr>v_phase := ''stopped''\<rparr>, c_serial = 0, c_stopped = {},
     c_job = None, c_state_path = None\<rparr>"

record job =
  j_alive :: bool
  j_gate :: bool

record 'c tunnel_state = "'c config_state" +
  t_ctrl :: controller
  t_local_origin :: string
  t_jobs :: "job list"

definition terminate :: "nat \<Rightarrow> job list \<Rightarrow> job list" where
  "terminate j js = (if j < length js then js[j := (js ! j)\<lparr>j_alive := False\<rparr>] else js)"

text \<open>\<^verbatim>\<open>if let Some(job) = controller.job.take() { job.terminate(); }\<close>\<close>

definition take_job :: "('c, 'z) tunnel_state_scheme \<Rightarrow> ('c, 'z) tunnel_state_scheme" where
  "take_job s =
     (case c_job (t_ctrl s) of
        None \<Rightarrow> s
      | Some j \<Rightarrow> s\<lparr>t_ctrl := (t_ctrl s)\<lparr>c_job := None\<rparr>, t_jobs := terminate j (t_jobs s)\<rparr>)"

definition stop_view :: "controller \<Rightarrow> controller" where
  "stop_view c = c\<lparr>c_view := (c_view c)\<lparr>v_phase := ''stopped'', v_owner := []\<rparr>, c_serial := c_serial c + 1\<rparr>"

definition stop_all :: "('c, 'z) tunnel_state_scheme \<Rightarrow> ('c, 'z) tunnel_state_scheme" where
  "stop_all s =
     (let owner = v_owner (c_view (t_ctrl s));
          s = (if owner \<noteq> [] then s\<lparr>t_ctrl := (t_ctrl s)\<lparr>c_stopped := insert owner (c_stopped (t_ctrl s))\<rparr>\<rparr> else s);
          s = take_job s
      in s\<lparr>t_ctrl := stop_view (t_ctrl s)\<rparr>)"

definition invalidate_portal_permission :: "('c, 'z) tunnel_state_scheme \<Rightarrow> ('c, 'z) tunnel_state_scheme" where
  "invalidate_portal_permission s =
     stop_all (s\<lparr>portal_permission_epoch := portal_permission_epoch s + 1\<rparr>)"

definition valid_owner :: "string \<Rightarrow> bool" where
  "valid_owner v \<longleftrightarrow> length v = 32 \<and> list_all is_ascii_hexdigit v"

definition valid_user :: "string \<Rightarrow> bool" where
  "valid_user v \<longleftrightarrow> length v = 36
     \<and> list_all (\<lambda>(i, c). if i \<in> {8, 13, 18, 23} then c = CHR ''-'' else is_ascii_hexdigit c) (enumerate 0 v)"

definition allowed ::
    "('c, 'd) config_api \<Rightarrow> (string \<Rightarrow> url option) \<Rightarrow> ('c, 'z) tunnel_state_scheme \<Rightarrow> tunnel_request \<Rightarrow> bool" where
  "allowed api url_parse s r \<longleftrightarrow>
     valid_owner (rq_owner r) \<and> valid_user (rq_user_id r)
     \<and> config_home_tunnel_allowed api s
     \<and> rq_permission r \<noteq> []
     \<and> rq_permission r = home_tunnel_permission api s s
     \<and> normalize_portal_origin url_parse (rq_origin r) = Some (rq_origin r)
     \<and> t_local_origin s = rq_origin r"

definition command_ok :: "tunnel_request \<Rightarrow> bool" where
  "command_ok r \<longleftrightarrow>
     rq_action r \<in> {''inspect'', ''register'', ''run''}
     \<and> length (chars (rq_name r)) \<le> 120 \<and> \<not> list_ex is_control (chars (rq_name r))
     \<and> \<not> (rq_action r = ''register''
          \<and> (length (rq_registration r) < 32 \<or> length (rq_registration r) > 4096
             \<or> list_ex is_control (chars (rq_registration r))))"

text \<open>The second component is the request for the worker, with its serial; \<open>json\<close> parses the command.\<close>

definition command ::
    "('c, 'd) config_api \<Rightarrow> (string \<Rightarrow> url option) \<Rightarrow> (string \<Rightarrow> tunnel_request option)
       \<Rightarrow> string \<Rightarrow> ('c, 'z) tunnel_state_scheme \<Rightarrow> ('c, 'z) tunnel_state_scheme \<times> tunnel_request option" where
  "command api url_parse json value s =
     (if length value > 8192 then (s, None)
      else (case json value of
        None \<Rightarrow> (s, None)
      | Some r \<Rightarrow>
          if \<not> valid_owner (rq_owner r) then (s, None)
          else if rq_action r = ''stop''
          then let s = s\<lparr>t_ctrl := (t_ctrl s)\<lparr>c_stopped := insert (rq_owner r) (c_stopped (t_ctrl s))\<rparr>\<rparr>
               in if v_owner (c_view (t_ctrl s)) = rq_owner r
                  then let s = take_job s in (s\<lparr>t_ctrl := stop_view (t_ctrl s)\<rparr>, None)
                  else (s, None)
          else if \<not> allowed api url_parse s r \<or> \<not> command_ok r then (s, None)
          else if rq_owner r \<in> c_stopped (t_ctrl s) then (s, None)
          else let s = take_job s;
                   serial = c_serial (t_ctrl s) + 1;
                   s = s\<lparr>t_ctrl := (t_ctrl s)\<lparr>c_view := view_default\<lparr>v_owner := rq_owner r, v_phase := ''working''\<rparr>,
                                              c_serial := serial\<rparr>\<rparr>
               in (s, Some (r\<lparr>rq_serial := serial\<rparr>))))"

definition is_current :: "controller \<Rightarrow> tunnel_request \<Rightarrow> bool" where
  "is_current c r \<longleftrightarrow> v_owner (c_view c) = rq_owner r \<and> c_serial c = rq_serial r"

definition update ::
    "('c, 'd) config_api \<Rightarrow> (string \<Rightarrow> url option) \<Rightarrow> tunnel_request \<Rightarrow> string \<Rightarrow> string \<Rightarrow> string \<Rightarrow> string
       \<Rightarrow> ('c, 'z) tunnel_state_scheme \<Rightarrow> ('c, 'z) tunnel_state_scheme" where
  "update api url_parse r phase code device agent s =
     (if \<not> allowed api url_parse s r then s
      else if \<not> is_current (t_ctrl s) r then s
      else let v = (c_view (t_ctrl s))\<lparr>v_phase := phase, v_code := code\<rparr>;
               v = (if valid_user device then v\<lparr>v_device_id := device\<rparr> else v)
           in s\<lparr>t_ctrl := (t_ctrl s)\<lparr>c_view := v\<lparr>v_agent_state := agent\<rparr>\<rparr>\<rparr>)"

text \<open>The error path of the worker thread, and the update the other platforms make at once.\<close>

definition worker_failed ::
    "('c, 'd) config_api \<Rightarrow> (string \<Rightarrow> url option) \<Rightarrow> tunnel_request \<Rightarrow> string
       \<Rightarrow> ('c, 'z) tunnel_state_scheme \<Rightarrow> ('c, 'z) tunnel_state_scheme" where
  "worker_failed api url_parse r code s =
     update api url_parse r ''error'' code [] [] (if is_current (t_ctrl s) r then take_job s else s)"

definition command_unsupported ::
    "('c, 'd) config_api \<Rightarrow> (string \<Rightarrow> url option) \<Rightarrow> tunnel_request
       \<Rightarrow> ('c, 'z) tunnel_state_scheme \<Rightarrow> ('c, 'z) tunnel_state_scheme" where
  "command_unsupported api url_parse r s = update api url_parse r ''error'' ''PLATFORM_UNSUPPORTED'' [] [] s"

text \<open>The pair is rendered as JSON; \<open>sha256\<close> is the hexadecimal digest.\<close>

definition network_identity ::
    "('c, 'd) config_api \<Rightarrow> (string \<Rightarrow> string) \<Rightarrow> ('c, 'z) config_state_scheme \<Rightarrow> (string \<times> string) option" where
  "network_identity api sha256 s =
     (let p = active_profile api s in
      if np_server p = [] \<or> np_key p = [] then None
      else let server = map to_ascii_lowercase (trim (np_server p));
               server = (if CHR '':'' \<notin> set server then server @ '':21116'' else server)
           in Some (server, sha256 (trim (np_key p))))"

section \<open>The runtime on disk\<close>

text \<open>What \<^verbatim>\<open>symlink_metadata\<close> says of a path; \<open>md_unsafe\<close> is \<^verbatim>\<open>unsafe_metadata\<close> (a reparse point, or
  writable by group or others).\<close>

record metadata =
  md_file :: bool
  md_dir :: bool
  md_symlink :: bool
  md_mode :: u32
  md_attributes :: u32

record file_system =
  fs_metadata :: "string \<Rightarrow> metadata option"
  fs_read :: "string \<Rightarrow> string option"
  fs_create_dir_all :: "string \<Rightarrow> bool"

definition unsafe_metadata :: "bool \<Rightarrow> metadata \<Rightarrow> bool" where
  "unsafe_metadata windows m \<longleftrightarrow>
     (if windows then md_attributes m AND 0x400 \<noteq> 0 else md_mode m AND 0x12 \<noteq> 0)"

definition regular :: "bool \<Rightarrow> file_system \<Rightarrow> string \<Rightarrow> string + unit" where
  "regular windows fs p =
     (case fs_metadata fs p of
        None \<Rightarrow> Inl ''RUNTIME_MISSING''
      | Some m \<Rightarrow> if \<not> md_file m \<or> md_symlink m \<or> unsafe_metadata windows m then Inl ''UNSAFE_PATH'' else Inr ())"

definition verify_file :: "bool \<Rightarrow> file_system \<Rightarrow> (string \<Rightarrow> string) \<Rightarrow> string \<Rightarrow> string \<Rightarrow> string + unit" where
  "verify_file windows fs sha256 p expected =
     (case regular windows fs p of
        Inl e \<Rightarrow> Inl e
      | Inr _ \<Rightarrow>
          if length expected \<noteq> 64 \<or> \<not> list_all is_ascii_hexdigit expected then Inl ''INTEGRITY_FAILED''
          else (case fs_read fs p of
                  None \<Rightarrow> Inl ''INTEGRITY_FAILED''
                | Some bytes \<Rightarrow> if sha256 bytes \<noteq> map to_ascii_lowercase expected then Inl ''INTEGRITY_FAILED''
                                else Inr ()))"

text \<open>\<open>agent_of\<close> gives the \<^verbatim>\<open>agent_state\<close> string of the parsed state file.  The view is what is
  serialised.\<close>

definition status ::
    "bool \<Rightarrow> file_system \<Rightarrow> (string \<Rightarrow> string option) \<Rightarrow> ('c, 'z) tunnel_state_scheme \<Rightarrow> view" where
  "status windows fs agent_of s =
     (let c = t_ctrl s; v = c_view c in
      if v_phase v = ''running''
      then (case c_state_path c of
              None \<Rightarrow> v
            | Some path \<Rightarrow>
                (case regular windows fs path of
                   Inl _ \<Rightarrow> v
                 | Inr _ \<Rightarrow>
                     (case fs_read fs path of
                        None \<Rightarrow> v
                      | Some bytes \<Rightarrow>
                          if length bytes \<le> 2 * 1024 * 1024
                          then (case agent_of bytes of
                                  Some agent \<Rightarrow>
                                    if agent \<in> {''Online'', ''Offline'', ''Starting'', ''Applying'', ''Degraded'',
                                                ''Error'', ''Revoked'', ''ExpiredStop'', ''RepairRequired''}
                                    then v\<lparr>v_agent_state := agent\<rparr> else v
                                | None \<Rightarrow> v)
                          else v)))
      else v)"

text \<open>A JSON object is seen through the string values of its fields.  \<open>compatibility\<close> is the embedded
  \<^verbatim>\<open>compatibility.json\<close> (its \<^verbatim>\<open>target_combination\<close> under \<open>target\<close>) and \<open>client_version\<close> the package version.\<close>

type_synonym fields = "string \<Rightarrow> string option"

definition validate_runtime :: "(fields \<times> fields) option \<Rightarrow> string \<Rightarrow> fields \<Rightarrow> string \<Rightarrow> string + unit" where
  "validate_runtime compatibility client_version manifest executable =
     (case compatibility of
        None \<Rightarrow> Inl ''RUNTIME_INCOMPATIBLE''
      | Some (whole, target) \<Rightarrow>
          (case target ''agent'' of
             None \<Rightarrow> Inl ''RUNTIME_INCOMPATIBLE''
           | Some expected_runtime \<Rightarrow>
               if expected_runtime = [] then Inl ''RUNTIME_INCOMPATIBLE''
               else if whole ''version'' \<noteq> Some client_version \<or> target ''client'' \<noteq> Some client_version
                       \<or> manifest ''version'' \<noteq> Some expected_runtime
               then Inl ''RUNTIME_INCOMPATIBLE''
               else if manifest ''parent_executable'' \<noteq> Some executable then Inl ''INTEGRITY_FAILED''
               else Inr ()))"

definition path_join :: "string \<Rightarrow> string \<Rightarrow> string" where
  "path_join a b = a @ ''/'' @ b"

text \<open>What the host gives the function: the canonical directory and name of the executable, the directory
  of the configuration file and the libraries.\<close>

record runtime_env =
  re_windows :: bool
  re_fs :: file_system
  re_sha256 :: "string \<Rightarrow> string"
  re_exe :: "(string \<times> string) option"
  re_config_dir :: "string option"
  re_json :: "string \<Rightarrow> fields option"
  re_compat :: "(fields \<times> fields) option"
  re_version :: string

definition exe_name :: "runtime_env \<Rightarrow> string \<Rightarrow> string" where
  "exe_name re n = (if re_windows re then n @ ''.exe'' else n)"

definition safe_dir :: "runtime_env \<Rightarrow> string \<Rightarrow> bool" where
  "safe_dir re d =
     (case fs_metadata (re_fs re) d of Some m \<Rightarrow> md_dir m \<and> \<not> unsafe_metadata (re_windows re) m | None \<Rightarrow> False)"

definition state_dirs :: "runtime_env \<Rightarrow> tunnel_request \<Rightarrow> string + (string \<times> string)" where
  "state_dirs re r =
     (case re_config_dir re of
        None \<Rightarrow> Inl ''UNSAFE_PATH''
      | Some config \<Rightarrow>
          let root = path_join config ''tunnel-local'';
              scope = re_sha256 re (rq_origin r @ [CHR 0x00] @ rq_user_id r);
              directory = path_join root scope
          in if \<not> fs_create_dir_all (re_fs re) directory then Inl ''STATE_PROTECTION_FAILED''
             else if \<not> list_all (safe_dir re) [root, directory] then Inl ''UNSAFE_PATH''
             else Inr (root, directory))"

definition paths :: "runtime_env \<Rightarrow> tunnel_request \<Rightarrow> string + (string \<times> string)" where
  "paths re r =
     (case re_exe re of
        None \<Rightarrow> Inl ''RUNTIME_MISSING''
      | Some (app, executable_name) \<Rightarrow>
          let runtime = path_join app ''tunnel-runtime'';
              manifest_path = path_join runtime ''runtime.json'';
              check = verify_file (re_windows re) (re_fs re) (re_sha256 re)
          in if fs_metadata (re_fs re) runtime = None then Inl ''RUNTIME_MISSING''
             else if \<not> safe_dir re runtime then Inl ''UNSAFE_PATH''
             else (case regular (re_windows re) (re_fs re) manifest_path of
               Inl e \<Rightarrow> Inl e
             | Inr _ \<Rightarrow>
                 (case Option.bind (fs_read (re_fs re) manifest_path) (re_json re) of
                    None \<Rightarrow> Inl ''INTEGRITY_FAILED''
                  | Some manifest \<Rightarrow>
                      (case validate_runtime (re_compat re) (re_version re) manifest executable_name of
                         Inl e \<Rightarrow> Inl e
                       | Inr _ \<Rightarrow>
                           let helper = path_join runtime (exe_name re ''homedesk-tunnel-helper'')
                           in case manifest ''helper_sha256'' of
                                None \<Rightarrow> Inl ''INTEGRITY_FAILED''
                              | Some h \<Rightarrow>
                                  (case check helper h of
                                     Inl e \<Rightarrow> Inl e
                                   | Inr _ \<Rightarrow>
                                       (case manifest ''agent_sha256'' of
                                          None \<Rightarrow> Inl ''INTEGRITY_FAILED''
                                        | Some a \<Rightarrow>
                                            (case check (path_join runtime (exe_name re ''home-tunnel-agent'')) a of
                                               Inl e \<Rightarrow> Inl e
                                             | Inr _ \<Rightarrow>
                                                 (case state_dirs re r of
                                                    Inl e \<Rightarrow> Inl e
                                                  | Inr (_, directory) \<Rightarrow>
                                                      Inr (helper, path_join directory ''state.json'')))))))))"

text \<open>\<open>image\<close> and \<open>target\<close> are canonical paths (\<^verbatim>\<open>None\<close> when canonicalisation fails).\<close>

definition broker_name_ok :: "string \<Rightarrow> bool" where
  "broker_name_ok basename \<longleftrightarrow>
     starts_with basename ''RuntimeBroker_''
     \<and> (let v = drop (length ''RuntimeBroker_'') basename
        in ends_with v ''.exe''
           \<and> (let n = take (length v - 4) v
              in n \<noteq> [] \<and> length n \<le> 64
                 \<and> list_all (\<lambda>c. is_ascii_alphanumeric c \<or> c = CHR ''_'' \<or> c = CHR ''-'') n))"

text \<open>\<open>canon\<close> gives the canonical (directory, name) of a path.\<close>

definition broker_target ::
    "bool \<Rightarrow> file_system \<Rightarrow> (string \<Rightarrow> (string \<times> string) option) \<Rightarrow> string \<Rightarrow> string \<Rightarrow> string option" where
  "broker_target windows fs canon current_exe basename =
     (if \<not> broker_name_ok basename then None
      else (case canon current_exe of
              None \<Rightarrow> None
            | Some (directory, _) \<Rightarrow>
                let target = path_join directory basename
                in case fs_metadata fs target of
                     None \<Rightarrow> None
                   | Some m \<Rightarrow>
                       if \<not> md_file m \<or> md_symlink m then None
                       else if windows \<and> md_attributes m AND 0x400 \<noteq> 0 then None
                       else (case canon target of
                               None \<Rightarrow> None
                             | Some (d, n) \<Rightarrow> if d \<noteq> directory then None else Some (path_join d n))))"

definition is_owned_broker :: "bool \<Rightarrow> (string \<Rightarrow> (string \<times> string) option) \<Rightarrow> string \<Rightarrow> string \<Rightarrow> bool" where
  "is_owned_broker windows canon target process_image =
     (case canon process_image of
        None \<Rightarrow> False
      | Some (d, n) \<Rightarrow>
          if windows then eq_ignore_ascii_case target (path_join d n) else target = path_join d n)"

section \<open>The worker\<close>

definition attach ::
    "tunnel_request \<Rightarrow> nat \<Rightarrow> string \<Rightarrow> ('c, 'z) tunnel_state_scheme \<Rightarrow> bool \<times> ('c, 'z) tunnel_state_scheme" where
  "attach r j state_path s =
     (if \<not> is_current (t_ctrl s) r then (False, s\<lparr>t_jobs := terminate j (t_jobs s)\<rparr>)
      else (True, s\<lparr>t_ctrl := (t_ctrl s)\<lparr>c_job := Some j, c_state_path := Some state_path\<rparr>\<rparr>))"

definition open_gate :: "nat \<Rightarrow> ('c, 'z) tunnel_state_scheme \<Rightarrow> ('c, 'z) tunnel_state_scheme" where
  "open_gate j s =
     s\<lparr>t_jobs := (if j < length (t_jobs s) then (t_jobs s)[j := (t_jobs s ! j)\<lparr>j_gate := True\<rparr>] else t_jobs s)\<rparr>"

text \<open>One line of the helper's output; \<open>json\<close> parses it into its string fields.  A line that is too long ends the
  worker with an error.\<close>

definition note_registration :: "tunnel_request \<Rightarrow> fields \<Rightarrow> ('c, 'z) tunnel_state_scheme \<Rightarrow> ('c, 'z) tunnel_state_scheme" where
  "note_registration r f s =
     (if is_current (t_ctrl s) r
      then s\<lparr>t_ctrl := (t_ctrl s)\<lparr>c_view := (c_view (t_ctrl s))\<lparr>
               v_install_id := or_default (f ''install_id''),
               v_fingerprint_hash := or_default (f ''fingerprint_hash'')\<rparr>\<rparr>\<rparr>
      else s)"

definition field_or :: "fields \<Rightarrow> string \<Rightarrow> string \<Rightarrow> string" where
  "field_or f k d = (case f k of Some v \<Rightarrow> v | None \<Rightarrow> d)"

definition on_line ::
    "('c, 'd) config_api \<Rightarrow> (string \<Rightarrow> url option) \<Rightarrow> (string \<Rightarrow> fields option) \<Rightarrow> tunnel_request \<Rightarrow> nat \<Rightarrow> string
       \<Rightarrow> ('c, 'z) tunnel_state_scheme \<Rightarrow> (string + unit) \<times> ('c, 'z) tunnel_state_scheme" where
  "on_line api url_parse json r j line s =
     (if length line > 8192 then (Inl ''RUNTIME_FAILED'', s\<lparr>t_jobs := terminate j (t_jobs s)\<rparr>)
      else (case json line of
              None \<Rightarrow> (Inr (), s)
            | Some f \<Rightarrow>
                let phase = field_or f ''phase'' ''error''
                in if phase \<notin> {''registered'', ''needs_registration'', ''running'', ''error''} then (Inr (), s)
                   else let s = (if phase = ''needs_registration'' then note_registration r f s else s)
                        in (Inr (), update api url_parse r phase (field_or f ''code'' ''RUNTIME_FAILED'')
                                      (field_or f ''device_id'' []) (field_or f ''agent_state'' []) s)))"

text \<open>After the process has ended: \<^verbatim>\<open>completed\<close> makes its job unkillable, and the view is settled.\<close>

definition finish ::
    "('c, 'd) config_api \<Rightarrow> (string \<Rightarrow> url option) \<Rightarrow> tunnel_request \<Rightarrow> nat \<Rightarrow> bool
       \<Rightarrow> ('c, 'z) tunnel_state_scheme \<Rightarrow> ('c, 'z) tunnel_state_scheme" where
  "finish api url_parse r j success s =
     (let s = s\<lparr>t_jobs := terminate j (t_jobs s)\<rparr> in
      if \<not> allowed api url_parse s r then s
      else if is_current (t_ctrl s) r
      then let c = (t_ctrl s)\<lparr>c_job := None\<rparr>;
               v = c_view c;
               v = (if rq_action r = ''run'' \<and> v_phase v = ''running''
                    then v\<lparr>v_phase := ''error'', v_code := ''AGENT_STOPPED''\<rparr>
                    else if \<not> success \<and> v_phase v = ''working''
                    then v\<lparr>v_phase := ''error'', v_code := ''RUNTIME_FAILED''\<rparr> else v)
           in s\<lparr>t_ctrl := c\<lparr>c_view := v\<rparr>\<rparr>
      else s)"

text \<open>Where a worker stands: before the start, with a started process, with a process that passed the second
  permission check, attached to the controller, cleared for the gate, and past it.\<close>

datatype worker =
    Starting tunnel_request
  | Spawned tunnel_request nat string
  | Checked tunnel_request nat string
  | Attached tunnel_request nat
  | Cleared tunnel_request nat
  | Running tunnel_request nat

fun worker_req :: "worker \<Rightarrow> tunnel_request" where
  "worker_req (Starting r) = r"
| "worker_req (Spawned r j p) = r"
| "worker_req (Checked r j p) = r"
| "worker_req (Attached r j) = r"
| "worker_req (Cleared r j) = r"
| "worker_req (Running r j) = r"

fun worker_job :: "worker \<Rightarrow> nat option" where
  "worker_job (Starting r) = None"
| "worker_job (Spawned r j p) = Some j"
| "worker_job (Checked r j p) = Some j"
| "worker_job (Attached r j) = Some j"
| "worker_job (Cleared r j) = Some j"
| "worker_job (Running r j) = Some j"

fun worker_attached :: "worker \<Rightarrow> bool" where
  "worker_attached (Attached r j) = True"
| "worker_attached (Cleared r j) = True"
| "worker_attached (Running r j) = True"
| "worker_attached _ = False"

record 'c tunnel_world =
  tw_state :: "'c tunnel_state"
  tw_workers :: "worker set"

definition tw_init :: "'c config_state \<Rightarrow> string \<Rightarrow> 'c tunnel_world" where
  "tw_init c origin = \<lparr>tw_state = config_state.extend c \<lparr>t_ctrl = controller_init, t_local_origin = origin, t_jobs = []\<rparr>,
     tw_workers = {}\<rparr>"

text \<open>\<open>outside\<close> is any change of the configuration or of the approved origin.\<close>

inductive tunnel_step ::
    "('c, 'd) config_api \<Rightarrow> (string \<Rightarrow> url option) \<Rightarrow> (string \<Rightarrow> tunnel_request option) \<Rightarrow> runtime_env
       \<Rightarrow> 'c tunnel_world \<Rightarrow> 'c tunnel_world \<Rightarrow> bool" for api url_parse json re where
  outside: "tunnel_step api url_parse json re \<lparr>tw_state = s, tw_workers = W\<rparr>
    \<lparr>tw_state = s\<lparr>cfg_store := c, profile_confirmed := b, t_local_origin := origin\<rparr>, tw_workers = W\<rparr>"
| revoke: "tunnel_step api url_parse json re \<lparr>tw_state = s, tw_workers = W\<rparr>
    \<lparr>tw_state = invalidate_portal_permission s, tw_workers = W\<rparr>"
| command: "command api url_parse json value s = (s', None) \<Longrightarrow>
    tunnel_step api url_parse json re \<lparr>tw_state = s, tw_workers = W\<rparr> \<lparr>tw_state = s', tw_workers = W\<rparr>"
| command_worker: "command api url_parse json value s = (s', Some r) \<Longrightarrow>
    tunnel_step api url_parse json re \<lparr>tw_state = s, tw_workers = W\<rparr>
      \<lparr>tw_state = s', tw_workers = insert (Starting r) W\<rparr>"
| spawn_failed: "Starting r \<in> W \<Longrightarrow>
    tunnel_step api url_parse json re \<lparr>tw_state = s, tw_workers = W\<rparr>
      \<lparr>tw_state = worker_failed api url_parse r code s, tw_workers = W - {Starting r}\<rparr>"
| spawn: "Starting r \<in> W \<Longrightarrow> paths re r = Inr (helper, p) \<Longrightarrow> allowed api url_parse s r \<Longrightarrow>
    tunnel_step api url_parse json re \<lparr>tw_state = s, tw_workers = W\<rparr>
      \<lparr>tw_state = s\<lparr>t_jobs := t_jobs s @ [\<lparr>j_alive = True, j_gate = False\<rparr>]\<rparr>,
       tw_workers = insert (Spawned r (length (t_jobs s)) p) (W - {Starting r})\<rparr>"
| recheck_refused: "Spawned r j p \<in> W \<Longrightarrow> \<not> allowed api url_parse s r \<Longrightarrow>
    tunnel_step api url_parse json re \<lparr>tw_state = s, tw_workers = W\<rparr>
      \<lparr>tw_state = s\<lparr>t_jobs := terminate j (t_jobs s)\<rparr>, tw_workers = W - {Spawned r j p}\<rparr>"
| recheck: "Spawned r j p \<in> W \<Longrightarrow> allowed api url_parse s r \<Longrightarrow>
    tunnel_step api url_parse json re \<lparr>tw_state = s, tw_workers = W\<rparr>
      \<lparr>tw_state = s, tw_workers = insert (Checked r j p) (W - {Spawned r j p})\<rparr>"
| attach_refused: "Checked r j p \<in> W \<Longrightarrow> attach r j p s = (False, s') \<Longrightarrow>
    tunnel_step api url_parse json re \<lparr>tw_state = s, tw_workers = W\<rparr>
      \<lparr>tw_state = s', tw_workers = W - {Checked r j p}\<rparr>"
| attach: "Checked r j p \<in> W \<Longrightarrow> attach r j p s = (True, s') \<Longrightarrow>
    tunnel_step api url_parse json re \<lparr>tw_state = s, tw_workers = W\<rparr>
      \<lparr>tw_state = s', tw_workers = insert (Attached r j) (W - {Checked r j p})\<rparr>"
| gate_refused: "Attached r j \<in> W \<Longrightarrow> \<not> allowed api url_parse s r \<Longrightarrow>
    tunnel_step api url_parse json re \<lparr>tw_state = s, tw_workers = W\<rparr>
      \<lparr>tw_state = s\<lparr>t_jobs := terminate j (t_jobs s)\<rparr>, tw_workers = W - {Attached r j}\<rparr>"
| gate_allowed: "Attached r j \<in> W \<Longrightarrow> allowed api url_parse s r \<Longrightarrow>
    tunnel_step api url_parse json re \<lparr>tw_state = s, tw_workers = W\<rparr>
      \<lparr>tw_state = s, tw_workers = insert (Cleared r j) (W - {Attached r j})\<rparr>"
| gate_failed: "Cleared r j \<in> W \<Longrightarrow>
    tunnel_step api url_parse json re \<lparr>tw_state = s, tw_workers = W\<rparr>
      \<lparr>tw_state = worker_failed api url_parse r ''START_FAILED'' (if opened then open_gate j s else s),
       tw_workers = W - {Cleared r j}\<rparr>"
| gate: "Cleared r j \<in> W \<Longrightarrow>
    tunnel_step api url_parse json re \<lparr>tw_state = s, tw_workers = W\<rparr>
      \<lparr>tw_state = open_gate j s, tw_workers = insert (Running r j) (W - {Cleared r j})\<rparr>"
| line: "Running r j \<in> W \<Longrightarrow> on_line api url_parse (re_json re) r j l s = (Inr (), s') \<Longrightarrow>
    tunnel_step api url_parse json re \<lparr>tw_state = s, tw_workers = W\<rparr> \<lparr>tw_state = s', tw_workers = W\<rparr>"
| line_failed: "Running r j \<in> W \<Longrightarrow> on_line api url_parse (re_json re) r j l s = (Inl code, s') \<Longrightarrow>
    tunnel_step api url_parse json re \<lparr>tw_state = s, tw_workers = W\<rparr>
      \<lparr>tw_state = worker_failed api url_parse r code s', tw_workers = W - {Running r j}\<rparr>"
| read_failed: "Running r j \<in> W \<Longrightarrow>
    tunnel_step api url_parse json re \<lparr>tw_state = s, tw_workers = W\<rparr>
      \<lparr>tw_state = worker_failed api url_parse r ''RUNTIME_FAILED'' s, tw_workers = W - {Running r j}\<rparr>"
| exit: "Running r j \<in> W \<Longrightarrow>
    tunnel_step api url_parse json re \<lparr>tw_state = s, tw_workers = W\<rparr>
      \<lparr>tw_state = finish api url_parse r j success s, tw_workers = W - {Running r j}\<rparr>"

section \<open>What every interleaving keeps\<close>

text \<open>
  \<open>n\<close> bounds the commands so far, so that the serial has not wrapped.  Serials and processes belong to one
  worker each.  A process that is past the gate and alive is held by an attached worker; an attached
  worker's process, while alive, is the one the controller can kill, and then the worker is the current
  one.
\<close>

type_synonym core = "u64 \<times> string \<times> string set \<times> nat option \<times> job list"

definition tunnel_core :: "('c, 'z) tunnel_state_scheme \<Rightarrow> core" where
  "tunnel_core s =
     (c_serial (t_ctrl s), v_owner (c_view (t_ctrl s)), c_stopped (t_ctrl s), c_job (t_ctrl s), t_jobs s)"

fun core_current :: "core \<Rightarrow> tunnel_request \<Rightarrow> bool" where
  "core_current (serial, owner, stopped, held, js) r \<longleftrightarrow> owner = rq_owner r \<and> serial = rq_serial r"

fun core_take :: "core \<Rightarrow> core" where
  "core_take (serial, owner, stopped, None, js) = (serial, owner, stopped, None, js)"
| "core_take (serial, owner, stopped, Some j, js) = (serial, owner, stopped, None, terminate j js)"

text \<open>The parts of the invariant: serials, ownership of processes, attached workers, workers before the
  attachment, and processes past the gate.\<close>

definition serials_ok :: "nat \<Rightarrow> u64 \<Rightarrow> worker set \<Rightarrow> bool" where
  "serials_ok n serial W \<longleftrightarrow> unat serial \<le> n \<and> (\<forall>x \<in> W. unat (rq_serial (worker_req x)) \<le> unat serial)
     \<and> inj_on (\<lambda>x. rq_serial (worker_req x)) W"

definition jobs_ok :: "nat \<Rightarrow> worker set \<Rightarrow> bool" where
  "jobs_ok m W \<longleftrightarrow> (\<forall>x \<in> W. \<forall>j. worker_job x = Some j \<longrightarrow> j < m)
     \<and> (\<forall>x \<in> W. \<forall>y \<in> W. \<forall>j. worker_job x = Some j \<and> worker_job y = Some j \<longrightarrow> x = y)"

definition attached_ok :: "u64 \<Rightarrow> string \<Rightarrow> nat option \<Rightarrow> job list \<Rightarrow> worker set \<Rightarrow> bool" where
  "attached_ok serial owner held js W \<longleftrightarrow>
     (\<forall>x \<in> W. \<forall>j. worker_attached x \<and> worker_job x = Some j \<longrightarrow>
        (j_alive (js ! j) \<longrightarrow> held = Some j)
        \<and> (held = Some j \<longrightarrow> owner = rq_owner (worker_req x) \<and> serial = rq_serial (worker_req x)))"

definition waiting_ok :: "nat option \<Rightarrow> job list \<Rightarrow> worker set \<Rightarrow> bool" where
  "waiting_ok held js W \<longleftrightarrow>
     (\<forall>x \<in> W. \<forall>j. \<not> worker_attached x \<and> worker_job x = Some j \<longrightarrow> \<not> j_gate (js ! j) \<and> held \<noteq> Some j)"

definition gates_ok :: "job list \<Rightarrow> worker set \<Rightarrow> bool" where
  "gates_ok js W \<longleftrightarrow>
     (\<forall>j < length js. j_alive (js ! j) \<and> j_gate (js ! j) \<longrightarrow> (\<exists>x \<in> W. worker_attached x \<and> worker_job x = Some j))"

fun core_inv :: "nat \<Rightarrow> core \<Rightarrow> worker set \<Rightarrow> bool" where
  "core_inv n (serial, owner, stopped, held, js) W \<longleftrightarrow>
     serials_ok n serial W \<and> jobs_ok (length js) W \<and> attached_ok serial owner held js W
   \<and> waiting_ok held js W \<and> gates_ok js W \<and> (\<forall>j. held = Some j \<longrightarrow> j < length js)
   \<and> (owner \<noteq> [] \<longrightarrow> owner \<notin> stopped)"

definition tunnel_inv :: "nat \<Rightarrow> 'c tunnel_world \<Rightarrow> bool" where
  "tunnel_inv n w \<longleftrightarrow> core_inv n (tunnel_core (tw_state w)) (tw_workers w)"

text \<open>The operations, seen through the core.\<close>

lemma is_current_core: "is_current (t_ctrl s) r \<longleftrightarrow> core_current (tunnel_core s) r"
  by (simp add: is_current_def tunnel_core_def)

lemma core_update [simp]: "tunnel_core (update api up r ph cd dv ag s) = tunnel_core s"
  by (simp add: tunnel_core_def update_def Let_def)

lemma core_note [simp]: "tunnel_core (note_registration r f s) = tunnel_core s"
  by (simp add: tunnel_core_def note_registration_def)

lemma core_take_job: "tunnel_core (take_job s) = core_take (tunnel_core s)"
  by (simp add: tunnel_core_def take_job_def split: option.split)

lemma core_worker_failed:
  "tunnel_core (worker_failed api up r code s) =
     (if core_current (tunnel_core s) r then core_take (tunnel_core s) else tunnel_core s)"
  by (simp add: worker_failed_def core_take_job is_current_core)

lemma core_stop_view:
  "tunnel_core (s\<lparr>t_ctrl := stop_view (t_ctrl s)\<rparr>) =
     (case tunnel_core s of (serial, owner, stopped, held, js) \<Rightarrow> (serial + 1, [], stopped, held, js))"
  by (simp add: tunnel_core_def stop_view_def)

lemma length_terminate [simp]: "length (terminate j js) = length js"
  by (simp add: terminate_def)

lemma terminate_nth:
  "i < length js \<Longrightarrow> j_alive (terminate j js ! i) \<longleftrightarrow> j_alive (js ! i) \<and> i \<noteq> j"
  "i < length js \<Longrightarrow> j_gate (terminate j js ! i) \<longleftrightarrow> j_gate (js ! i)"
  by (auto simp: terminate_def nth_list_update)

lemma core_on_line:
  assumes "on_line api up json r j l s = (res, s')"
  shows "tunnel_core s' = tunnel_core s \<and> res = Inr () \<or>
    (\<exists>code. res = Inl code \<and> tunnel_core s' =
       (case tunnel_core s of (serial, owner, stopped, held, js) \<Rightarrow> (serial, owner, stopped, held, terminate j js)))"
  using assms unfolding on_line_def
  by (auto simp: Let_def tunnel_core_def[of "s\<lparr>t_jobs := _\<rparr>"] split: if_splits option.splits)
     (simp_all add: tunnel_core_def)

text \<open>What happens to the invariant, action by action.\<close>

lemma serials_ok_sub: "serials_ok n serial W \<Longrightarrow> V \<subseteq> W \<Longrightarrow> serials_ok n serial V"
  by (auto simp: serials_ok_def intro: inj_on_subset)

lemma jobs_ok_sub: "jobs_ok m W \<Longrightarrow> V \<subseteq> W \<Longrightarrow> jobs_ok m V"
  unfolding jobs_ok_def by blast

lemma attached_ok_sub: "attached_ok serial owner held js W \<Longrightarrow> V \<subseteq> W \<Longrightarrow> attached_ok serial owner held js V"
  unfolding attached_ok_def by blast

lemma waiting_ok_sub: "waiting_ok held js W \<Longrightarrow> V \<subseteq> W \<Longrightarrow> waiting_ok held js V"
  unfolding waiting_ok_def by blast

lemmas parts_sub = serials_ok_sub jobs_ok_sub attached_ok_sub waiting_ok_sub

text \<open>Killing a process, with or without letting go of it.\<close>

lemma attached_ok_kill:
  assumes "attached_ok serial owner held js W" and "jobs_ok (length js) W"
    and "held' = held \<or> held' = None \<and> (\<forall>i. held = Some i \<longrightarrow> i = j)"
  shows "attached_ok serial owner held' (terminate j js) W"
  unfolding attached_ok_def
proof (intro ballI allI impI)
  fix x i assume x: "x \<in> W" "worker_attached x \<and> worker_job x = Some i"
  then have "i < length js" using assms(2) by (auto simp: jobs_ok_def)
  moreover have "(j_alive (js ! i) \<longrightarrow> held = Some i)
      \<and> (held = Some i \<longrightarrow> owner = rq_owner (worker_req x) \<and> serial = rq_serial (worker_req x))"
    using assms(1) x unfolding attached_ok_def by blast
  ultimately show "(j_alive (terminate j js ! i) \<longrightarrow> held' = Some i)
      \<and> (held' = Some i \<longrightarrow> owner = rq_owner (worker_req x) \<and> serial = rq_serial (worker_req x))"
    using assms(3) by (auto simp: terminate_nth)
qed

lemma waiting_ok_kill:
  assumes "waiting_ok held js W" and "jobs_ok (length js) W" and "held' = held \<or> held' = None"
  shows "waiting_ok held' (terminate j js) W"
  using assms unfolding waiting_ok_def jobs_ok_def by (metis option.distinct(1) terminate_nth(2))

lemma gates_ok_kill: "gates_ok js W \<Longrightarrow> gates_ok (terminate j js) W"
  by (auto simp: gates_ok_def terminate_nth)

lemma gates_ok_drop:
  assumes "gates_ok js W" and "\<forall>j. worker_attached x \<and> worker_job x = Some j \<longrightarrow> \<not> j_alive (js ! j)"
  shows "gates_ok js (W - {x})"
  using assms unfolding gates_ok_def by (metis DiffI singletonD)

lemma inv_drop:
  assumes "core_inv n (serial, owner, stopped, held, js) W"
    and "\<forall>j. worker_attached x \<and> worker_job x = Some j \<longrightarrow> \<not> j_alive (js ! j)"
  shows "core_inv n (serial, owner, stopped, held, js) (W - {x})"
  using assms by (auto intro: parts_sub gates_ok_drop)

lemma inv_kill:
  assumes "core_inv n (serial, owner, stopped, held, js) W"
    and "held' = held \<or> held' = None \<and> (\<forall>i. held = Some i \<longrightarrow> i = j)"
  shows "core_inv n (serial, owner, stopped, held', terminate j js) W"
  using assms attached_ok_kill[of serial owner held js W held' j] waiting_ok_kill[of held js W held' j]
  by (auto intro: gates_ok_kill)

lemma inv_take: "core_inv n c W \<Longrightarrow> core_inv n (core_take c) W"
proof (cases c rule: core_take.cases)
  case (2 serial owner stopped j js)
  assume "core_inv n c W"
  from inv_kill[OF this[unfolded 2], of None j] 2 show ?thesis by simp
qed simp

lemma inv_kill_drop:
  assumes "core_inv n (serial, owner, stopped, held, js) W" and "x \<in> W" and "worker_job x = Some j"
    and "held' = held \<or> held' = None \<and> (\<forall>i. held = Some i \<longrightarrow> i = j)"
  shows "core_inv n (serial, owner, stopped, held', terminate j js) (W - {x})"
proof (rule inv_drop[OF inv_kill[OF assms(1,4)]])
  have "j < length js" using assms(1-3) by (auto simp: jobs_ok_def)
  then show "\<forall>i. worker_attached x \<and> worker_job x = Some i \<longrightarrow> \<not> j_alive (terminate j js ! i)"
    using assms(3) by (simp add: terminate_nth)
qed

text \<open>A new serial, after the held process was killed.\<close>

lemma attached_ok_dead:
  assumes "attached_ok serial owner None js W"
  shows "attached_ok serial' owner' None js W"
  using assms unfolding attached_ok_def by simp

lemma inv_new_serial:
  assumes "core_inv n (serial, owner, stopped, None, js) W" and "n < 2 ^ 64 - 1"
    and "owner' \<noteq> [] \<longrightarrow> owner' \<notin> stopped"
  shows "core_inv (Suc n) (serial + 1, owner', stopped, None, js) W"
    and "rq_serial r = serial + 1 \<Longrightarrow> core_inv (Suc n) (serial + 1, owner', stopped, None, js) (insert (Starting r) W)"
proof -
  have s: "serials_ok n serial W" using assms(1) by simp
  have plus: "unat (serial + 1) = Suc (unat serial)"
    using s assms(2) by (simp add: serials_ok_def unat_plus_if')
  have ok: "serials_ok (Suc n) (serial + 1) W" using s plus by (auto simp: serials_ok_def)
  then show "core_inv (Suc n) (serial + 1, owner', stopped, None, js) W"
    using assms(1,3) attached_ok_dead by auto
  assume r: "rq_serial r = serial + 1"
  have "rq_serial (worker_req x) \<noteq> rq_serial r" if "x \<in> W" for x
    using s that plus r unfolding serials_ok_def by (metis Suc_n_not_le_n)
  then have "serials_ok (Suc n) (serial + 1) (insert (Starting r) W)"
    using ok r plus unfolding serials_ok_def inj_on_insert by fastforce
  then show "core_inv (Suc n) (serial + 1, owner', stopped, None, js) (insert (Starting r) W)"
    using assms(1,3) attached_ok_dead[of serial owner js W "serial + 1" owner']
    by (auto simp: jobs_ok_def attached_ok_def waiting_ok_def gates_ok_def)
qed

text \<open>A worker moves on without touching the processes.\<close>

lemma inv_move:
  assumes "core_inv n (serial, owner, stopped, held, js) W" and "x \<in> W"
    and "worker_req y = worker_req x" and "worker_job y = worker_job x" and "worker_attached y = worker_attached x"
  shows "core_inv n (serial, owner, stopped, held, js) (insert y (W - {x}))"
proof -
  have "serials_ok n serial (insert y (W - {x}))"
    using assms(1-3) by (auto simp: serials_ok_def inj_on_def)
  moreover have "jobs_ok (length js) (insert y (W - {x}))"
    using assms(1,2,4) by (auto simp: jobs_ok_def)
  moreover have "attached_ok serial owner held js (insert y (W - {x}))"
    using assms by (auto simp: attached_ok_def)
  moreover have "waiting_ok held js (insert y (W - {x}))"
    using assms by (auto simp: waiting_ok_def)
  moreover have "gates_ok js (insert y (W - {x}))"
    using assms unfolding core_inv.simps gates_ok_def by (metis insertCI insertE insert_Diff)
  ultimately show ?thesis using assms(1) by simp
qed

lemma inv_spawn:
  assumes "core_inv n (serial, owner, stopped, held, js) W" and "Starting r \<in> W"
  shows "core_inv n (serial, owner, stopped, held, js @ [\<lparr>j_alive = True, j_gate = False\<rparr>])
    (insert (Spawned r (length js) p) (W - {Starting r}))"
proof -
  let ?y = "Spawned r (length js) p" and ?js = "js @ [\<lparr>j_alive = True, j_gate = False\<rparr>]"
  have in_range: "j < length js" if "x \<in> W" "worker_job x = Some j" for x j
    using assms(1) that by (auto simp: jobs_ok_def)
  have "serials_ok n serial (insert ?y (W - {Starting r}))"
    using assms by (auto simp: serials_ok_def inj_on_def)
  moreover have "jobs_ok (length ?js) (insert ?y (W - {Starting r}))"
    using assms(1) in_range by (fastforce simp: jobs_ok_def)
  moreover have "attached_ok serial owner held ?js (insert ?y (W - {Starting r}))"
    using assms(1) in_range by (auto simp: attached_ok_def nth_append)
  moreover have "waiting_ok held ?js (insert ?y (W - {Starting r}))"
    using assms(1) in_range by (auto simp: waiting_ok_def nth_append)
  moreover have "gates_ok ?js (insert ?y (W - {Starting r}))"
    using assms(1) unfolding core_inv.simps gates_ok_def
    by (auto simp: nth_append less_Suc_eq) (metis DiffI singletonD worker_attached.simps(4))+
  ultimately show ?thesis using assms(1) by (auto simp: less_SucI)
qed

lemma inv_attach:
  assumes "core_inv n (serial, owner, stopped, held, js) W" and "Checked r j p \<in> W"
    and "owner = rq_owner r" and "serial = rq_serial r"
  shows "core_inv n (serial, owner, stopped, Some j, js) (insert (Attached r j) (W - {Checked r j p}))"
proof -
  let ?V = "insert (Attached r j) (W - {Checked r j p})"
  have j: "j < length js" using assms(1,2) by (force simp: jobs_ok_def)
  have other: "\<not> j_alive (js ! i) \<and> i \<noteq> j"
    if "x \<in> W" "worker_attached x" "worker_job x = Some i" for x i
  proof -
    have "x \<noteq> Checked r j p" using that(2) by auto
    then have "rq_serial (worker_req x) \<noteq> serial" "i \<noteq> j"
      using assms(1,2,4) that
      by (auto simp: serials_ok_def inj_on_def jobs_ok_def)
    with assms(1) that show ?thesis unfolding core_inv.simps attached_ok_def by metis
  qed
  have "serials_ok n serial ?V"
    using assms(1,2) by (auto simp: serials_ok_def inj_on_def)
  moreover have "jobs_ok (length js) ?V"
    using assms(1,2) j by (auto simp: jobs_ok_def)
  moreover have "attached_ok serial owner (Some j) js ?V"
    using assms(3,4) other by (auto simp: attached_ok_def)
  moreover have "waiting_ok (Some j) js ?V"
    using assms(1,2) unfolding core_inv.simps waiting_ok_def jobs_ok_def
    by (metis DiffE insertE option.inject singletonI worker_attached.simps(1) worker_job.simps(3))
  moreover have "gates_ok js ?V"
    using assms(1) other unfolding core_inv.simps gates_ok_def by blast
  ultimately show ?thesis using assms(1) j by simp
qed

lemma inv_gate:
  assumes "core_inv n (serial, owner, stopped, held, js) W" and "x \<in> W" and "worker_attached x" and "worker_job x = Some j"
  shows "core_inv n (serial, owner, stopped, held, js[j := (js ! j)\<lparr>j_gate := True\<rparr>]) W"
proof -
  let ?js = "js[j := (js ! j)\<lparr>j_gate := True\<rparr>]"
  have j: "j < length js" using assms(1,2,4) by (auto simp: jobs_ok_def)
  have alive: "j_alive (?js ! i) = j_alive (js ! i)" for i by (cases "i = j") (simp_all add: j)
  have gate: "j_gate (?js ! i) = (j_gate (js ! i) \<or> i = j)" for i by (cases "i = j") (simp_all add: j)
  have "attached_ok serial owner held ?js W" using assms(1) by (simp add: attached_ok_def alive)
  moreover have "waiting_ok held ?js W"
    using assms unfolding core_inv.simps waiting_ok_def jobs_ok_def gate by metis
  moreover have "gates_ok ?js W"
    using assms unfolding core_inv.simps gates_ok_def alive gate by auto
  ultimately show ?thesis using assms(1) by simp
qed

text \<open>The held process is forgotten once its worker is gone.\<close>

lemma inv_forget:
  assumes "core_inv n (serial, owner, stopped, held, js) W" and "\<forall>y \<in> W. rq_serial (worker_req y) \<noteq> serial"
  shows "core_inv n (serial, owner, stopped, None, js) W"
proof -
  have "attached_ok serial owner None js W"
    using assms unfolding core_inv.simps attached_ok_def by (metis option.distinct(1))
  with assms(1) show ?thesis by (auto simp: waiting_ok_def)
qed

lemma inv_finish:
  assumes "core_inv n (serial, owner, stopped, held, js) W" and "x \<in> W" and "worker_job x = Some j"
    and "serial = rq_serial (worker_req x)"
  shows "core_inv n (serial, owner, stopped, None, terminate j js) (W - {x})"
proof (rule inv_forget)
  show "core_inv n (serial, owner, stopped, held, terminate j js) (W - {x})"
    using inv_kill_drop[OF assms(1-3)] by blast
  show "\<forall>y \<in> W - {x}. rq_serial (worker_req y) \<noteq> serial"
    using assms(1,2,4) by (auto simp: serials_ok_def inj_on_def)
qed

text \<open>A worker that fails after the attachment leaves no live process past the gate.\<close>

lemma inv_fail_drop:
  assumes "core_inv n c W" and "x \<in> W" and "c' = (if core_current c (worker_req x) then core_take c else c)"
  shows "core_inv n c' (W - {x})"
proof -
  obtain serial owner stopped held js where c: "c = (serial, owner, stopped, held, js)" by (cases c)
  show ?thesis
  proof (cases "core_current c (worker_req x)")
    case False
    have "\<not> j_alive (js ! j)" if "worker_attached x" "worker_job x = Some j" for j
      using assms(1,2) False that by (auto simp: c attached_ok_def)
    moreover have "c' = c" using assms(3) False by simp
    ultimately show ?thesis using inv_drop[of n serial owner stopped held js W x] assms(1) unfolding c by blast
  next
    case True
    show ?thesis
    proof (cases held)
      case None
      have "\<not> j_alive (js ! j)" if "worker_attached x" "worker_job x = Some j" for j
        using assms(1,2) None that by (auto simp: c attached_ok_def)
      then show ?thesis
        using inv_drop[of n serial owner stopped held js W x] assms(1,3) True by (simp add: c None)
    next
      case (Some i)
      have k: "core_inv n (serial, owner, stopped, None, terminate i js) W"
        using inv_take[OF assms(1)] by (simp add: c Some)
      have "\<not> j_alive (terminate i js ! j)" if "worker_attached x" "worker_job x = Some j" for j
      proof -
        have "j < length js" using assms(1,2) that by (auto simp: c jobs_ok_def)
        moreover have "j_alive (js ! j) \<longrightarrow> i = j" using assms(1,2) that Some by (auto simp: c attached_ok_def)
        ultimately show ?thesis by (auto simp: terminate_nth)
      qed
      then show ?thesis
        using inv_drop[OF k, of x] assms(3) True by (simp add: c Some)
    qed
  qed
qed

lemma inv_mono: "core_inv n c W \<Longrightarrow> core_inv (Suc n) c W"
  by (cases c) (auto simp: serials_ok_def)

lemma core_outside [simp]:
  "tunnel_core (s\<lparr>cfg_store := c, profile_confirmed := b, t_local_origin := origin\<rparr>) = tunnel_core s"
  by (simp add: tunnel_core_def)

lemma core_take_parts:
  "\<exists>js'. core_take (serial, owner, stopped, held, js) = (serial, owner, stopped, None, js')"
  by (cases held) auto

text \<open>Revocation: the owner is stopped, the held process killed and the serial moves on.\<close>

lemma inv_stop:
  assumes "core_inv n (serial, owner, stopped, held, js) W" and "n < 2 ^ 64 - 1"
    and "owner = [] \<or> owner \<in> stopped'" and "core_take (serial, owner, stopped', held, js) = (serial, owner, stopped', None, js')"
  shows "core_inv (Suc n) (serial + 1, [], stopped', None, js') W"
proof -
  have "core_inv n (serial, [], {}, None, js') W"
    using inv_take[OF assms(1)] assms(4) by (cases held) (auto simp: attached_ok_def)
  from inv_new_serial(1)[OF this assms(2), of "[]"] show ?thesis by simp
qed

lemma core_stop_all:
  obtains js' where "core_take (tunnel_core s) = (c_serial (t_ctrl s), v_owner (c_view (t_ctrl s)), c_stopped (t_ctrl s), None, js')"
    "tunnel_core (stop_all s) = (c_serial (t_ctrl s) + 1, [],
       (if v_owner (c_view (t_ctrl s)) \<noteq> [] then insert (v_owner (c_view (t_ctrl s))) (c_stopped (t_ctrl s))
        else c_stopped (t_ctrl s)), None, js')"
  by (cases "c_job (t_ctrl s)")
    (auto simp: stop_all_def Let_def take_job_def stop_view_def tunnel_core_def)

lemma core_epoch [simp]: "tunnel_core (s\<lparr>portal_permission_epoch := e\<rparr>) = tunnel_core s"
  by (simp add: tunnel_core_def)

lemma inv_stop_all:
  assumes "core_inv n (tunnel_core s) W" and "n < 2 ^ 64 - 1"
  shows "core_inv (Suc n) (tunnel_core (stop_all s)) W"
proof -
  obtain js' where js': "core_take (tunnel_core s) = (c_serial (t_ctrl s), v_owner (c_view (t_ctrl s)), c_stopped (t_ctrl s), None, js')"
    "tunnel_core (stop_all s) = (c_serial (t_ctrl s) + 1, [],
       (if v_owner (c_view (t_ctrl s)) \<noteq> [] then insert (v_owner (c_view (t_ctrl s))) (c_stopped (t_ctrl s))
        else c_stopped (t_ctrl s)), None, js')"
    by (rule core_stop_all)
  show ?thesis unfolding js'(2)
    by (rule inv_stop[OF assms(1)[unfolded tunnel_core_def] assms(2)])
      (use js'(1) in \<open>cases "c_job (t_ctrl s)"; auto simp: tunnel_core_def\<close>)+
qed

lemma command_core:
  assumes "command api up json value s = (s', res)" and "core_inv n (tunnel_core s) W" and "n < 2 ^ 64 - 1"
  shows "case res of
      None \<Rightarrow> core_inv (Suc n) (tunnel_core s') W
    | Some r \<Rightarrow> core_inv (Suc n) (tunnel_core s') (insert (Starting r) W)"
proof -
  obtain serial owner stopped held js where c: "tunnel_core s = (serial, owner, stopped, held, js)"
    by (cases "tunnel_core s")
  obtain js' where take: "core_take (serial, owner, X, held, js) = (serial, owner, X, None, js')" for X
    by (cases held) auto
  have parts: "c_serial (t_ctrl s) = serial" "v_owner (c_view (t_ctrl s)) = owner" "c_stopped (t_ctrl s) = stopped"
    "c_job (t_ctrl s) = held" "t_jobs s = js" using c by (simp_all add: tunnel_core_def)
  have same: ?thesis if "s' = s" "res = None" using that inv_mono[OF assms(2)] by simp
  show ?thesis
  proof (cases "json value")
    case None
    with assms(1) show ?thesis by (intro same) (auto simp: command_def split: if_splits)
  next
    case (Some r)
    consider (ignored) "s' = s" "res = None"
      | (stop_other) "res = None" "owner \<noteq> rq_owner r"
          "tunnel_core s' = (serial, owner, insert (rq_owner r) stopped, held, js)"
      | (stop) "res = None" "owner = rq_owner r"
          "tunnel_core s' = (serial + 1, [], insert (rq_owner r) stopped, None, js')"
      | (start) "res = Some (r\<lparr>rq_serial := serial + 1\<rparr>)" "rq_owner r \<notin> stopped"
          "tunnel_core s' = (serial + 1, rq_owner r, stopped, None, js')"
      using assms(1) Some take[of stopped] take[of "insert (rq_owner r) stopped"] unfolding command_def
      by (cases held)
        (auto simp: Let_def take_job_def stop_view_def tunnel_core_def parts split: if_splits)
    then show ?thesis
    proof cases
      case ignored
      then show ?thesis by (rule same)
    next
      case stop_other
      with assms(2) show ?thesis by (auto simp: c serials_ok_def)
    next
      case stop
      show ?thesis
        using inv_stop[OF assms(2)[unfolded c] assms(3) _ take, of "insert (rq_owner r) stopped"] stop by simp
    next
      case start
      have "core_inv n (serial, owner, stopped, None, js') W"
        using inv_take[OF assms(2)] by (simp add: c take)
      from inv_new_serial(2)[OF this assms(3), of "rq_owner r" "r\<lparr>rq_serial := serial + 1\<rparr>"] start
      show ?thesis by simp
    qed
  qed
qed

declare core_inv.simps [simp del]

lemma core_finish:
  "tunnel_core (finish api up r j success s) =
     (c_serial (t_ctrl s), v_owner (c_view (t_ctrl s)), c_stopped (t_ctrl s),
      c_job (t_ctrl (finish api up r j success s)), terminate j (t_jobs s))"
  by (simp add: finish_def Let_def tunnel_core_def)

lemma tunnel_inv_step:
  assumes "tunnel_step api up json re w w'" and "tunnel_inv n w" and "n < 2 ^ 64 - 1"
  shows "tunnel_inv (Suc n) w'"
  using assms(1)
proof cases
  case (revoke s W)
  then show ?thesis
    using assms(2,3) inv_stop_all[of n "s\<lparr>portal_permission_epoch := portal_permission_epoch s + 1\<rparr>" W]
    by (simp add: tunnel_inv_def invalidate_portal_permission_def)
next
  case (command val s s' W)
  with command_core[OF command(3), of n W] assms(2,3) show ?thesis by (simp add: tunnel_inv_def)
next
  case (command_worker val s s' r W)
  with command_core[OF command_worker(3), of n W] assms(2,3) show ?thesis by (simp add: tunnel_inv_def)
next
  case (spawn_failed r W s code)
  then show ?thesis
    using assms(2) by (auto simp: tunnel_inv_def core_worker_failed intro!: inv_mono inv_fail_drop)
next
  case (spawn r W helper p s)
  with assms(2) show ?thesis by (auto simp: tunnel_inv_def tunnel_core_def intro!: inv_mono[OF inv_spawn])
next
  case (recheck_refused r j p W s)
  with assms(2) show ?thesis by (auto simp: tunnel_inv_def tunnel_core_def intro!: inv_mono[OF inv_kill_drop])
next
  case (recheck r j p W s)
  with assms(2) show ?thesis by (auto simp: tunnel_inv_def tunnel_core_def intro!: inv_mono[OF inv_move])
next
  case (attach_refused r j p W s s')
  with assms(2) show ?thesis
    by (auto simp: tunnel_inv_def tunnel_core_def attach_def split: if_splits intro!: inv_mono[OF inv_kill_drop])
next
  case (attach r j p W s s')
  with assms(2) show ?thesis
    by (auto simp: tunnel_inv_def tunnel_core_def attach_def is_current_def split: if_splits
        intro!: inv_mono[OF inv_attach])
next
  case (gate_refused r j W s)
  with assms(2) show ?thesis by (auto simp: tunnel_inv_def tunnel_core_def intro!: inv_mono[OF inv_kill_drop])
next
  case (gate_allowed r j W s)
  with assms(2) show ?thesis by (auto simp: tunnel_inv_def tunnel_core_def intro!: inv_mono[OF inv_move])
next
  case (gate_failed r j W s opened)
  have "core_inv n (tunnel_core (if opened then open_gate j s else s)) W"
    using gate_failed assms(2) by (auto simp: tunnel_inv_def tunnel_core_def open_gate_def intro: inv_gate)
  with gate_failed show ?thesis
    by (auto simp: tunnel_inv_def core_worker_failed intro!: inv_mono inv_fail_drop)
next
  case (gate r j W s)
  have "core_inv n (tunnel_core (open_gate j s)) W"
    using gate assms(2) by (auto simp: tunnel_inv_def tunnel_core_def open_gate_def intro: inv_gate)
  with gate show ?thesis by (auto simp: tunnel_inv_def tunnel_core_def intro!: inv_mono[OF inv_move])
next
  case (line r j W l s s')
  with core_on_line[OF line(4)] assms(2) inv_mono show ?thesis by (simp add: tunnel_inv_def)
next
  case (line_failed r j W l s code s')
  with core_on_line[OF line_failed(4)] have "tunnel_core s' =
    (c_serial (t_ctrl s), v_owner (c_view (t_ctrl s)), c_stopped (t_ctrl s), c_job (t_ctrl s), terminate j (t_jobs s))"
    by (simp add: tunnel_core_def)
  then have "core_inv n (tunnel_core s') W"
    using line_failed assms(2) by (auto simp: tunnel_inv_def tunnel_core_def intro: inv_kill)
  with line_failed show ?thesis
    by (auto simp: tunnel_inv_def core_worker_failed intro!: inv_mono inv_fail_drop)
next
  case (read_failed r j W s)
  then show ?thesis
    using assms(2) by (auto simp: tunnel_inv_def core_worker_failed intro!: inv_mono inv_fail_drop)
next
  case (exit r j W s success)
  with assms(2) have inv: "core_inv n (tunnel_core s) W" by (simp add: tunnel_inv_def)
  show ?thesis
  proof (cases "c_job (t_ctrl (finish api up r j success s)) = c_job (t_ctrl s)")
    case True
    with exit inv show ?thesis by (auto simp: tunnel_inv_def core_finish tunnel_core_def[of s] intro!: inv_mono[OF inv_kill_drop])
  next
    case False
    then have "c_job (t_ctrl (finish api up r j success s)) = None" "c_serial (t_ctrl s) = rq_serial r"
      by (auto simp: finish_def Let_def is_current_def split: if_splits)
    with exit inv show ?thesis by (auto simp: tunnel_inv_def core_finish tunnel_core_def[of s] intro!: inv_mono[OF inv_finish])
  qed
qed (use assms(2) inv_mono in \<open>simp add: tunnel_inv_def\<close>)

lemma tunnel_inv_init: "tunnel_inv 0 (tw_init c origin)"
  by (simp add: tunnel_inv_def tw_init_def tunnel_core_def controller_init_def view_default_def config_state.defs
      core_inv.simps serials_ok_def jobs_ok_def attached_ok_def waiting_ok_def gates_ok_def)

lemma tunnel_inv_run:
  "(tunnel_step api up json re ^^ n) (tw_init c origin) w \<Longrightarrow> n < 2 ^ 64 \<Longrightarrow> tunnel_inv n w"
proof (induction n arbitrary: w)
  case 0
  then show ?case using tunnel_inv_init by auto
next
  case (Suc n)
  then obtain v where "(tunnel_step api up json re ^^ n) (tw_init c origin) v" "tunnel_step api up json re v w"
    by auto
  with Suc show ?case by (intro tunnel_inv_step[of api up json re v w n]) auto
qed

lemma gated_held:
  assumes "tunnel_inv n w" and "i < length (t_jobs (tw_state w))"
    and "j_alive (t_jobs (tw_state w) ! i)" and "j_gate (t_jobs (tw_state w) ! i)"
  shows "\<exists>r. c_job (t_ctrl (tw_state w)) = Some i \<and> is_current (t_ctrl (tw_state w)) r
    \<and> (Cleared r i \<in> tw_workers w \<or> Running r i \<in> tw_workers w \<or> Attached r i \<in> tw_workers w)"
proof -
  let ?s = "tw_state w"
  have g: "gates_ok (t_jobs ?s) (tw_workers w)"
    and a: "attached_ok (c_serial (t_ctrl ?s)) (v_owner (c_view (t_ctrl ?s))) (c_job (t_ctrl ?s)) (t_jobs ?s) (tw_workers w)"
    using assms(1) by (simp_all add: tunnel_inv_def tunnel_core_def core_inv.simps)
  from g assms(2-4) obtain x where x: "x \<in> tw_workers w" "worker_attached x" "worker_job x = Some i"
    unfolding gates_ok_def by blast
  with a assms(3) have "c_job (t_ctrl ?s) = Some i" "is_current (t_ctrl ?s) (worker_req x)"
    unfolding attached_ok_def is_current_def by blast+
  with x show ?thesis by (cases x) auto
qed

lemma stopped_step:
  "tunnel_step api up json re w w' \<Longrightarrow> c_stopped (t_ctrl (tw_state w)) \<subseteq> c_stopped (t_ctrl (tw_state w'))"
proof (induction rule: tunnel_step.induct)
  case (line r j W l s s')
  from core_on_line[OF line(2)] show ?case by (auto simp: tunnel_core_def)
next
  case (line_failed r j W l s code s')
  from core_on_line[OF line_failed(2)] show ?case
    by (auto simp: tunnel_core_def worker_failed_def update_def take_job_def Let_def split: option.split)
qed (auto simp: invalidate_portal_permission_def stop_all_def take_job_def stop_view_def command_def worker_failed_def
      update_def attach_def open_gate_def finish_def Let_def split: if_splits option.splits)

lemma stopped_run:
  "(tunnel_step api up json re ^^ n) w w' \<Longrightarrow> c_stopped (t_ctrl (tw_state w)) \<subseteq> c_stopped (t_ctrl (tw_state w'))"
  by (induction n arbitrary: w') (auto dest!: stopped_step)

lemma stop_all_gone:
  assumes "tunnel_inv n w"
  shows "c_job (t_ctrl (stop_all (tw_state w))) = None
    \<and> (\<forall>j < length (t_jobs (stop_all (tw_state w))).
         \<not> (j_alive (t_jobs (stop_all (tw_state w)) ! j) \<and> j_gate (t_jobs (stop_all (tw_state w)) ! j)))"
proof -
  have "c_job (t_ctrl (tw_state w)) = Some i"
    if "i < length (t_jobs (tw_state w))" "j_alive (t_jobs (tw_state w) ! i)" "j_gate (t_jobs (tw_state w) ! i)" for i
    using gated_held[OF assms that] by blast
  then show ?thesis
    by (cases "c_job (t_ctrl (tw_state w))")
      (auto simp: stop_all_def Let_def take_job_def stop_view_def terminate_nth)
qed

text \<open>A run that starts one process and lets it through the gate.\<close>

definition demo_request :: tunnel_request where
  "demo_request = \<lparr>rq_action = ''run'', rq_owner = replicate 32 CHR ''a'', rq_origin = ''https://home.example'',
     rq_user_id = ''00000000-0000-0000-0000-000000000000'', rq_permission = ''0'', rq_name = ''Home'',
     rq_registration = [], rq_serial = 1\<rparr>"

definition demo_url :: "string \<Rightarrow> url option" where
  "demo_url v = Some \<lparr>url_scheme = ''https'', url_host_str = Some ''home.example'', url_username = [], url_password = None,
     url_query = None, url_fragment = None, url_path = ''/'', url_port_or_known_default = Some 443,
     url_origin_ascii = ''https://home.example''\<rparr>"

definition demo_runtime :: runtime_env where
  "demo_runtime = \<lparr>re_windows = True,
     re_fs = \<lparr>fs_metadata = (\<lambda>_. Some \<lparr>md_file = True, md_dir = True, md_symlink = False, md_mode = 0, md_attributes = 0\<rparr>),
              fs_read = (\<lambda>_. Some []), fs_create_dir_all = (\<lambda>_. True)\<rparr>,
     re_sha256 = (\<lambda>_. replicate 64 CHR ''b''), re_exe = Some (''app'', ''homedesk.exe''), re_config_dir = Some ''cfg'',
     re_json = (\<lambda>_. Some [''version'' \<mapsto> ''1'', ''parent_executable'' \<mapsto> ''homedesk.exe'',
                     ''helper_sha256'' \<mapsto> replicate 64 CHR ''b'', ''agent_sha256'' \<mapsto> replicate 64 CHR ''b'']),
     re_compat = Some ([''version'' \<mapsto> ''2''], [''agent'' \<mapsto> ''1'', ''client'' \<mapsto> ''2'']), re_version = ''2''\<rparr>"

definition demo_tunnel :: "nat option \<Rightarrow> string option \<Rightarrow> job list \<Rightarrow> mem_store tunnel_state" where
  "demo_tunnel held path js = config_state.extend sample_state
     \<lparr>t_ctrl = \<lparr>c_view = view_default\<lparr>v_owner := replicate 32 CHR ''a'', v_phase := ''working''\<rparr>, c_serial = 1,
        c_stopped = {}, c_job = held, c_state_path = path\<rparr>,
      t_local_origin = ''https://home.example'', t_jobs = js\<rparr>"

lemma demo_allowed_at:
  "portal_permission_epoch s = 0 \<Longrightarrow> t_local_origin s = ''https://home.example'' \<Longrightarrow>
     allowed mem_api demo_url s demo_request"
proof -
  assume a: "portal_permission_epoch s = 0" "t_local_origin s = ''https://home.example''"
  have "valid_owner (rq_owner demo_request)" "valid_user (rq_user_id demo_request)"
    "normalize_portal_origin demo_url (rq_origin demo_request) = Some (rq_origin demo_request)"
    "show_nat 0 = ''0''"
    by code_simp+
  with a show ?thesis
    by (simp add: allowed_def config_home_tunnel_allowed_def home_tunnel_allowed_def home_tunnel_permission_def)
      (simp add: demo_request_def)
qed

lemma demo_paths: "\<exists>helper p. paths demo_runtime demo_request = Inr (helper, p)"
proof -
  have "isl (paths demo_runtime demo_request) = False" by code_simp
  then show ?thesis by (cases "paths demo_runtime demo_request") auto
qed

lemma demo_tunnel_run:
  obtains p where "(tunnel_step mem_api demo_url (\<lambda>_. Some demo_request) demo_runtime ^^ 6)
    (tw_init sample_state ''https://home.example'')
    \<lparr>tw_state = demo_tunnel (Some 0) (Some p) [\<lparr>j_alive = True, j_gate = True\<rparr>],
     tw_workers = {Running demo_request 0}\<rparr>"
proof -
  let ?step = "tunnel_step mem_api demo_url (\<lambda>_. Some demo_request) demo_runtime"
  let ?r = demo_request and ?s0 = "tw_state (tw_init sample_state ''https://home.example'')"
  let ?job = "\<lparr>j_alive = True, j_gate = False\<rparr>"
  have al: "allowed mem_api demo_url (demo_tunnel h p js) ?r" for h p js
    by (rule demo_allowed_at) (simp_all add: demo_tunnel_def config_state.defs sample_state_def)
  obtain helper p where path: "paths demo_runtime ?r = Inr (helper, p)" using demo_paths by blast
  have "?step (tw_init sample_state ''https://home.example'')
    \<lparr>tw_state = demo_tunnel None None [], tw_workers = {Starting ?r}\<rparr>"
  proof -
    have "allowed mem_api demo_url ?s0 ?r"
      by (rule demo_allowed_at) (simp_all add: tw_init_def config_state.defs sample_state_def)
    moreover have "valid_owner (rq_owner ?r)" "command_ok ?r" by code_simp+
    moreover have "rq_action ?r = ''run''" "?r\<lparr>rq_serial := 1\<rparr> = ?r" "rq_owner ?r = replicate 32 CHR ''a''"
      by (simp_all add: demo_request_def)
    ultimately have "command mem_api demo_url (\<lambda>_. Some ?r) [] ?s0 = (demo_tunnel None None [], Some ?r)"
      by (simp add: command_def Let_def tw_init_def config_state.defs controller_init_def take_job_def demo_tunnel_def)
    from command_worker[OF this, of demo_runtime "{}"] show ?thesis by (simp add: tw_init_def)
  qed
  moreover have "?step \<lparr>tw_state = demo_tunnel None None [], tw_workers = {Starting ?r}\<rparr>
    \<lparr>tw_state = demo_tunnel None None [?job], tw_workers = {Spawned ?r 0 p}\<rparr>"
    using spawn[OF _ path al[of None None "[]"], of "{Starting ?r}" "\<lambda>_. Some ?r"]
    by (simp add: demo_tunnel_def config_state.defs)
  moreover have "?step \<lparr>tw_state = demo_tunnel None None [?job], tw_workers = {Spawned ?r 0 p}\<rparr>
    \<lparr>tw_state = demo_tunnel None None [?job], tw_workers = {Checked ?r 0 p}\<rparr>"
    using recheck[OF _ al[of None None "[?job]"], of 0 p "{Spawned ?r 0 p}"] by simp
  moreover have "?step \<lparr>tw_state = demo_tunnel None None [?job], tw_workers = {Checked ?r 0 p}\<rparr>
    \<lparr>tw_state = demo_tunnel (Some 0) (Some p) [?job], tw_workers = {Attached ?r 0}\<rparr>"
  proof -
    have "attach ?r 0 p (demo_tunnel None None [?job]) = (True, demo_tunnel (Some 0) (Some p) [?job])"
      by (simp add: attach_def is_current_def demo_tunnel_def demo_request_def config_state.defs)
    from attach[OF _ this, of "{Checked ?r 0 p}"] show ?thesis by simp
  qed
  moreover have "?step \<lparr>tw_state = demo_tunnel (Some 0) (Some p) [?job], tw_workers = {Attached ?r 0}\<rparr>
    \<lparr>tw_state = demo_tunnel (Some 0) (Some p) [?job], tw_workers = {Cleared ?r 0}\<rparr>"
    using gate_allowed[OF _ al[of "Some 0" "Some p" "[?job]"], of 0 "{Attached ?r 0}"] by simp
  moreover have "?step \<lparr>tw_state = demo_tunnel (Some 0) (Some p) [?job], tw_workers = {Cleared ?r 0}\<rparr>
    \<lparr>tw_state = demo_tunnel (Some 0) (Some p) [?job\<lparr>j_gate := True\<rparr>], tw_workers = {Running ?r 0}\<rparr>"
    using gate[of ?r 0 "{Cleared ?r 0}" _ _ _ _ "demo_tunnel (Some 0) (Some p) [?job]"]
    by (simp add: open_gate_def demo_tunnel_def config_state.defs)
  ultimately show ?thesis by (intro that[of p]) (auto simp: numeral_eq_Suc intro!: relcomppI)
qed

section \<open>Properties\<close>

text \<open>\<^bold>\<open>C9\<close> (revocation is complete).  Whatever commands, revocations, workers and configuration
  changes interleave, after \<^verbatim>\<open>invalidate_portal_permission\<close> the controller holds no process, no
  process that was let through the gate is alive, the view has no owner, and the owner it had is barred.
  The bound is the number of steps after which the 64-bit serial could come round.\<close>

theorem tunnel_revocation_complete:
  assumes "(tunnel_step api up json re ^^ n) (tw_init c origin) w" and "n < 2 ^ 64"
    and "s' = invalidate_portal_permission (tw_state w)"
  shows "c_job (t_ctrl s') = None
    \<and> (\<forall>j < length (t_jobs s'). j_gate (t_jobs s' ! j) \<longrightarrow> \<not> j_alive (t_jobs s' ! j))
    \<and> v_owner (c_view (t_ctrl s')) = []
    \<and> (v_owner (c_view (t_ctrl (tw_state w))) \<noteq> [] \<longrightarrow>
         v_owner (c_view (t_ctrl (tw_state w))) \<in> c_stopped (t_ctrl s'))"
proof -
  have same: "t_ctrl s' = t_ctrl (stop_all (tw_state w))" "t_jobs s' = t_jobs (stop_all (tw_state w))"
    unfolding assms(3) invalidate_portal_permission_def
    by (simp_all add: stop_all_def Let_def take_job_def split: option.split)
  have "v_owner (c_view (t_ctrl s')) = []"
    and "v_owner (c_view (t_ctrl (tw_state w))) \<noteq> [] \<longrightarrow> v_owner (c_view (t_ctrl (tw_state w))) \<in> c_stopped (t_ctrl s')"
    unfolding same by (simp_all add: stop_all_def Let_def take_job_def stop_view_def split: option.split)
  with stop_all_gone[OF tunnel_inv_run[OF assms(1,2)]] show ?thesis unfolding same by blast
qed

theorem tunnel_revocation_complete_witness:
  "\<exists>w. (tunnel_step mem_api demo_url (\<lambda>_. Some demo_request) demo_runtime ^^ 6) (tw_init sample_state ''https://home.example'') w
     \<and> t_jobs (tw_state w) = [\<lparr>j_alive = True, j_gate = True\<rparr>]
     \<and> c_job (t_ctrl (tw_state w)) = Some 0
     \<and> c_job (t_ctrl (invalidate_portal_permission (tw_state w))) = None
     \<and> t_jobs (invalidate_portal_permission (tw_state w)) = [\<lparr>j_alive = False, j_gate = True\<rparr>]"
proof -
  obtain p where run: "(tunnel_step mem_api demo_url (\<lambda>_. Some demo_request) demo_runtime ^^ 6) (tw_init sample_state ''https://home.example'')
    \<lparr>tw_state = demo_tunnel (Some 0) (Some p) [\<lparr>j_alive = True, j_gate = True\<rparr>],
     tw_workers = {Running demo_request 0}\<rparr>" by (rule demo_tunnel_run)
  let ?s = "demo_tunnel (Some 0) (Some p) [\<lparr>j_alive = True, j_gate = True\<rparr>]"
  have "t_jobs (invalidate_portal_permission ?s) = [\<lparr>j_alive = False, j_gate = True\<rparr>]"
    by (simp add: invalidate_portal_permission_def stop_all_def Let_def take_job_def demo_tunnel_def config_state.defs
        terminate_def)
  moreover have "c_job (t_ctrl (invalidate_portal_permission ?s)) = None"
    using tunnel_revocation_complete[OF run _ refl] by simp
  moreover have "t_jobs ?s = [\<lparr>j_alive = True, j_gate = True\<rparr>]" "c_job (t_ctrl ?s) = Some 0"
    by (simp_all add: demo_tunnel_def config_state.defs)
  ultimately show ?thesis
    using run by (intro exI[of _ "\<lparr>tw_state = ?s, tw_workers = {Running demo_request 0}\<rparr>"]) simp
qed

text \<open>\<^bold>\<open>C19\<close> (one live process, held by the current request).  In every reachable state, a process that
  is alive past the gate is the one the controller holds, and it belongs to a worker whose request is the
  current one; so there is at most one.\<close>

theorem tunnel_single_process:
  assumes "(tunnel_step api up json re ^^ n) (tw_init c origin) w" and "n < 2 ^ 64"
    and "i < length (t_jobs (tw_state w))"
    and "j_alive (t_jobs (tw_state w) ! i)" and "j_gate (t_jobs (tw_state w) ! i)"
  shows "\<exists>r. c_job (t_ctrl (tw_state w)) = Some i \<and> is_current (t_ctrl (tw_state w)) r
    \<and> (Attached r i \<in> tw_workers w \<or> Cleared r i \<in> tw_workers w \<or> Running r i \<in> tw_workers w)"
  using gated_held[OF tunnel_inv_run[OF assms(1,2)] assms(3-5)] by blast

theorem tunnel_single_process_witness:
  "\<exists>w r. (tunnel_step mem_api demo_url (\<lambda>_. Some demo_request) demo_runtime ^^ 6) (tw_init sample_state ''https://home.example'') w
     \<and> j_alive (t_jobs (tw_state w) ! 0) \<and> is_current (t_ctrl (tw_state w)) r \<and> Running r 0 \<in> tw_workers w"
proof -
  obtain p where run: "(tunnel_step mem_api demo_url (\<lambda>_. Some demo_request) demo_runtime ^^ 6) (tw_init sample_state ''https://home.example'')
    \<lparr>tw_state = demo_tunnel (Some 0) (Some p) [\<lparr>j_alive = True, j_gate = True\<rparr>],
     tw_workers = {Running demo_request 0}\<rparr>" by (rule demo_tunnel_run)
  from tunnel_single_process[OF run, of 0] have
    "is_current (t_ctrl (demo_tunnel (Some 0) (Some p) [\<lparr>j_alive = True, j_gate = True\<rparr>])) demo_request"
    by (simp add: demo_tunnel_def config_state.defs)
  moreover have "t_jobs (demo_tunnel (Some 0) (Some p) [\<lparr>j_alive = True, j_gate = True\<rparr>]) =
      [\<lparr>j_alive = True, j_gate = True\<rparr>]"
    by (simp add: demo_tunnel_def config_state.defs)
  ultimately show ?thesis
    using run by (intro exI[of _ "\<lparr>tw_state = demo_tunnel (Some 0) (Some p) [\<lparr>j_alive = True, j_gate = True\<rparr>],
      tw_workers = {Running demo_request 0}\<rparr>"] exI[of _ demo_request]) simp
qed

text \<open>(a stopped owner stays stopped).  Once an owner was stopped, no later interleaving makes it
  the owner of the view again.\<close>

theorem tunnel_stopped_owner:
  assumes "(tunnel_step api up json re ^^ n) (tw_init c origin) w" and "(tunnel_step api up json re ^^ m) w w'"
    and "n + m < 2 ^ 64" and "owner \<in> c_stopped (t_ctrl (tw_state w))" and "owner \<noteq> []"
  shows "owner \<in> c_stopped (t_ctrl (tw_state w')) \<and> v_owner (c_view (t_ctrl (tw_state w'))) \<noteq> owner"
proof -
  have "(tunnel_step api up json re ^^ (n + m)) (tw_init c origin) w'"
    using assms(1,2) by (auto simp: relpowp_add)
  from tunnel_inv_run[OF this assms(3)] have "v_owner (c_view (t_ctrl (tw_state w'))) \<noteq> []
      \<longrightarrow> v_owner (c_view (t_ctrl (tw_state w'))) \<notin> c_stopped (t_ctrl (tw_state w'))"
    by (simp add: tunnel_inv_def tunnel_core_def core_inv.simps)
  moreover have "owner \<in> c_stopped (t_ctrl (tw_state w'))" using stopped_run[OF assms(2)] assms(4) by blast
  ultimately show ?thesis using assms(5) by blast
qed

theorem tunnel_stopped_owner_witness:
  "\<exists>w. (tunnel_step mem_api demo_url (\<lambda>_. Some demo_request) demo_runtime ^^ 7) (tw_init sample_state ''https://home.example'') w
     \<and> replicate 32 CHR ''a'' \<in> c_stopped (t_ctrl (tw_state w))
     \<and> v_owner (c_view (t_ctrl (tw_state w))) \<noteq> replicate 32 CHR ''a''"
proof -
  obtain p where run: "(tunnel_step mem_api demo_url (\<lambda>_. Some demo_request) demo_runtime ^^ 6) (tw_init sample_state ''https://home.example'')
    \<lparr>tw_state = demo_tunnel (Some 0) (Some p) [\<lparr>j_alive = True, j_gate = True\<rparr>],
     tw_workers = {Running demo_request 0}\<rparr>" by (rule demo_tunnel_run)
  let ?s = "demo_tunnel (Some 0) (Some p) [\<lparr>j_alive = True, j_gate = True\<rparr>]"
  let ?w = "\<lparr>tw_state = invalidate_portal_permission ?s, tw_workers = {Running demo_request 0}\<rparr>"
  have run7: "(tunnel_step mem_api demo_url (\<lambda>_. Some demo_request) demo_runtime ^^ 7) (tw_init sample_state ''https://home.example'') ?w"
    using relpowp_Suc_I[OF run revoke] by (simp add: numeral_eq_Suc)
  moreover have "replicate 32 CHR ''a'' \<in> c_stopped (t_ctrl (invalidate_portal_permission ?s))"
    by (simp add: invalidate_portal_permission_def stop_all_def Let_def take_job_def stop_view_def demo_tunnel_def
        config_state.defs view_default_def)
  ultimately show ?thesis
    using tunnel_stopped_owner[OF run7, of 0 ?w "replicate 32 CHR ''a''"] by (intro exI[of _ ?w]) simp
qed

end
