(* ===== verification/Conn_Types.thy ===== *)
theory Conn_Types
  imports Rust_Prelude
begin

text \<open>
  The types the parts of a remote session share (\<^verbatim>\<open>client/src/server/connection.rs\<close>): the kinds of
  sessions, the audit values, what a connection sends, and the messages of the protocol.  The message
  classes come from the protocol library; the constructors are those the connection matches on, everything
  else is \<open>OtherMessage\<close> or \<open>OtherMisc\<close>.  Payloads the code only passes on are left out.
\<close>

datatype auth_conn_type = Remote | FileTransfer | PortForward | ViewCamera | Terminal

fun auth_conn_type_as_str :: "auth_conn_type \<Rightarrow> string" where
  "auth_conn_type_as_str Remote = ''remote''"
| "auth_conn_type_as_str FileTransfer = ''file_transfer''"
| "auth_conn_type_as_str PortForward = ''port_forward''"
| "auth_conn_type_as_str ViewCamera = ''view_camera''"
| "auth_conn_type_as_str Terminal = ''terminal''"

datatype primary_auth = NoPrimaryAuth | Click | TemporaryPassword | PermanentPassword | SwitchSides
datatype two_factor = NoTwoFactor | Totp | TrustedDevice

fun primary_auth_as_i64 :: "primary_auth \<Rightarrow> int" where
  "primary_auth_as_i64 NoPrimaryAuth = 0"
| "primary_auth_as_i64 Click = 1"
| "primary_auth_as_i64 TemporaryPassword = 2"
| "primary_auth_as_i64 PermanentPassword = 3"
| "primary_auth_as_i64 SwitchSides = 4"

fun two_factor_as_i64 :: "two_factor \<Rightarrow> int" where
  "two_factor_as_i64 NoTwoFactor = 0"
| "two_factor_as_i64 Totp = 1"
| "two_factor_as_i64 TrustedDevice = 2"

datatype alarm_audit_type =
    IpWhitelist | ExceedThirtyAttempts | SixAttemptsWithinOneMinute | ExceedIPv6PrefixAttempts
  | TerminalOsLoginBackoff | TerminalOsLoginConcurrency | SessionScopeViolation

fun alarm_audit_type_value :: "alarm_audit_type \<Rightarrow> int" where
  "alarm_audit_type_value IpWhitelist = 0"
| "alarm_audit_type_value ExceedThirtyAttempts = 1"
| "alarm_audit_type_value SixAttemptsWithinOneMinute = 2"
| "alarm_audit_type_value ExceedIPv6PrefixAttempts = 6"
| "alarm_audit_type_value TerminalOsLoginBackoff = 7"
| "alarm_audit_type_value TerminalOsLoginConcurrency = 8"
| "alarm_audit_type_value SessionScopeViolation = 9"

record session_key =
  sk_peer_id :: string
  sk_name :: string
  sk_session_id :: u64

section \<open>Protocol messages\<close>

text \<open>\<^verbatim>\<open>EnumOrUnknown\<close>: a field that may hold a number outside its enumeration.\<close>

datatype 'e enum_or_unknown = Known 'e | Unknown int

datatype bool_option = NotSet | No | Yes
datatype image_quality = QualityNotSet | QualityLow | QualityBalanced | QualityBest

text \<open>\<open>'d\<close> is the decoding capability, which only the codec reads.\<close>

record 'd option_message =
  om_image_quality :: "image_quality enum_or_unknown"
  om_lock_after_session_end :: "bool_option enum_or_unknown"
  om_show_remote_cursor :: "bool_option enum_or_unknown"
  om_privacy_mode :: "bool_option enum_or_unknown"
  om_block_input :: "bool_option enum_or_unknown"
  om_custom_image_quality :: int
  om_disable_audio :: "bool_option enum_or_unknown"
  om_disable_clipboard :: "bool_option enum_or_unknown"
  om_enable_file_transfer :: "bool_option enum_or_unknown"
  om_supported_decoding :: "'d option"
  om_custom_fps :: int
  om_disable_keyboard :: "bool_option enum_or_unknown"
  om_follow_remote_cursor :: "bool_option enum_or_unknown"
  om_follow_remote_window :: "bool_option enum_or_unknown"
  om_disable_camera :: "bool_option enum_or_unknown"
  om_terminal_persistent :: "bool_option enum_or_unknown"
  om_show_my_cursor :: "bool_option enum_or_unknown"

definition option_message_new :: "'d option_message" where
  "option_message_new = \<lparr>om_image_quality = Known QualityNotSet, om_lock_after_session_end = Known NotSet,
     om_show_remote_cursor = Known NotSet, om_privacy_mode = Known NotSet, om_block_input = Known NotSet,
     om_custom_image_quality = 0, om_disable_audio = Known NotSet, om_disable_clipboard = Known NotSet,
     om_enable_file_transfer = Known NotSet, om_supported_decoding = None, om_custom_fps = 0,
     om_disable_keyboard = Known NotSet, om_follow_remote_cursor = Known NotSet,
     om_follow_remote_window = Known NotSet, om_disable_camera = Known NotSet,
     om_terminal_persistent = Known NotSet, om_show_my_cursor = Known NotSet\<rparr>"

datatype 'd misc =
    ChatMessage | SwitchDisplay | CaptureDisplays | RefreshVideo | RefreshVideoDisplay | VideoReceived
  | AudioFormat | ClientRecordStatus | MessageQuery | TogglePrivacyMode | ToggleVirtualDisplay
  | ChangeResolution | ChangeDisplayResolution | SelectedSid | FollowCurrentDisplay
  | CloseReason string | MiscOption "'d option_message" | OtherMisc

text \<open>\<open>'l\<close> is the login request.  The union of a message may be absent.\<close>

datatype ('l, 'd) message_union =
    LoginRequest 'l | TestDelay bool | MouseEvent | AudioFrame | PointerDeviceEvent | KeyEvent | Clipboard
  | FileAction | FileResponse | VoiceCallRequest | VoiceCallResponse | MultiClipboards | ScreenshotRequest
  | ScreenshotResponse | TerminalAction | TerminalResponse | SwitchSidesResponse | VideoFrame
  | Misc "'d misc option" | OtherMessage

type_synonym ('l, 'd) message = "('l, 'd) message_union option"

section \<open>What a connection sends\<close>

text \<open>The login notice for the connection manager (\<^verbatim>\<open>ipc::Data::Login\<close>).\<close>

record cm_login =
  cm_id :: int
  cm_is_file_transfer :: bool
  cm_is_view_camera :: bool
  cm_is_terminal :: bool
  cm_port_forward :: string
  cm_peer_id :: string
  cm_name :: string
  cm_avatar :: string
  cm_authorized :: bool
  cm_keyboard :: bool
  cm_clipboard :: bool
  cm_audio :: bool
  cm_file :: bool
  cm_file_transfer_enabled :: bool
  cm_restart :: bool
  cm_recording :: bool
  cm_block_input :: bool
  cm_privacy_mode :: bool
  cm_from_switch :: bool

text \<open>The texts that are not ASCII, by their meaning: sign in and obtain a permit first; a source outside the
  limits; switching sides needs a new permit; the sign-in or the permit has ended.\<close>

datatype local_text = SignInForPermit | OutsideSourceLimits | SwitchNeedsPermit | PermitEnded

datatype permission_kind =
  PermKeyboard | PermClipboard | PermAudio | PermFile | PermRestart | PermRecording | PermBlockInput | PermPrivacyMode

datatype privacy_state =
    PrvOnFailedDenied | PrvNotSupported | PrvOnSucceeded | PrvOnFailed | PrvOnFailedPlugin
  | PrvOffSucceeded | PrvOffByPeer | PrvOffUnknown | PrvOffFailed

text \<open>What a connection sends to the peer and to the connection manager, the audit records it posts and the
  calls it makes on other services, in order.  \<open>PostScopeAlarm\<close> has the session kind and the message family,
  \<open>PostConnAudit\<close> the session kind's number and the two authentications, \<open>CmClose\<close> whether the manager should
  keep the entry; \<open>Subscribe\<close> is a call of \<^verbatim>\<open>Server::subscribe\<close>.\<close>

datatype conn_effect =
    LoginError string
  | LoginErrorLocal local_text
  | PostAlarm alarm_audit_type
  | PostScopeAlarm string string
  | SendHash
  | SendCloseReason string
  | SendCloseReasonLocal local_text
  | CmLogin cm_login
  | CmClose bool
  | CmSwitchPermission string bool
  | CmChat string
  | CmVoiceCallIncoming
  | CmStartVoiceCall
  | CmCloseVoiceCall
  | CmClipboardFileEnabled bool
  | StartCmIpc
  | LockScreen
  | ResetVoiceInput
  | UseVoiceInput
  | VoiceCallAnswer int bool
  | LoginPeerInfo
  | LoginResponseError string
  | SendTestDelay
  | SendTestDelayReply
  | SendDisplayInited
  | SendChat string
  | SendPermission permission_kind bool
  | PostConnAudit nat "int option" "int option"
  | PostConnOpened
  | Subscribe string bool
  | AddConnection "string list"
  | AddCameraConnection
  | UpdateCodec bool
  | EncoderUpdate
  | TerminalPersistence string bool
  | ReadDir string bool
  | InitTerminal
  | PrivacyMessage privacy_state
  | InputBlocked bool
  | BlockInputFailed bool
  | Whiteboard bool
  | MessageBox string
  | Sleep

end
