(* ===== verification/Session_Scope.thy ===== *)
theory Session_Scope
  imports Conn_Types
begin

text \<open>
  What an authorised session may ask for (\<^verbatim>\<open>session_key\<close> to \<^verbatim>\<open>misc_message_family\<close> in
  \<^verbatim>\<open>client/src/server/connection.rs\<close>): a message is compared with the kind of session that was
  authenticated, options sent with the login are cut down to that kind, and a violation is reported once per
  message family.
\<close>

definition is_bool_option_not_set :: "bool_option enum_or_unknown \<Rightarrow> bool" where
  "is_bool_option_not_set b \<longleftrightarrow> b = Known NotSet"

definition is_supported_decoding_only_option :: "'d option_message \<Rightarrow> bool" where
  "is_supported_decoding_only_option o1 \<longleftrightarrow>
     om_supported_decoding o1 \<noteq> None
     \<and> om_image_quality o1 = Known QualityNotSet
     \<and> om_custom_image_quality o1 = 0
     \<and> om_custom_fps o1 = 0
     \<and> is_bool_option_not_set (om_lock_after_session_end o1)
     \<and> is_bool_option_not_set (om_show_remote_cursor o1)
     \<and> is_bool_option_not_set (om_privacy_mode o1)
     \<and> is_bool_option_not_set (om_block_input o1)
     \<and> is_bool_option_not_set (om_disable_audio o1)
     \<and> is_bool_option_not_set (om_disable_clipboard o1)
     \<and> is_bool_option_not_set (om_enable_file_transfer o1)
     \<and> is_bool_option_not_set (om_disable_keyboard o1)
     \<and> is_bool_option_not_set (om_follow_remote_cursor o1)
     \<and> is_bool_option_not_set (om_follow_remote_window o1)
     \<and> is_bool_option_not_set (om_disable_camera o1)
     \<and> is_bool_option_not_set (om_terminal_persistent o1)
     \<and> is_bool_option_not_set (om_show_my_cursor o1)"

definition option_has_non_view_camera_login_field :: "'d option_message \<Rightarrow> bool" where
  "option_has_non_view_camera_login_field o1 \<longleftrightarrow>
     \<not> (is_bool_option_not_set (om_lock_after_session_end o1)
        \<and> is_bool_option_not_set (om_show_remote_cursor o1)
        \<and> is_bool_option_not_set (om_privacy_mode o1)
        \<and> is_bool_option_not_set (om_block_input o1)
        \<and> is_bool_option_not_set (om_disable_clipboard o1)
        \<and> is_bool_option_not_set (om_enable_file_transfer o1)
        \<and> is_bool_option_not_set (om_disable_keyboard o1)
        \<and> is_bool_option_not_set (om_follow_remote_cursor o1)
        \<and> is_bool_option_not_set (om_follow_remote_window o1)
        \<and> is_bool_option_not_set (om_disable_camera o1)
        \<and> is_bool_option_not_set (om_terminal_persistent o1)
        \<and> is_bool_option_not_set (om_show_my_cursor o1))"

definition option_has_non_terminal_login_field :: "'d option_message \<Rightarrow> bool" where
  "option_has_non_terminal_login_field o1 \<longleftrightarrow>
     om_image_quality o1 \<noteq> Known QualityNotSet
     \<or> om_custom_image_quality o1 \<noteq> 0
     \<or> om_custom_fps o1 \<noteq> 0
     \<or> om_supported_decoding o1 \<noteq> None
     \<or> \<not> is_bool_option_not_set (om_lock_after_session_end o1)
     \<or> \<not> is_bool_option_not_set (om_show_remote_cursor o1)
     \<or> \<not> is_bool_option_not_set (om_privacy_mode o1)
     \<or> \<not> is_bool_option_not_set (om_block_input o1)
     \<or> \<not> is_bool_option_not_set (om_disable_audio o1)
     \<or> \<not> is_bool_option_not_set (om_disable_clipboard o1)
     \<or> \<not> is_bool_option_not_set (om_enable_file_transfer o1)
     \<or> \<not> is_bool_option_not_set (om_disable_keyboard o1)
     \<or> \<not> is_bool_option_not_set (om_follow_remote_cursor o1)
     \<or> \<not> is_bool_option_not_set (om_follow_remote_window o1)
     \<or> \<not> is_bool_option_not_set (om_disable_camera o1)
     \<or> \<not> is_bool_option_not_set (om_show_my_cursor o1)"

definition option_has_any_field :: "'d option_message \<Rightarrow> bool" where
  "option_has_any_field o1 \<longleftrightarrow>
     option_has_non_terminal_login_field o1 \<or> \<not> is_bool_option_not_set (om_terminal_persistent o1)"

definition then_some :: "bool \<Rightarrow> 'a \<Rightarrow> 'a option" where
  "then_some b x = (if b then Some x else None)"

definition scoped_terminal_login_option :: "'d option_message \<Rightarrow> 'd option_message option \<times> string option" where
  "scoped_terminal_login_option o1 =
     (let (scoped, violation) =
            (case om_terminal_persistent o1 of
               Known v \<Rightarrow> (option_message_new\<lparr>om_terminal_persistent := Known v\<rparr>, False)
             | Unknown _ \<Rightarrow> (option_message_new, True));
          violation = (violation \<or> option_has_non_terminal_login_field o1)
      in (then_some (option_has_any_field scoped) scoped, then_some violation ''login.option''))"

definition scoped_view_camera_option :: "'d option_message \<Rightarrow> 'd option_message option \<times> string option" where
  "scoped_view_camera_option o1 =
     (let scoped = option_message_new;
          scoped = (case om_image_quality o1 of
                      Known _ \<Rightarrow> scoped\<lparr>om_image_quality := om_image_quality o1\<rparr> | Unknown _ \<Rightarrow> scoped);
          scoped = (if om_custom_image_quality o1 \<ge> 0
                    then scoped\<lparr>om_custom_image_quality := om_custom_image_quality o1\<rparr> else scoped);
          scoped = (if om_custom_fps o1 \<ge> 0 then scoped\<lparr>om_custom_fps := om_custom_fps o1\<rparr> else scoped);
          scoped = scoped\<lparr>om_supported_decoding := om_supported_decoding o1\<rparr>;
          scoped = (case om_disable_audio o1 of
                      Known v \<Rightarrow> scoped\<lparr>om_disable_audio := Known v\<rparr> | Unknown _ \<Rightarrow> scoped);
          violation = option_has_non_view_camera_login_field o1
      in (then_some (option_has_any_field scoped) scoped, then_some violation ''login.option''))"

definition scoped_login_option ::
    "auth_conn_type \<Rightarrow> 'd option_message \<Rightarrow> 'd option_message option \<times> string option" where
  "scoped_login_option t o1 =
     (case t of
        Remote \<Rightarrow> (Some o1, None)
      | ViewCamera \<Rightarrow> scoped_view_camera_option o1
      | Terminal \<Rightarrow> scoped_terminal_login_option o1
      | FileTransfer \<Rightarrow> (None, then_some (option_has_any_field o1) ''login.option'')
      | PortForward \<Rightarrow> (None, then_some (option_has_any_field o1) ''login.option''))"

definition scoped_update_option_message :: "auth_conn_type option \<Rightarrow> 'd option_message \<Rightarrow> 'd option_message option" where
  "scoped_update_option_message authed o1 =
     (case authed of
        Some ViewCamera \<Rightarrow> fst (scoped_view_camera_option o1)
      | Some Terminal \<Rightarrow> fst (scoped_terminal_login_option o1)
      | _ \<Rightarrow> None)"

definition is_terminal_scoped_option :: "'d option_message \<Rightarrow> bool" where
  "is_terminal_scoped_option o1 \<longleftrightarrow> snd (scoped_terminal_login_option o1) = None"

definition is_view_camera_scoped_option :: "'d option_message \<Rightarrow> bool" where
  "is_view_camera_scoped_option o1 \<longleftrightarrow> snd (scoped_view_camera_option o1) = None"

fun is_connection_housekeeping_message :: "('l, 'd) message \<Rightarrow> bool" where
  "is_connection_housekeeping_message (Some (LoginRequest _)) = True"
| "is_connection_housekeeping_message (Some (TestDelay _)) = True"
| "is_connection_housekeeping_message (Some (Misc (Some (CloseReason _)))) = True"
| "is_connection_housekeeping_message _ = False"

fun is_render_broadcast_noop_compat_message :: "('l, 'd) message \<Rightarrow> bool" where
  "is_render_broadcast_noop_compat_message (Some (Misc (Some RefreshVideo))) = True"
| "is_render_broadcast_noop_compat_message (Some (Misc (Some RefreshVideoDisplay))) = True"
| "is_render_broadcast_noop_compat_message (Some (Misc (Some (MiscOption o1)))) = is_supported_decoding_only_option o1"
| "is_render_broadcast_noop_compat_message _ = False"

fun is_text_clipboard_noop_compat_message :: "('l, 'd) message \<Rightarrow> bool" where
  "is_text_clipboard_noop_compat_message (Some Clipboard) = True"
| "is_text_clipboard_noop_compat_message (Some MultiClipboards) = True"
| "is_text_clipboard_noop_compat_message _ = False"

definition is_file_transfer_scoped_misc :: "bool \<Rightarrow> 'd misc option \<Rightarrow> bool" where
  "is_file_transfer_scoped_misc windows m \<longleftrightarrow> windows \<and> m = Some SelectedSid"

fun is_file_transfer_scoped_message :: "bool \<Rightarrow> ('l, 'd) message \<Rightarrow> bool" where
  "is_file_transfer_scoped_message windows (Some FileAction) = True"
| "is_file_transfer_scoped_message windows (Some FileResponse) = True"
| "is_file_transfer_scoped_message windows (Some (Misc m)) = is_file_transfer_scoped_misc windows m"
| "is_file_transfer_scoped_message windows _ = False"

fun is_terminal_scoped_misc :: "'d misc option \<Rightarrow> bool" where
  "is_terminal_scoped_misc (Some ChatMessage) = True"
| "is_terminal_scoped_misc (Some (MiscOption o1)) = is_terminal_scoped_option o1"
| "is_terminal_scoped_misc _ = False"

fun is_terminal_scoped_message :: "('l, 'd) message \<Rightarrow> bool" where
  "is_terminal_scoped_message (Some TerminalAction) = True"
| "is_terminal_scoped_message (Some (Misc m)) = is_terminal_scoped_misc m"
| "is_terminal_scoped_message _ = False"

fun is_view_camera_scoped_misc :: "bool \<Rightarrow> 'd misc option \<Rightarrow> bool" where
  "is_view_camera_scoped_misc windows (Some (MiscOption o1)) = is_view_camera_scoped_option o1"
| "is_view_camera_scoped_misc windows (Some SelectedSid) = windows"
| "is_view_camera_scoped_misc windows (Some m) =
     (m = SwitchDisplay \<or> m = CaptureDisplays \<or> m = RefreshVideo \<or> m = RefreshVideoDisplay \<or> m = VideoReceived
      \<or> m = ChatMessage \<or> m = AudioFormat \<or> m = ClientRecordStatus \<or> m = MessageQuery \<or> m = TogglePrivacyMode
      \<or> m = ToggleVirtualDisplay \<or> m = ChangeResolution \<or> m = ChangeDisplayResolution)"
| "is_view_camera_scoped_misc windows None = False"

fun is_view_camera_scoped_message :: "bool \<Rightarrow> ('l, 'd) message \<Rightarrow> bool" where
  "is_view_camera_scoped_message windows (Some ScreenshotRequest) = True"
| "is_view_camera_scoped_message windows (Some (Misc m)) = is_view_camera_scoped_misc windows m"
| "is_view_camera_scoped_message windows (Some MouseEvent) = True"
| "is_view_camera_scoped_message windows (Some PointerDeviceEvent) = True"
| "is_view_camera_scoped_message windows (Some KeyEvent) = True"
| "is_view_camera_scoped_message windows (Some AudioFrame) = True"
| "is_view_camera_scoped_message windows (Some VoiceCallRequest) = True"
| "is_view_camera_scoped_message windows (Some VoiceCallResponse) = True"
| "is_view_camera_scoped_message windows _ = False"

fun misc_message_family :: "'d misc option \<Rightarrow> string" where
  "misc_message_family (Some ChatMessage) = ''misc.chat_message''"
| "misc_message_family (Some SwitchDisplay) = ''misc.switch_display''"
| "misc_message_family (Some (MiscOption _)) = ''misc.option''"
| "misc_message_family (Some AudioFormat) = ''misc.audio_format''"
| "misc_message_family (Some CaptureDisplays) = ''misc.capture_displays''"
| "misc_message_family (Some ClientRecordStatus) = ''misc.client_record_status''"
| "misc_message_family (Some TogglePrivacyMode) = ''misc.toggle_privacy_mode''"
| "misc_message_family (Some ToggleVirtualDisplay) = ''misc.toggle_virtual_display''"
| "misc_message_family (Some SelectedSid) = ''misc.selected_sid''"
| "misc_message_family (Some ChangeResolution) = ''misc.change_resolution''"
| "misc_message_family (Some ChangeDisplayResolution) = ''misc.change_display_resolution''"
| "misc_message_family (Some MessageQuery) = ''misc.message_query''"
| "misc_message_family (Some FollowCurrentDisplay) = ''misc.follow_current_display''"
| "misc_message_family (Some _) = ''misc.other''"
| "misc_message_family None = ''misc.empty''"

fun message_family :: "('l, 'd) message \<Rightarrow> string" where
  "message_family (Some MouseEvent) = ''mouse_event''"
| "message_family (Some AudioFrame) = ''audio_frame''"
| "message_family (Some PointerDeviceEvent) = ''pointer_device_event''"
| "message_family (Some KeyEvent) = ''key_event''"
| "message_family (Some Clipboard) = ''clipboard''"
| "message_family (Some FileAction) = ''file_action''"
| "message_family (Some FileResponse) = ''file_response''"
| "message_family (Some VoiceCallRequest) = ''voice_call_request''"
| "message_family (Some VoiceCallResponse) = ''voice_call_response''"
| "message_family (Some MultiClipboards) = ''multi_clipboards''"
| "message_family (Some ScreenshotRequest) = ''screenshot_request''"
| "message_family (Some ScreenshotResponse) = ''screenshot_response''"
| "message_family (Some TerminalAction) = ''terminal_action''"
| "message_family (Some TerminalResponse) = ''terminal_response''"
| "message_family (Some (Misc m)) = misc_message_family m"
| "message_family (Some _) = ''message.other''"
| "message_family None = ''empty''"

definition noop_compat :: "auth_conn_type \<Rightarrow> ('l, 'd) message \<Rightarrow> bool" where
  "noop_compat t msg =
     (case t of
        FileTransfer \<Rightarrow> is_render_broadcast_noop_compat_message msg \<or> is_text_clipboard_noop_compat_message msg
      | Terminal \<Rightarrow> is_render_broadcast_noop_compat_message msg \<or> is_text_clipboard_noop_compat_message msg
      | PortForward \<Rightarrow> is_render_broadcast_noop_compat_message msg
      | ViewCamera \<Rightarrow> is_text_clipboard_noop_compat_message msg
      | Remote \<Rightarrow> False)"

definition scope_allowed :: "bool \<Rightarrow> auth_conn_type \<Rightarrow> ('l, 'd) message \<Rightarrow> bool" where
  "scope_allowed windows t msg =
     (case t of
        Remote \<Rightarrow> True
      | FileTransfer \<Rightarrow> is_file_transfer_scoped_message windows msg
      | PortForward \<Rightarrow> False
      | ViewCamera \<Rightarrow> is_view_camera_scoped_message windows msg
      | Terminal \<Rightarrow> is_terminal_scoped_message msg)"

definition authorized_message_scope_violation :: "bool \<Rightarrow> auth_conn_type \<Rightarrow> ('l, 'd) message \<Rightarrow> string option" where
  "authorized_message_scope_violation windows t msg =
     (if is_connection_housekeeping_message msg then None
      else if noop_compat t msg then None
      else then_some (\<not> scope_allowed windows t msg) (message_family msg))"

text \<open>The part of the connection that is concerned: the kind of the authenticated session, the message
  families already reported, and whether the connection was closed.\<close>

record scope_conn =
  authed_conn_type :: "auth_conn_type option"
  scope_violation_messages :: "string set"
  c_closed :: bool

definition authorized_scope_violation :: "bool \<Rightarrow> ('z) scope_conn_scheme \<Rightarrow> ('l, 'd) message \<Rightarrow> string option" where
  "authorized_scope_violation windows c msg =
     (case authed_conn_type c of
        None \<Rightarrow> then_some (\<not> is_connection_housekeeping_message msg) ''session.auth_type''
      | Some t \<Rightarrow> authorized_message_scope_violation windows t msg)"

definition is_authed_remote_conn :: "('z) scope_conn_scheme \<Rightarrow> bool" where
  "is_authed_remote_conn c \<longleftrightarrow> authed_conn_type c = Some Remote"

definition is_authed_view_camera_conn :: "('z) scope_conn_scheme \<Rightarrow> bool" where
  "is_authed_view_camera_conn c \<longleftrightarrow> authed_conn_type c = Some ViewCamera"

definition should_handle_render_broadcast_message :: "('z) scope_conn_scheme \<Rightarrow> bool" where
  "should_handle_render_broadcast_message c \<longleftrightarrow> authed_conn_type c \<in> {Some Remote, Some ViewCamera}"

definition should_handle_text_clipboard_message :: "('z) scope_conn_scheme \<Rightarrow> bool" where
  "should_handle_text_clipboard_message c \<longleftrightarrow> authed_conn_type c = Some Remote"

definition conn_type_name :: "('z) scope_conn_scheme \<Rightarrow> string" where
  "conn_type_name c = (case authed_conn_type c of Some t \<Rightarrow> auth_conn_type_as_str t | None \<Rightarrow> ''unknown'')"

section \<open>Properties\<close>

lemmas scope_simps =
  authorized_message_scope_violation_def noop_compat_def scope_allowed_def then_some_def

text \<open>The fields that reach beyond looking through the camera or keeping a terminal.\<close>

definition sets_privileged_field :: "'d option_message \<Rightarrow> bool" where
  "sets_privileged_field o1 \<longleftrightarrow>
     om_lock_after_session_end o1 \<noteq> Known NotSet \<or> om_privacy_mode o1 \<noteq> Known NotSet
     \<or> om_block_input o1 \<noteq> Known NotSet \<or> om_disable_keyboard o1 \<noteq> Known NotSet
     \<or> om_disable_clipboard o1 \<noteq> Known NotSet \<or> om_enable_file_transfer o1 \<noteq> Known NotSet
     \<or> om_follow_remote_cursor o1 \<noteq> Known NotSet \<or> om_follow_remote_window o1 \<noteq> Known NotSet
     \<or> om_show_remote_cursor o1 \<noteq> Known NotSet \<or> om_show_my_cursor o1 \<noteq> Known NotSet
     \<or> om_disable_camera o1 \<noteq> Known NotSet"

lemma privileged_not_decoding_only: "sets_privileged_field o1 \<Longrightarrow> \<not> is_supported_decoding_only_option o1"
  by (auto simp: sets_privileged_field_def is_supported_decoding_only_option_def is_bool_option_not_set_def)

lemma privileged_not_camera: "sets_privileged_field o1 \<Longrightarrow> \<not> is_view_camera_scoped_option o1"
  by (auto simp: sets_privileged_field_def is_view_camera_scoped_option_def scoped_view_camera_option_def Let_def
      then_some_def option_has_non_view_camera_login_field_def is_bool_option_not_set_def)

lemma privileged_not_terminal: "sets_privileged_field o1 \<Longrightarrow> \<not> is_terminal_scoped_option o1"
  by (auto simp: sets_privileged_field_def is_terminal_scoped_option_def scoped_terminal_login_option_def Let_def
      then_some_def option_has_non_terminal_login_field_def is_bool_option_not_set_def split: enum_or_unknown.split)



lemmas option_defs =
  scoped_login_option_def scoped_view_camera_option_def scoped_terminal_login_option_def
  option_has_any_field_def option_has_non_terminal_login_field_def option_has_non_view_camera_login_field_def
  is_bool_option_not_set_def option_message_new_def then_some_def Let_def

lemma scoped_terminal_only:
  "scoped_terminal_login_option o1 = (Some o2, v) \<Longrightarrow>
     \<exists>b. b \<noteq> NotSet \<and> om_terminal_persistent o1 = Known b \<and> o2 = option_message_new\<lparr>om_terminal_persistent := Known b\<rparr>"
  by (auto simp: option_defs split: enum_or_unknown.splits if_splits)

lemma scoped_camera_only:
  "scoped_view_camera_option o1 = (Some o2, v) \<Longrightarrow>
     option_has_any_field o2 \<and> 0 \<le> om_custom_image_quality o2 \<and> 0 \<le> om_custom_fps o2
     \<and> (\<exists>q b. o2 = option_message_new\<lparr>om_image_quality := Known q, om_custom_image_quality := om_custom_image_quality o2,
           om_custom_fps := om_custom_fps o2, om_supported_decoding := om_supported_decoding o1,
           om_disable_audio := Known b\<rparr>)"
  unfolding scoped_view_camera_option_def Let_def then_some_def
  by (auto simp: option_message_new_def split: enum_or_unknown.splits if_splits)

text \<open>\<^bold>\<open>C34\<close> (login options are cut down to the session).  Of the options sent with the login a limited
  session keeps only fields of its kind: the result sets no privileged field, passing it through the filter
  again changes nothing and reports no violation, and file transfers and port forwards keep nothing.\<close>

theorem scoped_login_option_confined:
  assumes "scoped_login_option t o1 = (Some o2, v)" and "t \<noteq> Remote"
  shows "(t = ViewCamera \<or> t = Terminal) \<and> \<not> sets_privileged_field o2 \<and> scoped_login_option t o2 = (Some o2, None)"
proof (cases t)
  case ViewCamera
  with assms have h: "scoped_view_camera_option o1 = (Some o2, v)" by (simp add: scoped_login_option_def)
  from scoped_camera_only[OF h] obtain q b i f d where o2:
    "o2 = option_message_new\<lparr>om_image_quality := Known q, om_custom_image_quality := i, om_custom_fps := f,
       om_supported_decoding := d, om_disable_audio := Known b\<rparr>" "0 \<le> i" "0 \<le> f" "option_has_any_field o2"
    by blast
  then have "scoped_view_camera_option o2 = (Some o2, None)"
    by (simp add: scoped_view_camera_option_def Let_def then_some_def option_has_non_view_camera_login_field_def
        is_bool_option_not_set_def) (simp add: option_message_new_def is_bool_option_not_set_def)
  moreover have "\<not> sets_privileged_field o2" by (simp add: o2(1) sets_privileged_field_def option_message_new_def)
  ultimately show ?thesis using ViewCamera by (simp add: scoped_login_option_def)
next
  case Terminal
  with assms have h: "scoped_terminal_login_option o1 = (Some o2, v)" by (simp add: scoped_login_option_def)
  from scoped_terminal_only[OF h] obtain b where
    "b \<noteq> NotSet" "o2 = option_message_new\<lparr>om_terminal_persistent := Known b\<rparr>" by blast
  with Terminal show ?thesis by (simp add: option_defs sets_privileged_field_def)
qed (use assms in \<open>simp_all add: scoped_login_option_def\<close>)

theorem scoped_login_option_confined_witness:
  "fst (scoped_login_option Terminal
     (option_message_new\<lparr>om_terminal_persistent := Known Yes, om_block_input := Known Yes\<rparr> :: unit option_message))
     = Some (option_message_new\<lparr>om_terminal_persistent := Known Yes\<rparr>)
   \<and> \<not> sets_privileged_field (option_message_new\<lparr>om_terminal_persistent := Known Yes\<rparr> :: unit option_message)"
proof -
  have "scoped_login_option Terminal
      (option_message_new\<lparr>om_terminal_persistent := Known Yes, om_block_input := Known Yes\<rparr> :: unit option_message)
      = (Some (option_message_new\<lparr>om_terminal_persistent := Known Yes\<rparr>), Some ''login.option'')"
    by (simp add: option_defs)
  with scoped_login_option_confined[OF this] show ?thesis by simp
qed

end
