(* ===== verification/Rust_Ipv6.thy ===== *)
theory Rust_Ipv6
  imports Rust_Net
begin

text \<open>
  IPv6 addresses of the Rust standard library: \<^verbatim>\<open>Ipv6Addr::from_str\<close> as the reader of groups,
  embedded IPv4 tails and the double colon, and \<^verbatim>\<open>Display\<close> with the first longest run of zero
  groups compressed.  An address is a 128-bit word.  A reader consumes a prefix of the text and returns
  what is left.
\<close>

type_synonym ipv6 = "128 word"
type_synonym 'a reader = "string \<Rightarrow> ('a \<times> string) option"

definition hex_value :: "char \<Rightarrow> nat" where
  "hex_value c = (if byte c < 58 then byte c - 48 else if byte c < 71 then byte c - 55 else byte c - 87)"

definition read_number :: "(char \<Rightarrow> bool) \<Rightarrow> (char \<Rightarrow> nat) \<Rightarrow> nat \<Rightarrow> nat \<Rightarrow> bool \<Rightarrow> nat \<Rightarrow> nat reader" where
  "read_number is_digit value radix max_digits allow_zero_prefix bound s =
     (let ds = takeWhile is_digit s; n = foldl (\<lambda>a c. radix * a + value c) 0 ds in
      if ds = [] \<or> length ds > max_digits \<or> \<not> allow_zero_prefix \<and> hd ds = CHR ''0'' \<and> length ds > 1 \<or> n > bound
      then None else Some (n, dropWhile is_digit s))"

definition read_octet :: "nat reader" where
  "read_octet = read_number is_ascii_digit (\<lambda>c. byte c - 48) 10 3 False 255"

definition read_group :: "nat reader" where
  "read_group = read_number is_ascii_hexdigit hex_value 16 4 True 65535"

definition read_separator :: "char \<Rightarrow> nat \<Rightarrow> 'a reader \<Rightarrow> 'a reader" where
  "read_separator c i inner s =
     (if i > 0 then (case s of [] \<Rightarrow> None | d # r \<Rightarrow> if d = c then inner r else None) else inner s)"

fun read_octets :: "nat \<Rightarrow> nat \<Rightarrow> nat list reader" where
  "read_octets i 0 s = Some ([], s)"
| "read_octets i (Suc n) s =
     (case read_separator CHR ''.'' i read_octet s of
        None \<Rightarrow> None
      | Some (o1, r) \<Rightarrow> map_option (\<lambda>(os, r'). (o1 # os, r')) (read_octets (Suc i) n r))"

text \<open>Up to \<open>n\<close> more groups, \<open>i\<close> read so far; the flag tells whether an IPv4 tail was read.\<close>

fun read_groups :: "nat \<Rightarrow> nat \<Rightarrow> string \<Rightarrow> nat list \<times> bool \<times> string" where
  "read_groups i 0 s = ([], False, s)"
| "read_groups i (Suc n) s =
     (case (if n > 0 then read_separator CHR '':'' i (read_octets 0 4) s else None) of
        Some (os, r) \<Rightarrow> ([256 * os ! 0 + os ! 1, 256 * os ! 2 + os ! 3], True, r)
      | None \<Rightarrow>
          (case read_separator CHR '':'' i read_group s of
             None \<Rightarrow> ([], False, s)
           | Some (g, r) \<Rightarrow> (case read_groups (Suc i) n r of (gs, v4, r') \<Rightarrow> (g # gs, v4, r'))))"

definition ipv6_of_segments :: "nat list \<Rightarrow> ipv6" where
  "ipv6_of_segments gs = of_nat (foldl (\<lambda>a g. 65536 * a + g) 0 gs)"

definition segments :: "ipv6 \<Rightarrow> nat list" where
  "segments ip = map (\<lambda>k. unat ip div 65536 ^ (7 - k) mod 65536) [0..<8]"

definition parse_ipv6 :: "string \<Rightarrow> ipv6 option" where
  "parse_ipv6 s =
     (case read_groups 0 8 s of
        (head, v4, r) \<Rightarrow>
          if length head = 8 then (if r = [] then Some (ipv6_of_segments head) else None)
          else if v4 then None
          else (case r of
                  c # d # r' \<Rightarrow>
                    if c = CHR '':'' \<and> d = CHR '':''
                    then (case read_groups 0 (8 - (length head + 1)) r' of
                            (tail, _, r'') \<Rightarrow>
                              if r'' = []
                              then Some (ipv6_of_segments (head @ replicate (8 - length head - length tail) 0 @ tail))
                              else None)
                    else None
                | _ \<Rightarrow> None))"

definition hex_digit :: "nat \<Rightarrow> char" where
  "hex_digit d = (if d < 10 then char_of (48 + d) else char_of (87 + d))"

fun show_hex :: "nat \<Rightarrow> string" where
  "show_hex n = (if n < 16 then [hex_digit n] else show_hex (n div 16) @ [hex_digit (n mod 16)])"

declare show_hex.simps [simp del]

text \<open>The spans \<^verbatim>\<open>(start, len)\<close> of the scan over the groups.\<close>

fun longest_zeros :: "nat \<Rightarrow> nat \<times> nat \<Rightarrow> nat \<times> nat \<Rightarrow> nat list \<Rightarrow> nat \<times> nat" where
  "longest_zeros i longest current [] = longest"
| "longest_zeros i longest current (g # gs) =
     (if g = 0
      then let current = (if snd current = 0 then i else fst current, snd current + 1);
               longest = (if snd current > snd longest then current else longest)
           in longest_zeros (Suc i) longest current gs
      else longest_zeros (Suc i) longest (0, 0) gs)"

definition show_ipv6 :: "ipv6 \<Rightarrow> string" where
  "show_ipv6 ip =
     (let gs = segments ip; (start, len) = longest_zeros 0 (0, 0) (0, 0) gs; sub = (\<lambda>hs. join '':'' (map show_hex hs)) in
      if take 6 gs = [0, 0, 0, 0, 0, 65535] then ''::ffff:'' @ show_ipv4 (of_nat (65536 * gs ! 6 + gs ! 7))
      else if len > 1 then sub (take start gs) @ ''::'' @ sub (drop (start + len) gs)
      else sub gs)"

lemma read_number_rest:
  "read_number p v radix m z b s = Some (n, r) \<Longrightarrow> \<exists>ds. s = ds @ r \<and> list_all p ds"
  unfolding read_number_def Let_def
  by (metis (no_types, lifting) list_all_takeWhile option.distinct(1) option.inject prod.inject takeWhile_dropWhile_id)

text \<open>What a reader consumes, in terms of the characters it accepts.\<close>

definition consumes :: "(char \<Rightarrow> bool) \<Rightarrow> 'a reader \<Rightarrow> bool" where
  "consumes p rd \<longleftrightarrow> (\<forall>s v r. rd s = Some (v, r) \<longrightarrow> (\<exists>ds. s = ds @ r \<and> list_all p ds))"

definition ip_char :: "char \<Rightarrow> bool" where
  "ip_char c \<longleftrightarrow> is_ascii_hexdigit c \<or> c = CHR ''.'' \<or> c = CHR '':''"

lemma consumes_group: "consumes ip_char read_group"
  unfolding consumes_def read_group_def
  by (metis (mono_tags, lifting) ip_char_def list_all_iff read_number_rest)

lemma consumes_octet: "consumes ip_char read_octet"
  unfolding consumes_def read_octet_def
  by (metis (mono_tags, lifting) ip_char_def is_ascii_digit_def is_ascii_hexdigit_def list_all_iff read_number_rest)

lemma consumes_separator:
  assumes "consumes ip_char rd" and "ip_char c"
  shows "consumes ip_char (read_separator c i rd)"
proof (unfold consumes_def, intro allI impI)
  fix s v r
  assume h: "read_separator c i rd s = Some (v, r)"
  show "\<exists>ds. s = ds @ r \<and> list_all ip_char ds"
  proof (cases "i > 0")
    case True
    with h obtain r' where s: "s = c # r'" "rd r' = Some (v, r)"
      by (auto simp: read_separator_def split: list.splits if_splits)
    with assms obtain ds where "r' = ds @ r" "list_all ip_char ds" unfolding consumes_def by blast
    with s assms(2) show ?thesis by (intro exI[of _ "c # ds"]) simp
  next
    case False
    with h assms show ?thesis by (auto simp: read_separator_def consumes_def)
  qed
qed

lemma consumes_octets: "consumes ip_char (read_octets i n)"
proof (induction n arbitrary: i)
  case 0
  then show ?case by (simp add: consumes_def)
next
  case (Suc n)
  have sep: "consumes ip_char (read_separator CHR ''.'' i read_octet)"
    by (rule consumes_separator[OF consumes_octet]) (simp add: ip_char_def)
  show ?case
  proof (unfold consumes_def, intro allI impI)
    fix s v r
    assume "read_octets i (Suc n) s = Some (v, r)"
    then obtain o1 r1 os where a: "read_separator CHR ''.'' i read_octet s = Some (o1, r1)"
      and b: "read_octets (Suc i) n r1 = Some (os, r)"
      by (auto split: option.splits)
    from sep a obtain ds where ds: "s = ds @ r1" "list_all ip_char ds" unfolding consumes_def by blast
    from Suc[of "Suc i"] b obtain es where "r1 = es @ r" "list_all ip_char es" unfolding consumes_def by blast
    with ds show "\<exists>ds. s = ds @ r \<and> list_all ip_char ds" by (intro exI[of _ "ds @ es"]) simp
  qed
qed

lemma read_groups_rest:
  "read_groups i n s = (gs, b, r) \<Longrightarrow> \<exists>ds. s = ds @ r \<and> list_all ip_char ds"
proof (induction n arbitrary: i s gs b r)
  case 0
  then show ?case by simp
next
  case (Suc n)
  have sep4: "consumes ip_char (read_separator CHR '':'' i (read_octets 0 4))"
    by (rule consumes_separator[OF consumes_octets]) (simp add: ip_char_def)
  have sepg: "consumes ip_char (read_separator CHR '':'' i read_group)"
    by (rule consumes_separator[OF consumes_group]) (simp add: ip_char_def)
  show ?case
  proof (cases "if n > 0 then read_separator CHR '':'' i (read_octets 0 4) s else None")
    case (Some x)
    then obtain os r' where "read_separator CHR '':'' i (read_octets 0 4) s = Some (os, r')"
      by (cases x) (auto split: if_splits)
    with Suc.prems Some sep4 show ?thesis unfolding consumes_def by (auto split: if_splits)
  next
    case none: None
    show ?thesis
    proof (cases "read_separator CHR '':'' i read_group s")
      case None
      with none Suc.prems show ?thesis by (auto intro: exI[of _ "[]"])
    next
      case (Some x)
      obtain g r1 where x: "x = (g, r1)" by (cases x)
      obtain gs' b' r' where rec: "read_groups (Suc i) n r1 = (gs', b', r')" by (cases "read_groups (Suc i) n r1")
      from sepg Some x obtain ds where ds: "s = ds @ r1" "list_all ip_char ds" unfolding consumes_def by blast
      from Suc.IH[OF rec] obtain es where "r1 = es @ r'" "list_all ip_char es" by blast
      moreover have "r' = r" using Suc.prems none Some x rec by auto
      ultimately show ?thesis using ds by (intro exI[of _ "ds @ es"]) simp
    qed
  qed
qed

lemma parse_ipv6_chars: "parse_ipv6 s = Some ip \<Longrightarrow> list_all ip_char s"
proof -
  assume h: "parse_ipv6 s = Some ip"
  obtain head v4 r where g: "read_groups 0 8 s = (head, v4, r)" by (cases "read_groups 0 8 s")
  from read_groups_rest[OF g] obtain ds where s: "s = ds @ r" "list_all ip_char ds" by blast
  consider "r = []" | r' where "r = CHR '':'' # CHR '':'' # r'" "snd (snd (read_groups 0 (8 - (length head + 1)) r')) = []"
    using h g by (auto simp: parse_ipv6_def split: if_splits list.splits prod.splits)
  then show ?thesis
  proof cases
    case (2 r')
    obtain gs b q where g': "read_groups 0 (8 - (length head + 1)) r' = (gs, b, q)"
      by (cases "read_groups 0 (8 - (length head + 1)) r'")
    from read_groups_rest[OF g'] 2 g' have "list_all ip_char r'" by auto
    with s 2 show ?thesis by (simp add: ip_char_def)
  qed (use s in simp)
qed

end
