(* ===== verification/Login_Failure.thy ===== *)
theory Login_Failure
  imports Rust_Ipv6 Conn_Types
begin

text \<open>
  Throttling of failed logins: the back-off for operating-system credentials
  (\<^verbatim>\<open>client/src/server/login_failure_check.rs\<close>) and the per-address counters with the IPv6 prefix buckets
  (\<^verbatim>\<open>get_ipv6_prefixes\<close> to \<^verbatim>\<open>check_failure_with_scope\<close> in \<^verbatim>\<open>client/src/server/connection.rs\<close>).

  \<open>failure_state\<close> holds the two process-wide tables.  Times are milliseconds, a parameter of each
  operation; the counters are \<^verbatim>\<open>i32\<close> and wrap.  What an operation sends to the peer or to the audit log is
  returned as a list of effects.
\<close>

datatype failure_scope = DefaultScope | TerminalOsLogin

definition idle_reset_ms :: int where "idle_reset_ms = 120 * 60 * 1000"
definition backoff_base_seconds :: int where "backoff_base_seconds = 15"
definition backoff_max_seconds :: int where "backoff_max_seconds = 30 * 60"

record policy_decision =
  pd_allowed :: bool
  pd_login_error :: "string option"
  pd_audit :: "alarm_audit_type option"

record os_failure_state =
  total_failures :: int
  backoff_until_ms :: "ms option"
  last_failure_ms :: "ms option"

definition os_failure_default :: os_failure_state where
  "os_failure_default = \<lparr>total_failures = 0, backoff_until_ms = None, last_failure_ms = None\<rparr>"

definition is_os_credential_scope :: "failure_scope \<Rightarrow> bool" where
  "is_os_credential_scope scope \<longleftrightarrow> scope = TerminalOsLogin"

fun backoff_audit_type_for_scope :: "failure_scope \<Rightarrow> alarm_audit_type option" where
  "backoff_audit_type_for_scope TerminalOsLogin = Some TerminalOsLoginBackoff"
| "backoff_audit_type_for_scope DefaultScope = None"

definition os_credential_login_backoff_seconds :: "int \<Rightarrow> int" where
  "os_credential_login_backoff_seconds n =
     (if n \<le> 2 then 0
      else let e = min (n - 3) 7; seconds = backoff_base_seconds * 2 ^ nat e
           in min seconds backoff_max_seconds)"

definition normalize_backoff :: "os_failure_state \<Rightarrow> ms \<Rightarrow> os_failure_state" where
  "normalize_backoff st now =
     (case backoff_until_ms st of
        Some until \<Rightarrow> if until \<le> now then st\<lparr>backoff_until_ms := None\<rparr> else st
      | None \<Rightarrow> st)"

definition reset_totals_on_idle :: "os_failure_state \<Rightarrow> ms \<Rightarrow> os_failure_state" where
  "reset_totals_on_idle st now =
     (case last_failure_ms st of
        Some since \<Rightarrow> if sat_i64 (now - since) \<ge> idle_reset_ms then os_failure_default else st
      | None \<Rightarrow> st)"

definition allow_decision :: policy_decision where
  "allow_decision = \<lparr>pd_allowed = True, pd_login_error = None, pd_audit = None\<rparr>"

definition block_decision :: "string \<Rightarrow> alarm_audit_type option \<Rightarrow> policy_decision" where
  "block_decision err alarm = \<lparr>pd_allowed = False, pd_login_error = Some err, pd_audit = alarm\<rparr>"

definition remaining_seconds :: "ms \<Rightarrow> ms \<Rightarrow> int" where
  "remaining_seconds until now = max ((max (until - now) 0 + 999) div 1000) 1"

definition evaluate_os_credential_policy ::
    "failure_scope \<Rightarrow> ms \<Rightarrow> os_failure_state \<Rightarrow> policy_decision \<times> os_failure_state" where
  "evaluate_os_credential_policy scope now st =
     (if \<not> is_os_credential_scope scope then (allow_decision, st)
      else let st = normalize_backoff (reset_totals_on_idle st now) now in
        case backoff_until_ms st of
          Some until \<Rightarrow>
            let n = remaining_seconds until now;
                label = (if n = 1 then ''second'' else ''seconds'')
            in (block_decision (''Please try again in '' @ show_nat (nat n) @ '' '' @ label @ ''.'')
                  (backoff_audit_type_for_scope scope), st)
        | None \<Rightarrow> (allow_decision, st))"

definition record_os_credential_failure :: "failure_scope \<Rightarrow> ms \<Rightarrow> os_failure_state \<Rightarrow> os_failure_state" where
  "record_os_credential_failure scope now st =
     (if \<not> is_os_credential_scope scope then st
      else let st = normalize_backoff (reset_totals_on_idle st now) now;
               st = st\<lparr>total_failures := sat_i32 (total_failures st + 1), last_failure_ms := Some now\<rparr>;
               backoff = os_credential_login_backoff_seconds (total_failures st)
           in if backoff > 0 then st\<lparr>backoff_until_ms := Some (now + backoff * 1000)\<rparr> else st)"

text \<open>\<^verbatim>\<open>try_lock_owned\<close> on the gate; the flag says whether another login holds it.\<close>

definition try_acquire_os_credential_login_gate :: "bool \<Rightarrow> bool option" where
  "try_acquire_os_credential_login_gate held = (if held then None else Some True)"

section \<open>Per-address counters\<close>

type_synonym failure = "int \<times> int \<times> int"
type_synonym failures = "string \<rightharpoonup> failure"

record failure_state =
  fl_os :: os_failure_state
  fl_maps :: "nat \<Rightarrow> failures"

definition mask_u128 :: "ipv6 \<Rightarrow> nat \<Rightarrow> ipv6" where
  "mask_u128 addr prefix =
     (let m = (if prefix = 0 \<or> prefix > 128 then 0 else push_bit (128 - prefix) (- 1)) in and addr m)"

definition get_ipv6_prefixes :: "string \<Rightarrow> (string \<times> string \<times> string) option" where
  "get_ipv6_prefixes ip =
     (let ip_only = trim (hd (splitp (\<lambda>c. c = CHR ''%'') ip)) in
      case parse_ipv6 ip_only of
        None \<Rightarrow> None
      | Some a \<Rightarrow> Some (show_ipv6 (mask_u128 a 64) @ ''/64'', show_ipv6 (mask_u128 a 56) @ ''/56'',
                       show_ipv6 (mask_u128 a 48) @ ''/48''))"

definition bump_failure_entry :: "failure \<Rightarrow> int \<Rightarrow> failure" where
  "bump_failure_entry cur time =
     (case cur of (minute, in_minute, n) \<Rightarrow>
        if minute = time then (minute, wrap_i32 (in_minute + 1), wrap_i32 (n + 1))
        else (time, 1, wrap_i32 (n + 1)))"

definition get_failure :: "failures \<Rightarrow> string \<Rightarrow> failure" where
  "get_failure m k = (case m k of Some f \<Rightarrow> f | None \<Rightarrow> (0, 0, 0))"

definition bump :: "int \<Rightarrow> string \<Rightarrow> failures \<Rightarrow> failures" where
  "bump time k m = m(k \<mapsto> bump_failure_entry (get_failure m k) time)"

definition update_failure_with_scope ::
    "string \<Rightarrow> failure \<times> int \<Rightarrow> bool \<Rightarrow> nat \<Rightarrow> failure_scope \<Rightarrow> ms \<Rightarrow> failure_state \<Rightarrow> failure_state" where
  "update_failure_with_scope ip ft remove i scope now st =
     (case ft of (failure, time) \<Rightarrow>
        if scope = TerminalOsLogin
        then (if \<not> remove then st\<lparr>fl_os := record_os_credential_failure scope now (fl_os st)\<rparr> else st)
        else
          let m = fl_maps st i in
          if remove
          then (if fst failure \<noteq> 0
                then (case get_ipv6_prefixes ip of
                        Some (p64, p56, p48) \<Rightarrow>
                          st\<lparr>fl_maps := (fl_maps st)(i := m(p64 := None, p56 := None, p48 := None, ip := None))\<rparr>
                      | None \<Rightarrow> st\<lparr>fl_maps := (fl_maps st)(i := m(ip := None))\<rparr>)
                else st)
          else (case get_ipv6_prefixes ip of
                  Some (p64, p56, p48) \<Rightarrow>
                    st\<lparr>fl_maps := (fl_maps st)(i := bump time ip (fold (bump time) [p64, p56, p48] m))\<rparr>
                | None \<Rightarrow> st\<lparr>fl_maps := (fl_maps st)(i := bump time ip m)\<rparr>))"

definition update_failure :: "string \<Rightarrow> failure \<times> int \<Rightarrow> bool \<Rightarrow> nat \<Rightarrow> ms \<Rightarrow> failure_state \<Rightarrow> failure_state" where
  "update_failure ip ft remove i now st = update_failure_with_scope ip ft remove i DefaultScope now st"

definition check_failure_ipv6_prefix ::
    "failures \<Rightarrow> int \<Rightarrow> string \<Rightarrow> nat \<Rightarrow> int \<Rightarrow> ((failure \<times> int) \<times> bool \<times> conn_effect list) option" where
  "check_failure_ipv6_prefix m time prefix prefix_num thresh =
     (let f = get_failure m prefix in
      if snd (snd f) > thresh
      then Some ((f, time), False,
             [LoginError (''Too many wrong attempts for IPv6 prefix /'' @ show_nat prefix_num),
              PostAlarm ExceedIPv6PrefixAttempts])
      else None)"

text \<open>The clock is read once for the minute and, for operating-system logins, once more.\<close>

definition minute_of :: "ms \<Rightarrow> int" where
  "minute_of now = wrap_i32 (sgn now * (\<bar>now\<bar> div 60000))"

definition check_os_failure ::
    "failure_scope \<Rightarrow> ms \<Rightarrow> failure_state \<Rightarrow> bool \<times> conn_effect list \<times> failure_state" where
  "check_os_failure scope now st =
     (let (d, os) = evaluate_os_credential_policy scope now (fl_os st); st = st\<lparr>fl_os := os\<rparr> in
      if pd_allowed d then (True, [], st)
      else (False,
            (case pd_login_error d of Some e \<Rightarrow> [LoginError e] | None \<Rightarrow> [])
            @ (case pd_audit d of Some a \<Rightarrow> [PostAlarm a] | None \<Rightarrow> []), st))"

definition check_address_failure :: "failures \<Rightarrow> int \<Rightarrow> string \<Rightarrow> (failure \<times> int) \<times> bool \<times> conn_effect list" where
  "check_address_failure m time ip =
     (let f = get_failure m ip in
      if snd (snd f) > 30 then ((f, time), False, [LoginError ''Too many wrong attempts'', PostAlarm ExceedThirtyAttempts])
      else if time = fst f \<and> fst (snd f) > 6
      then ((f, time), False, [LoginError ''Please try 1 minute later'', PostAlarm SixAttemptsWithinOneMinute])
      else ((f, time), True, []))"

definition check_failure_with_scope ::
    "string \<Rightarrow> nat \<Rightarrow> failure_scope \<Rightarrow> ms \<Rightarrow> ms \<Rightarrow> failure_state
       \<Rightarrow> ((failure \<times> int) \<times> bool) \<times> conn_effect list \<times> failure_state" where
  "check_failure_with_scope ip i scope now now' st =
     (let time = minute_of now; m = fl_maps st i in
      if scope = TerminalOsLogin
      then (case check_os_failure scope now' st of (res, es, st) \<Rightarrow> ((((0, 0, 0), time), res), es, st))
      else
        let blocked = (case get_ipv6_prefixes ip of
                None \<Rightarrow> None
              | Some (p64, p56, p48) \<Rightarrow>
                  (case check_failure_ipv6_prefix m time p64 64 60 of
                     Some r \<Rightarrow> Some r
                   | None \<Rightarrow>
                       (case check_failure_ipv6_prefix m time p56 56 80 of
                          Some r \<Rightarrow> Some r
                        | None \<Rightarrow> check_failure_ipv6_prefix m time p48 48 100)))
        in case (case blocked of Some r \<Rightarrow> r | None \<Rightarrow> check_address_failure m time ip) of
             (ft, res, es) \<Rightarrow> ((ft, res), es, st))"

definition check_failure ::
    "string \<Rightarrow> nat \<Rightarrow> ms \<Rightarrow> failure_state \<Rightarrow> ((failure \<times> int) \<times> bool) \<times> conn_effect list \<times> failure_state" where
  "check_failure ip i now st = check_failure_with_scope ip i DefaultScope now now st"

section \<open>The contract\<close>

text \<open>The buckets an address counts against, and the number of failures each tolerates.\<close>

definition buckets :: "string \<Rightarrow> string list" where
  "buckets ip = (case get_ipv6_prefixes ip of None \<Rightarrow> [ip] | Some (p64, p56, p48) \<Rightarrow> [p64, p56, p48, ip])"

definition limits :: "string \<Rightarrow> (string \<times> nat) list" where
  "limits ip = (case get_ipv6_prefixes ip of
       None \<Rightarrow> [(ip, 30)]
     | Some (p64, p56, p48) \<Rightarrow> [(p64, 60), (p56, 80), (p48, 100), (ip, 30)])"

text \<open>One call of \<open>update_failure\<close> (address, what the check before it returned, outcome), and the minutes of
  the failures a bucket has seen since it was last cleared, latest first.\<close>

type_synonym attempt = "string \<times> (failure \<times> int) \<times> bool"

definition apply_attempt :: "nat \<Rightarrow> attempt \<Rightarrow> failure_state \<Rightarrow> failure_state" where
  "apply_attempt i a st = (case a of (ip, ft, passed) \<Rightarrow> update_failure ip ft passed i 0 st)"

definition step_history :: "string \<Rightarrow> attempt \<Rightarrow> int list \<Rightarrow> int list" where
  "step_history k a h = (case a of (ip, (failure, time), passed) \<Rightarrow>
     if k \<notin> set (buckets ip) then h
     else if passed then (if fst failure \<noteq> 0 then [] else h)
     else time # h)"

definition history :: "string \<Rightarrow> attempt list \<Rightarrow> int list" where
  "history k as = fold (step_history k) as []"

definition admitted :: "string \<Rightarrow> int \<Rightarrow> attempt list \<Rightarrow> bool" where
  "admitted ip minute as \<longleftrightarrow>
     list_all (\<lambda>(k, limit). length (history k as) \<le> limit) (limits ip)
     \<and> length (takeWhile (\<lambda>t. t = minute) (history ip as)) \<le> 6"

fun entry_of :: "int list \<Rightarrow> failure" where
  "entry_of [] = (0, 0, 0)"
| "entry_of (t # h) = (t, 1 + int (length (takeWhile (\<lambda>x. x = t) h)), 1 + int (length h))"

definition fresh_failures :: failure_state where
  "fresh_failures = \<lparr>fl_os = os_failure_default, fl_maps = (\<lambda>_. Map.empty)\<rparr>"

section \<open>Proofs\<close>

lemma hex_digit_ok: "d < 16 \<Longrightarrow> is_ascii_hexdigit (hex_digit d)"
  by (auto simp: hex_digit_def is_ascii_hexdigit_def is_ascii_digit_def)

lemma show_hex_chars: "list_all is_ascii_hexdigit (show_hex n)"
  by (induction n rule: show_hex.induct) (subst show_hex.simps, auto simp: hex_digit_ok)

lemma list_all_ip_char: "list_all is_ascii_hexdigit s \<Longrightarrow> list_all ip_char s"
  by (simp add: list_all_iff ip_char_def)

lemma show_ipv4_chars: "list_all ip_char (show_ipv4 ip)"
  unfolding show_ipv4_def
  by (rule list_all_join)
    (use show_nat_digits in \<open>auto simp: list_all_iff ip_char_def is_ascii_hexdigit_def is_ascii_digit_def\<close>)

lemma show_segments_chars: "list_all ip_char (join '':'' (map show_hex gs))"
  by (rule list_all_join) (auto simp: ip_char_def intro!: list_all_ip_char show_hex_chars)

lemma show_ipv6_chars: "list_all ip_char (show_ipv6 ip)"
proof -
  have "list_all ip_char ''::ffff:''" "list_all ip_char ''::''"
    by (simp_all add: ip_char_def is_ascii_hexdigit_def)
  then show ?thesis
    unfolding show_ipv6_def Let_def
    by (auto simp: show_segments_chars show_ipv4_chars split: prod.split)
qed

text \<open>A prefix bucket is never an address: the text of an address has no slash.\<close>

lemma prefix_not_ip:
  assumes "get_ipv6_prefixes ip = Some (p64, p56, p48)"
  shows "ip \<notin> {p64, p56, p48}"
proof
  assume "ip \<in> {p64, p56, p48}"
  then obtain a d where ip: "ip = show_ipv6 a @ CHR ''/'' # d" "list_all is_ascii_digit d"
    using assms by (auto simp: get_ipv6_prefixes_def Let_def is_ascii_digit_def split: option.splits)
  have ok: "list_all (\<lambda>c. ip_char c \<or> c = CHR ''/'') ip"
    using show_ipv6_chars[of a] ip(2)
    by (auto simp: ip list_all_iff ip_char_def is_ascii_hexdigit_def is_ascii_digit_def)
  then have "splitp (\<lambda>c. c = CHR ''%'') ip = [ip]"
    by (intro splitp_free) (auto simp: list_all_iff ip_char_def is_ascii_hexdigit_def is_ascii_digit_def)
  moreover have "trim ip = ip"
    by (rule trim_ascii)
      (use ok in \<open>auto simp: list_all_iff ip_char_def is_ascii_hexdigit_def is_ascii_digit_def
        is_cont_def is_whitespace_def\<close>)
  ultimately obtain b where "parse_ipv6 ip = Some b"
    using assms by (auto simp: get_ipv6_prefixes_def split: option.splits)
  from parse_ipv6_chars[OF this] show False by (simp add: ip ip_char_def is_ascii_hexdigit_def is_ascii_digit_def)
qed

lemma distinct_buckets: "distinct (buckets ip)"
proof (cases "get_ipv6_prefixes ip")
  case (Some p)
  obtain p64 p56 p48 where p: "p = (p64, p56, p48)" by (cases p)
  have "last p64 = CHR ''4''" "last p56 = CHR ''6''" "last p48 = CHR ''8''"
    using Some p by (auto simp: get_ipv6_prefixes_def Let_def split: option.splits)
  then show ?thesis using prefix_not_ip[OF Some[unfolded p]] by (auto simp: buckets_def Some p)
qed (simp add: buckets_def)

lemma bump_entry_of:
  "length h < 2 ^ 31 - 1 \<Longrightarrow> bump_failure_entry (entry_of h) t = entry_of (t # h)"
proof (cases h)
  case (Cons u g)
  assume "length h < 2 ^ 31 - 1"
  moreover have "length (takeWhile (\<lambda>x. x = v) g) \<le> length g" for v by (rule length_takeWhile_le)
  ultimately have "int (length g) < 2 ^ 31 - 2" "\<And>v. int (length (takeWhile (\<lambda>x. x = v) g)) < 2 ^ 31 - 2"
    unfolding Cons by (simp_all add: le_less_trans[of _ "length g"])
  then show ?thesis by (auto simp: Cons bump_failure_entry_def intro!: wrap_i32_id)
qed (simp add: bump_failure_entry_def)

lemma get_failure_bump:
  "get_failure (bump t k m) k' = (if k' = k then bump_failure_entry (get_failure m k) t else get_failure m k')"
  by (simp add: bump_def get_failure_def)

lemma get_failure_fold_bump:
  "distinct ks \<Longrightarrow> get_failure (fold (bump t) ks m) k =
     (if k \<in> set ks then bump_failure_entry (get_failure m k) t else get_failure m k)"
  by (induction ks arbitrary: m) (auto simp: get_failure_bump)

lemma update_failure_map:
  "fl_maps (update_failure ip (f, t) passed i now st) i =
     (if passed then (if fst f \<noteq> 0 then (fl_maps st i) |` (- set (buckets ip)) else fl_maps st i)
      else fold (bump t) (buckets ip) (fl_maps st i))"
  by (cases "get_ipv6_prefixes ip")
    (auto simp: update_failure_def update_failure_with_scope_def buckets_def Let_def restrict_map_def fun_eq_iff)

lemma get_failure_restrict: "get_failure (m |` A) k = (if k \<in> A then get_failure m k else (0, 0, 0))"
  by (simp add: get_failure_def restrict_map_def)

lemma apply_attempt_entry:
  assumes "get_failure (fl_maps st i) k = entry_of h" and "length h < 2 ^ 31 - 1"
  shows "get_failure (fl_maps (apply_attempt i a st) i) k = entry_of (step_history k a h)"
proof -
  obtain ip f t passed where a: "a = (ip, (f, t), passed)" by (cases a) auto
  show ?thesis
    using assms bump_entry_of[OF assms(2), of t]
    by (cases passed)
      (simp_all add: a apply_attempt_def update_failure_map step_history_def get_failure_fold_bump distinct_buckets
        get_failure_restrict del: entry_of.simps(2))
qed

lemma length_history: "length (fold (step_history k) as h) \<le> length as + length h"
proof (induction as arbitrary: h)
  case (Cons a as)
  have "length (step_history k a h) \<le> Suc (length h)" by (auto simp: step_history_def split: prod.split)
  with Cons[of "step_history k a h"] show ?case by simp
qed simp

lemma fold_attempts_entry:
  assumes "get_failure (fl_maps st i) k = entry_of h" and "length as + length h < 2 ^ 31"
  shows "get_failure (fl_maps (fold (apply_attempt i) as st) i) k = entry_of (fold (step_history k) as h)"
  using assms
proof (induction as arbitrary: st h)
  case (Cons a as)
  have "get_failure (fl_maps (apply_attempt i a st) i) k = entry_of (step_history k a h)"
    using Cons.prems by (intro apply_attempt_entry) auto
  moreover have "length (step_history k a h) \<le> Suc (length h)" by (auto simp: step_history_def split: prod.split)
  ultimately show ?case using Cons.prems(2) by (simp add: Cons.IH)
qed simp

lemma attempts_entry:
  "length as < 2 ^ 31 \<Longrightarrow>
     get_failure (fl_maps (fold (apply_attempt i) as fresh_failures) i) k = entry_of (history k as)"
  unfolding history_def by (rule fold_attempts_entry) (simp_all add: fresh_failures_def get_failure_def)

lemma entry_of_total [simp]: "snd (snd (entry_of h)) = int (length h)"
  by (cases h) simp_all

lemma entry_of_minute:
  "t = fst (entry_of h) \<and> fst (snd (entry_of h)) > 6 \<longleftrightarrow> length (takeWhile (\<lambda>x. x = t) h) > 6"
  by (cases h) auto

text \<open>\<^bold>\<open>C10\<close> (the counters implement the lock-out contract).  After any sequence of recorded attempts,
  \<^verbatim>\<open>check_failure\<close> lets an address try exactly when none of its buckets (the address and, for IPv6, its
  /64, /56 and /48 networks) has seen more than the tolerated number of failures since it was cleared, and at
  most six of the latest failures of the address fall into the current minute.\<close>

theorem check_failure_refines:
  assumes "length as < 2 ^ 31"
  shows "snd (fst (check_failure ip i now (fold (apply_attempt i) as fresh_failures)))
           \<longleftrightarrow> admitted ip (minute_of now) as"
proof -
  let ?m = "fl_maps (fold (apply_attempt i) as fresh_failures) i"
  have e: "get_failure ?m k = entry_of (history k as)" for k by (rule attempts_entry[OF assms])
  have pre: "check_failure_ipv6_prefix ?m t k n (int limit) =
      (if length (history k as) \<le> limit then None
       else Some ((entry_of (history k as), t), False,
         [LoginError (''Too many wrong attempts for IPv6 prefix /'' @ show_nat n), PostAlarm ExceedIPv6PrefixAttempts]))"
    for t k n limit
    by (simp add: check_failure_ipv6_prefix_def e Let_def)
  note pre' = pre[of _ _ _ 60, simplified] pre[of _ _ _ 80, simplified] pre[of _ _ _ 100, simplified]
  have adr: "fst (snd (check_address_failure ?m t ip)) \<longleftrightarrow>
      length (history ip as) \<le> 30 \<and> length (takeWhile (\<lambda>x. x = t) (history ip as)) \<le> 6" for t
    using entry_of_minute[of t "history ip as"] by (auto simp: check_address_failure_def e Let_def)
  obtain f res es where c: "check_address_failure ?m (minute_of now) ip = (f, res, es)"
    by (cases "check_address_failure ?m (minute_of now) ip")
  show ?thesis
  proof (cases "get_ipv6_prefixes ip")
    case None
    then show ?thesis using adr[of "minute_of now"]
      by (simp add: check_failure_def check_failure_with_scope_def admitted_def limits_def Let_def c)
  next
    case (Some p)
    obtain p64 p56 p48 where p: "p = (p64, p56, p48)" by (cases p)
    consider "\<not> length (history p64 as) \<le> 60"
      | "length (history p64 as) \<le> 60" "\<not> length (history p56 as) \<le> 80"
      | "length (history p64 as) \<le> 60" "length (history p56 as) \<le> 80" "\<not> length (history p48 as) \<le> 100"
      | "length (history p64 as) \<le> 60" "length (history p56 as) \<le> 80" "length (history p48 as) \<le> 100"
      by blast
    then show ?thesis using adr[of "minute_of now"]
      by cases (simp_all add: check_failure_def check_failure_with_scope_def admitted_def limits_def Let_def pre' c Some p)
  qed
qed

lemma history_replicate:
  "history k (replicate n (ip, (f, t), False)) = (if k \<in> set (buckets ip) then replicate n t else [])"
proof -
  have "fold (step_history k) (replicate n (ip, (f, t), False)) h =
      (if k \<in> set (buckets ip) then replicate n t @ h else h)" for h
    by (induction n arbitrary: h) (auto simp: step_history_def replicate_app_Cons_same)
  then show ?thesis by (simp add: history_def)
qed

theorem check_failure_refines_witness:
  "snd (fst (check_failure ''10.0.0.1'' 0 600000
       (fold (apply_attempt 0) (replicate 30 (''10.0.0.1'', ((0, 0, 0), 5), False)) fresh_failures)))
   \<and> \<not> snd (fst (check_failure ''10.0.0.1'' 0 600000
       (fold (apply_attempt 0) (replicate 31 (''10.0.0.1'', ((0, 0, 0), 5), False)) fresh_failures)))"
proof -
  have "minute_of 600000 = 10" "limits ''10.0.0.1'' = [(''10.0.0.1'', 30)]" "buckets ''10.0.0.1'' = [''10.0.0.1'']"
    by code_simp+
  then have "admitted ''10.0.0.1'' (minute_of 600000) (replicate 30 (''10.0.0.1'', ((0, 0, 0), 5), False))"
    "\<not> admitted ''10.0.0.1'' (minute_of 600000) (replicate 31 (''10.0.0.1'', ((0, 0, 0), 5), False))"
    by (simp_all add: admitted_def history_replicate)
  then show ?thesis
    using check_failure_refines[of "replicate 30 (''10.0.0.1'', ((0, 0, 0), 5), False)" "''10.0.0.1''" 0 600000]
      check_failure_refines[of "replicate 31 (''10.0.0.1'', ((0, 0, 0), 5), False)" "''10.0.0.1''" 0 600000]
    by simp
qed

text \<open>Failures of operating-system logins that follow each other without a break of two hours.\<close>

abbreviation paced :: "ms list \<Rightarrow> bool" where
  "paced ts \<equiv> successively (\<lambda>a b. a \<le> b \<and> b - a < idle_reset_ms) ts"

lemma sat_i64_idle: "sat_i64 x \<ge> idle_reset_ms \<longleftrightarrow> x \<ge> idle_reset_ms"
  by (simp add: sat_i64_def idle_reset_ms_def i64_min_def i64_max_def max_def min_def)

lemma backoff_bounds:
  "0 < os_credential_login_backoff_seconds n \<longleftrightarrow> 3 \<le> n"
  "os_credential_login_backoff_seconds n \<le> 1800"
  by (auto simp: os_credential_login_backoff_seconds_def Let_def backoff_base_seconds_def backoff_max_seconds_def)

lemma remaining_seconds_bounds: "until - now \<le> 1800 * 1000 \<Longrightarrow> 1 \<le> remaining_seconds until now \<and> remaining_seconds until now \<le> 1800"
proof -
  assume "until - now \<le> 1800 * 1000"
  then have "max (until - now) 0 + 999 < 1801 * 1000" by simp
  then have "(max (until - now) 0 + 999) div 1000 < 1801" by (simp add: div_less_iff_less_mult)
  then show ?thesis by (simp add: remaining_seconds_def)
qed

lemma paced_failures:
  assumes "paced ts" and "ts \<noteq> []" and "length ts < 2 ^ 31"
  shows "fold (record_os_credential_failure TerminalOsLogin) ts os_failure_default =
    \<lparr>total_failures = int (length ts),
     backoff_until_ms = (if length ts \<ge> 3
       then Some (last ts + os_credential_login_backoff_seconds (int (length ts)) * 1000) else None),
     last_failure_ms = Some (last ts)\<rparr>"
  using assms
proof (induction ts rule: rev_induct)
  case (snoc t ts)
  have sat: "sat_i32 (int (length ts) + 1) = int (length ts) + 1" using snoc.prems(3) by (simp add: sat_i32_def i32_max_def)
  show ?case
  proof (cases "ts = []")
    case True
    then show ?thesis
      by (simp add: record_os_credential_failure_def is_os_credential_scope_def os_failure_default_def
          reset_totals_on_idle_def normalize_backoff_def Let_def os_credential_login_backoff_seconds_def sat_i32_def
          i32_max_def)
  next
    case False
    then have "paced ts" "t - last ts < idle_reset_ms" using snoc.prems(1) by (auto simp: successively_append_iff)
    then have "\<not> sat_i64 (t - last ts) \<ge> idle_reset_ms" by (simp add: sat_i64_idle)
    then show ?thesis
      using snoc.IH[OF \<open>paced ts\<close> False] snoc.prems(3) sat backoff_bounds(1)[of "int (length ts) + 1"] False
      by (auto simp: record_os_credential_failure_def is_os_credential_scope_def reset_totals_on_idle_def
          normalize_backoff_def Let_def add.commute)
  qed
qed simp

text \<open>\<^bold>\<open>C35\<close> (back-off of operating-system logins).  After a series of failures without a two-hour break
  the next login is refused exactly when there were at least three failures and the last one is less than
  15 seconds times two to the number of failures beyond three ago, capped at 30 minutes; a refusal names the
  seconds left, between 1 and 1800, and raises an alarm.\<close>

theorem os_credential_backoff_exact:
  assumes "paced ts" and "ts \<noteq> []" and "length ts < 2 ^ 31" and "last ts \<le> now"
    and "evaluate_os_credential_policy TerminalOsLogin now
           (fold (record_os_credential_failure TerminalOsLogin) ts os_failure_default) = (d, st)"
  shows "if 3 \<le> length ts \<and> now < last ts + min (15 * 2 ^ min (length ts - 3) 7) 1800 * 1000
    then \<not> pd_allowed d \<and> pd_audit d = Some TerminalOsLoginBackoff
       \<and> (\<exists>n. 1 \<le> n \<and> n \<le> (1800 :: nat) \<and> pd_login_error d = Some (''Please try again in '' @ show_nat n
             @ (if n = 1 then '' second.'' else '' seconds.'')))
    else pd_allowed d \<and> pd_login_error d = None"
proof -
  let ?n = "int (length ts)"
  define b where "b = (min (15 * 2 ^ min (length ts - 3) 7) 1800 :: int)"
  have b: "os_credential_login_backoff_seconds ?n = b" if "3 \<le> length ts"
  proof -
    have "nat (min (?n - 3) 7) = min (length ts - 3) 7" using that by (auto simp: min_def)
    with that show ?thesis
      by (simp add: os_credential_login_backoff_seconds_def Let_def backoff_base_seconds_def backoff_max_seconds_def b_def)
  qed
  have cap: "b \<le> 1800" by (simp add: b_def)
  have idle: "now - last ts < idle_reset_ms" if "now < last ts + b * 1000"
    using that cap by (simp add: idle_reset_ms_def)
  note st = paced_failures[OF assms(1-3)]
  show ?thesis
  proof (cases "3 \<le> length ts \<and> now < last ts + b * 1000")
    case True
    let ?until = "last ts + b * 1000"
    define n where "n = nat (remaining_seconds ?until now)"
    have n: "1 \<le> n" "n \<le> 1800" "int n = remaining_seconds ?until now"
      using True cap assms(4) remaining_seconds_bounds[of ?until now] unfolding n_def by linarith+
    have "\<not> sat_i64 (now - last ts) \<ge> idle_reset_ms" using idle True by (simp add: sat_i64_idle)
    then have "evaluate_os_credential_policy TerminalOsLogin now
        (fold (record_os_credential_failure TerminalOsLogin) ts os_failure_default) =
      (block_decision (''Please try again in '' @ show_nat n @ '' '' @ (if n = 1 then ''second'' else ''seconds'') @ ''.'')
         (Some TerminalOsLoginBackoff),
       fold (record_os_credential_failure TerminalOsLogin) ts os_failure_default)"
      using True b n by (simp add: st evaluate_os_credential_policy_def is_os_credential_scope_def
          reset_totals_on_idle_def normalize_backoff_def Let_def n_def)
    with assms(5) have "\<not> pd_allowed d" "pd_audit d = Some TerminalOsLoginBackoff" "pd_login_error d =
      Some (''Please try again in '' @ show_nat n @ (if n = 1 then '' second.'' else '' seconds.''))"
      by (auto simp: block_decision_def)
    with n(1,2) True show ?thesis unfolding b_def[symmetric] by (simp only: simp_thms if_True) blast
  next
    case False
    then have "d = allow_decision"
      using assms(5)[unfolded st] b
      by (auto simp: evaluate_os_credential_policy_def is_os_credential_scope_def reset_totals_on_idle_def
          normalize_backoff_def os_failure_default_def Let_def split: if_splits)
    with False show ?thesis unfolding b_def[symmetric] by (simp only: if_False) (simp add: allow_decision_def)
  qed
qed

theorem os_credential_backoff_exact_witness:
  "\<not> pd_allowed (fst (evaluate_os_credential_policy TerminalOsLogin 30000
      (fold (record_os_credential_failure TerminalOsLogin) [0, 10000, 20000] os_failure_default)))
   \<and> pd_allowed (fst (evaluate_os_credential_policy TerminalOsLogin 35000
      (fold (record_os_credential_failure TerminalOsLogin) [0, 10000, 20000] os_failure_default)))"
  using os_credential_backoff_exact[of "[0, 10000, 20000]" 30000, OF _ _ _ _ surjective_pairing]
    os_credential_backoff_exact[of "[0, 10000, 20000]" 35000, OF _ _ _ _ surjective_pairing]
  by (simp add: idle_reset_ms_def)

end
