(* ===== verification/Rust_F32.thy ===== *)
theory Rust_F32
  imports Complex_Main "HOL-Library.Log_Nat" "HOL-Library.Code_Target_Nat"
begin

text \<open>
  Non-negative, finite values of \<^verbatim>\<open>f32\<close>: a rational number, rounded after each operation to the nearest
  value with a 24-bit significand (ties to even), with the exponent bounded below by that of the subnormal
  numbers.  The computations modelled with it stay far below the largest finite value, so infinity does not
  arise.
\<close>

type_synonym f32 = rat

definition pow2 :: "int \<Rightarrow> rat" where
  "pow2 e = 2 powi e"

text \<open>The exponent of the leading bit of a positive number.\<close>

definition f32_exponent :: "rat \<Rightarrow> int" where
  "f32_exponent q =
     (let (n, d) = quotient_of q; k = int (floorlog 2 (nat n)) - int (floorlog 2 (nat d))
      in if pow2 k \<le> q then k else k - 1)"

definition round_half_even :: "rat \<Rightarrow> int" where
  "round_half_even m =
     (let f = \<lfloor>m\<rfloor>; r = m - of_int f in
      if r < 1 / 2 then f else if r > 1 / 2 then f + 1 else if even f then f else f + 1)"

definition f32_round :: "rat \<Rightarrow> f32" where
  "f32_round q =
     (if q \<le> 0 then 0
      else let u = pow2 (max (f32_exponent q) (- 126) - 23) in of_int (round_half_even (q / u)) * u)"

definition f32_mul :: "f32 \<Rightarrow> f32 \<Rightarrow> f32" where "f32_mul a b = f32_round (a * b)"
definition f32_div :: "f32 \<Rightarrow> f32 \<Rightarrow> f32" where "f32_div a b = f32_round (a / b)"
definition f32_add :: "f32 \<Rightarrow> f32 \<Rightarrow> f32" where "f32_add a b = f32_round (a + b)"
definition f32_of_nat :: "nat \<Rightarrow> f32" where "f32_of_nat n = f32_round (of_nat n)"

text \<open>\<^verbatim>\<open>as u32\<close>: truncation, saturating; \<^verbatim>\<open>clamp\<close> panics when the bounds are the wrong way round.\<close>

definition f32_to_u32 :: "f32 \<Rightarrow> nat" where
  "f32_to_u32 x = min (nat \<lfloor>x\<rfloor>) (2 ^ 32 - 1)"

definition f32_clamp :: "f32 \<Rightarrow> f32 \<Rightarrow> f32 \<Rightarrow> f32 option" where
  "f32_clamp x lo hi = (if lo > hi then None else Some (if x < lo then lo else if x > hi then hi else x))"

lemma f32_clamp_Some: "lo \<le> hi \<Longrightarrow> \<exists>y. f32_clamp x lo hi = Some y \<and> lo \<le> y \<and> y \<le> hi"
  by (auto simp: f32_clamp_def)

lemma f32_clamp_range: "f32_clamp x lo hi = Some y \<Longrightarrow> lo \<le> y \<and> y \<le> hi"
  by (auto simp: f32_clamp_def split: if_splits)

text \<open>Rounding is the identity on its own results.\<close>

lemma pow2_pos [simp]: "0 < pow2 e" "pow2 e \<noteq> 0" "0 \<le> pow2 e"
  by (simp_all add: pow2_def)

lemma pow2_add: "pow2 (a + b) = pow2 a * pow2 b"
  by (simp add: pow2_def power_int_add)

lemma pow2_less: "pow2 a < pow2 b \<longleftrightarrow> a < b"
proof
  assume "pow2 a < pow2 b"
  then show "a < b"
    using power_int_increasing[of b a "2 :: rat"] unfolding pow2_def by (metis not_less one_le_numeral)
next
  assume "a < b"
  then show "pow2 a < pow2 b" unfolding pow2_def by (intro power_int_strict_increasing) simp_all
qed

lemma pow2_nat: "pow2 (int n) = 2 ^ n"
  by (simp add: pow2_def)

lemma f32_exponent_bounds:
  assumes "0 < q"
  shows "pow2 (f32_exponent q) \<le> q" and "q < pow2 (f32_exponent q + 1)"
proof -
  obtain n d where nd: "quotient_of q = (n, d)" by (cases "quotient_of q")
  have d: "0 < d" and q: "q = of_int n / of_int d"
    using quotient_of_denom_pos[OF nd] quotient_of_div[OF nd] by simp_all
  with assms have n: "0 < n" by (simp add: zero_less_divide_iff)
  define a where "a = floorlog 2 (nat n)"
  define b where "b = floorlog 2 (nat d)"
  have fl: "2 ^ (floorlog 2 m - 1) \<le> m" "m < 2 ^ floorlog 2 m" "0 < floorlog 2 m" if "0 < m" for m :: nat
    using floorlog_bounds[of m 2] that by (auto simp: floorlog_def)
  have an: "2 ^ (a - 1) \<le> nat n" "nat n < 2 ^ a" "0 < a" and bd: "2 ^ (b - 1) \<le> nat d" "nat d < 2 ^ b" "0 < b"
    unfolding a_def b_def using fl[of "nat n"] fl[of "nat d"] n d by auto
  have N: "pow2 (int a - 1) \<le> of_int n" "of_int n < pow2 (int a)"
    and D: "pow2 (int b - 1) \<le> of_int d" "of_int d < pow2 (int b)"
  proof -
    have r: "(of_int m :: rat) = of_nat (nat m)" if "0 < m" for m using that by simp
    have e: "pow2 (int c - 1) = 2 ^ (c - 1)" if "0 < c" for c
      using pow2_nat[of "c - 1"] that by (simp add: of_nat_diff)
    show "pow2 (int a - 1) \<le> of_int n" "of_int n < pow2 (int a)"
      unfolding r[OF n] e[OF an(3)] pow2_nat using an(1,2) by (metis of_nat_le_iff of_nat_numeral of_nat_power,
        metis of_nat_less_iff of_nat_numeral of_nat_power)
    show "pow2 (int b - 1) \<le> of_int d" "of_int d < pow2 (int b)"
      unfolding r[OF d] e[OF bd(3)] pow2_nat using bd(1,2) by (metis of_nat_le_iff of_nat_numeral of_nat_power,
        metis of_nat_less_iff of_nat_numeral of_nat_power)
  qed
  let ?k = "int a - int b"
  have up: "q < pow2 (?k + 1)"
  proof -
    have "q < pow2 (int a) / of_int d" unfolding q using N(2) d by (simp add: divide_strict_right_mono)
    also have "\<dots> \<le> pow2 (int a) / pow2 (int b - 1)" using D(1) d by (intro divide_left_mono) auto
    also have "\<dots> = pow2 (?k + 1)" using pow2_add[of "?k + 1" "int b - 1"] by (simp add: field_simps)
    finally show ?thesis .
  qed
  have low: "pow2 (?k - 1) \<le> q"
  proof -
    have "pow2 (?k - 1) = pow2 (int a - 1) / pow2 (int b)"
      using pow2_add[of "?k - 1" "int b"] by (simp add: field_simps)
    also have "\<dots> \<le> of_int n / pow2 (int b)" using N(1) by (simp add: divide_right_mono)
    also have "\<dots> \<le> q" unfolding q using D(2) n d by (intro divide_left_mono) auto
    finally show ?thesis .
  qed
  have e: "f32_exponent q = (if pow2 ?k \<le> q then ?k else ?k - 1)"
    by (simp add: f32_exponent_def nd a_def b_def)
  show "pow2 (f32_exponent q) \<le> q" using low by (simp add: e)
  show "q < pow2 (f32_exponent q + 1)" using up by (simp add: e not_le)
qed

lemma f32_exponent_unique:
  assumes "pow2 e \<le> q" and "q < pow2 (e + 1)"
  shows "f32_exponent q = e"
proof -
  have "0 < q" using assms(1) pow2_pos(1)[of e] by linarith
  note b = f32_exponent_bounds[OF this]
  from assms(1) b(2) have "e < f32_exponent q + 1" by (metis le_less_trans pow2_less)
  moreover from b(1) assms(2) have "f32_exponent q < e + 1" by (metis le_less_trans pow2_less)
  ultimately show ?thesis by simp
qed

lemma round_half_even_int [simp]: "round_half_even (of_int m) = m"
  by (simp add: round_half_even_def)

lemma round_half_even_numeral [simp]: "round_half_even (numeral k) = numeral k"
  using round_half_even_int[of "numeral k"] by simp

lemma round_half_even_bounds: "of_int l \<le> m \<Longrightarrow> l \<le> round_half_even m" "m < of_int h \<Longrightarrow> round_half_even m \<le> h"
proof -
  have "round_half_even m = \<lfloor>m\<rfloor> \<or> round_half_even m = \<lfloor>m\<rfloor> + 1" by (simp add: round_half_even_def Let_def)
  then show "of_int l \<le> m \<Longrightarrow> l \<le> round_half_even m" "m < of_int h \<Longrightarrow> round_half_even m \<le> h"
    using le_floor_iff[of l m] floor_less_iff[of m h] by auto
qed

lemma f32_round_mult:
  assumes "0 \<le> m" and "m \<le> 2 ^ 24" and "- 126 \<le> e" and "2 ^ 23 \<le> m \<or> e = - 126"
  shows "f32_round (of_int m * pow2 (e - 23)) = of_int m * pow2 (e - 23)"
proof (cases "m = 0")
  case False
  let ?q = "of_int m * pow2 (e - 23) :: rat"
  have pos: "0 < ?q" using False assms(1) by simp
  show ?thesis
  proof (cases "m = 2 ^ 24")
    case True
    have q: "?q = pow2 (e + 1)" using pow2_add[of 24 "e - 23"] pow2_nat[of 24] by (simp add: True add.commute)
    then have x: "f32_exponent ?q = e + 1"
      by (intro f32_exponent_unique) (simp_all add: pow2_less)
    have "?q / pow2 (e + 1 - 23) = of_int (2 ^ 23)"
      unfolding q using pow2_add[of "e + 1 - 23" 23] pow2_nat[of 23] by (simp add: field_simps)
    then show ?thesis
      using pos assms(3) unfolding f32_round_def x Let_def
      by (simp add: max_def) (simp add: field_simps)
  next
    case less: False
    show ?thesis
    proof (cases "2 ^ 23 \<le> m")
      case True
      have "pow2 e = 2 ^ 23 * pow2 (e - 23)" using pow2_add[of 23 "e - 23"] pow2_nat[of 23] by simp
      moreover have "pow2 (e + 1) = 2 ^ 24 * pow2 (e - 23)"
        using pow2_add[of 24 "e - 23"] pow2_nat[of 24] by (simp add: add.commute[of e 1])
      moreover have "(2 ^ 23 :: rat) \<le> of_int m" "(of_int m :: rat) < 2 ^ 24"
        using True less assms(2) by (simp_all add: of_int_le_numeral_power_cancel_iff flip: of_int_power_le_of_int_cancel_iff)
      ultimately have "f32_exponent ?q = e" by (intro f32_exponent_unique) simp_all
      then show ?thesis using pos assms(3) by (simp add: f32_round_def max_def)
    next
      case False
      then have e: "e = - 126" and "(of_int m :: rat) < 2 ^ 23" using assms(4) by auto
      then have "?q < 2 ^ 23 * pow2 (e - 23)" by simp
      also have "\<dots> = pow2 e" using pow2_add[of 23 "e - 23"] pow2_nat[of 23] by simp
      finally have "f32_exponent ?q < e" using f32_exponent_bounds(1)[OF pos] by (metis le_less_trans pow2_less)
      then show ?thesis using pos e by (simp add: f32_round_def)
    qed
  qed
qed (simp add: f32_round_def)

lemma f32_round_idem [simp]: "f32_round (f32_round q) = f32_round q"
proof (cases "q \<le> 0")
  case False
  define e where "e = max (f32_exponent q) (- 126)"
  define m where "m = round_half_even (q / pow2 (e - 23))"
  have r: "f32_round q = of_int m * pow2 (e - 23)" using False by (simp add: f32_round_def e_def m_def Let_def)
  have b: "pow2 (f32_exponent q) \<le> q" "q < pow2 (f32_exponent q + 1)" using f32_exponent_bounds False by simp_all
  have "pow2 (f32_exponent q + 1) \<le> pow2 (e + 1)" using pow2_less[of "e + 1" "f32_exponent q + 1"] by (auto simp: e_def not_less[symmetric])
  also have "\<dots> = 2 ^ 24 * pow2 (e - 23)" using pow2_add[of 24 "e - 23"] pow2_nat[of 24] by (simp add: add.commute)
  finally have "q / pow2 (e - 23) < of_int (2 ^ 24)" using b(2) by (simp add: divide_less_eq)
  then have hi: "m \<le> 2 ^ 24" unfolding m_def by (rule round_half_even_bounds(2))
  have lo: "0 \<le> m" using False unfolding m_def by (intro round_half_even_bounds(1)) simp
  have "2 ^ 23 \<le> m" if "e \<noteq> - 126"
  proof -
    have "e = f32_exponent q" using that by (auto simp: e_def max_def)
    then have "2 ^ 23 * pow2 (e - 23) \<le> q" using b(1) pow2_add[of 23 "e - 23"] pow2_nat[of 23] by simp
    then have "of_int (2 ^ 23) \<le> q / pow2 (e - 23)" by (simp add: le_divide_eq)
    then show ?thesis unfolding m_def by (rule round_half_even_bounds(1))
  qed
  then show ?thesis unfolding r using lo hi by (intro f32_round_mult) (auto simp: e_def)
qed (simp add: f32_round_def)

end
