(* ===== verification/Video_Qos.thy ===== *)
theory Video_Qos
  imports Rust_F32 Conn_Types
begin

text \<open>
  The video quality controller (\<^verbatim>\<open>client/src/server/video_qos.rs\<close>, with \<^verbatim>\<open>Quality\<close> of
  \<^verbatim>\<open>client/libs/scrap/src/common/codec.rs\<close>).

  \<open>video_qos\<close> is the controller behind its mutex; users and displays are association lists in the
  iteration order of the hash maps, which the code only uses through minima, maxima and existence tests.
  \<^verbatim>\<open>u32\<close> values are natural numbers, reduced where the code can wrap.  A panic (\<^verbatim>\<open>clamp\<close> with its bounds
  the wrong way round) is \<open>None\<close>.
\<close>

definition FPS :: nat where "FPS = 30"
definition MIN_FPS :: nat where "MIN_FPS = 1"
definition MAX_FPS :: nat where "MAX_FPS = 120"
definition INIT_FPS :: nat where "INIT_FPS = 15"

definition BR_BEST :: f32 where "BR_BEST = f32_round 1.5"
definition BR_BALANCED :: f32 where "BR_BALANCED = f32_round 0.67"
definition BR_SPEED :: f32 where "BR_SPEED = f32_round 0.5"
definition BR_MAX :: f32 where "BR_MAX = f32_round 40"
definition BR_MIN :: f32 where "BR_MIN = f32_round 0.2"
definition BR_MIN_HIGH_RESOLUTION :: f32 where "BR_MIN_HIGH_RESOLUTION = f32_round 0.1"
definition MAX_BR_MULTIPLE :: f32 where "MAX_BR_MULTIPLE = 1"

definition HISTORY_DELAY_LEN :: nat where "HISTORY_DELAY_LEN = 2"
definition ADJUST_RATIO_INTERVAL :: nat where "ADJUST_RATIO_INTERVAL = 3"
definition DYNAMIC_SCREEN_THRESHOLD :: nat where "DYNAMIC_SCREEN_THRESHOLD = 2"
definition DELAY_THRESHOLD_150MS :: nat where "DELAY_THRESHOLD_150MS = 150"

datatype quality = Best | Balanced | Low | Custom f32

fun quality_ratio :: "quality \<Rightarrow> f32" where
  "quality_ratio Best = BR_BEST"
| "quality_ratio Balanced = BR_BALANCED"
| "quality_ratio Low = BR_SPEED"
| "quality_ratio (Custom v) = v"

section \<open>Round-trip time\<close>

definition WINDOW_SAMPLES :: nat where "WINDOW_SAMPLES = 60"
definition MIN_SAMPLES :: nat where "MIN_SAMPLES = 10"
definition ALPHA :: f32 where "ALPHA = f32_round 0.5"

record rtt_calculator =
  min_rtt :: "nat option"
  window_min_rtt :: "nat option"
  smoothed_rtt :: "nat option"
  samples :: "nat list"

definition rtt_default :: rtt_calculator where
  "rtt_default = \<lparr>min_rtt = None, window_min_rtt = None, smoothed_rtt = None, samples = []\<rparr>"

fun min_option :: "'a::linorder list \<Rightarrow> 'a option" where
  "min_option [] = None"
| "min_option (x # xs) = Some (fold min xs x)"

fun max_option :: "'a::linorder list \<Rightarrow> 'a option" where
  "max_option [] = None"
| "max_option (x # xs) = Some (fold max xs x)"

definition rtt_update :: "nat \<Rightarrow> rtt_calculator \<Rightarrow> rtt_calculator" where
  "rtt_update delay r =
     (let r = (case min_rtt r of
                 Some m \<Rightarrow> if delay < m then r\<lparr>min_rtt := Some delay\<rparr> else r
               | None \<Rightarrow> r\<lparr>min_rtt := Some delay\<rparr>);
          kept = (if length (samples r) \<ge> WINDOW_SAMPLES then tl (samples r) else samples r);
          r = r\<lparr>samples := kept @ [delay]\<rparr>;
          r = r\<lparr>window_min_rtt := min_option (samples r)\<rparr>
      in if length (samples r) \<ge> WINDOW_SAMPLES
         then (case (min_rtt r, window_min_rtt r) of
                 (Some m, Some w) \<Rightarrow>
                   r\<lparr>smoothed_rtt := Some (f32_to_u32 (f32_add (f32_mul (f32_round (1 - ALPHA)) (f32_of_nat m))
                                                         (f32_mul ALPHA (f32_of_nat w))))\<rparr>
               | _ \<Rightarrow> r)
         else r)"

definition get_rtt :: "rtt_calculator \<Rightarrow> nat option" where
  "get_rtt r =
     (case smoothed_rtt r of
        Some v \<Rightarrow> Some v
      | None \<Rightarrow> if length (samples r) \<ge> MIN_SAMPLES then min_rtt r else None)"

section \<open>Users\<close>

record user_delay =
  response_delayed :: bool
  delay_history :: "nat list"
  delay_fps :: "nat option"
  rtt_calc :: rtt_calculator
  quick_increase_fps_count :: nat
  increase_fps_count :: nat

definition user_delay_default :: user_delay where
  "user_delay_default = \<lparr>response_delayed = False, delay_history = [], delay_fps = None, rtt_calc = rtt_default,
     quick_increase_fps_count = 0, increase_fps_count = 0\<rparr>"

definition add_delay :: "nat \<Rightarrow> user_delay \<Rightarrow> user_delay" where
  "add_delay delay d =
     (let d = d\<lparr>rtt_calc := rtt_update delay (rtt_calc d)\<rparr>;
          kept = (if length (delay_history d) > HISTORY_DELAY_LEN then tl (delay_history d) else delay_history d)
      in d\<lparr>delay_history := kept @ [delay]\<rparr>)"

definition avg_delay :: "user_delay \<Rightarrow> nat" where
  "avg_delay d =
     (let len = length (delay_history d) in
      if len > 0
      then let avg = sum_list (delay_history d) mod 2 ^ 32 div len
           in case get_rtt (rtt_calc d) of
                Some rtt \<Rightarrow> if avg > rtt then avg - rtt else avg
              | None \<Rightarrow> avg
      else DELAY_THRESHOLD_150MS)"

record user_data =
  auto_adjust_fps :: "nat option"
  custom_fps :: "nat option"
  user_quality :: "(int \<times> quality) option"
  delay :: user_delay
  recording :: bool

definition user_data_default :: user_data where
  "user_data_default = \<lparr>auto_adjust_fps = None, custom_fps = None, user_quality = None, delay = user_delay_default,
     recording = False\<rparr>"

record display_data =
  send_counter :: nat
  support_changing_quality :: bool

definition display_data_default :: display_data where
  "display_data_default = \<lparr>send_counter = 0, support_changing_quality = False\<rparr>"

record video_qos =
  q_fps :: nat
  q_ratio :: f32
  q_users :: "(int \<times> user_data) list"
  q_displays :: "(string \<times> display_data) list"
  bitrate_store :: nat
  adjust_ratio_instant :: ms
  abr_config :: bool
  new_user_instant :: ms

definition qos_default :: "ms \<Rightarrow> video_qos" where
  "qos_default now = \<lparr>q_fps = FPS, q_ratio = BR_BALANCED, q_users = [], q_displays = [], bitrate_store = 0,
     adjust_ratio_instant = now, abr_config = True, new_user_instant = now\<rparr>"

text \<open>\<^verbatim>\<open>elapsed().as_secs()\<close>, and \<^verbatim>\<open>HashMap::get_mut\<close> followed by an update.\<close>

definition elapsed_secs :: "ms \<Rightarrow> ms \<Rightarrow> nat" where
  "elapsed_secs since now = nat ((now - since) div 1000)"

definition alist_modify :: "'k \<Rightarrow> ('v \<Rightarrow> 'v) \<Rightarrow> ('k \<times> 'v) list \<Rightarrow> ('k \<times> 'v) list" where
  "alist_modify k f = map (\<lambda>(k', v). (k', if k' = k then f v else v))"

definition alist_insert :: "'k \<Rightarrow> 'v \<Rightarrow> ('k \<times> 'v) list \<Rightarrow> ('k \<times> 'v) list" where
  "alist_insert k v kvs = (if k \<in> fst ` set kvs then alist_modify k (\<lambda>_. v) kvs else kvs @ [(k, v)])"

definition alist_remove :: "'k \<Rightarrow> ('k \<times> 'v) list \<Rightarrow> ('k \<times> 'v) list" where
  "alist_remove k = filter (\<lambda>(k', _). k' \<noteq> k)"

section \<open>Reading the state\<close>

definition fps :: "video_qos \<Rightarrow> nat" where
  "fps q = (if q_fps q \<ge> MIN_FPS \<and> q_fps q \<le> MAX_FPS then q_fps q else FPS)"

text \<open>The frame time in seconds, before its conversion to a \<^verbatim>\<open>Duration\<close>.\<close>

definition spf :: "video_qos \<Rightarrow> f32" where
  "spf q = f32_div 1 (f32_of_nat (fps q))"

definition store_bitrate :: "nat \<Rightarrow> video_qos \<Rightarrow> video_qos" where
  "store_bitrate b q = q\<lparr>bitrate_store := b\<rparr>"

definition ratio :: "video_qos \<Rightarrow> f32 \<times> video_qos" where
  "ratio q =
     (let q = (if q_ratio q < BR_MIN_HIGH_RESOLUTION \<or> q_ratio q > BR_MAX then q\<lparr>q_ratio := BR_BALANCED\<rparr> else q)
      in (q_ratio q, q))"

definition qos_record :: "video_qos \<Rightarrow> bool" where
  "qos_record q = list_ex (\<lambda>(_, u). recording u) (q_users q)"

definition set_support_changing_quality :: "string \<Rightarrow> bool \<Rightarrow> video_qos \<Rightarrow> video_qos" where
  "set_support_changing_quality name support q =
     q\<lparr>q_displays := alist_modify name (\<lambda>d. d\<lparr>support_changing_quality := support\<rparr>) (q_displays q)\<rparr>"

definition in_vbr_state :: "video_qos \<Rightarrow> bool" where
  "in_vbr_state q \<longleftrightarrow> abr_config q \<and> list_all (\<lambda>(_, d). support_changing_quality d) (q_displays q)"

definition user_fps :: "user_data \<Rightarrow> nat" where
  "user_fps u =
     (let f = (case custom_fps u of Some f \<Rightarrow> f | None \<Rightarrow> FPS) in
      case auto_adjust_fps u of
        Some a \<Rightarrow> if f = 0 \<or> a < f then a else f
      | None \<Rightarrow> f)"

definition clamp_nat :: "nat \<Rightarrow> nat \<Rightarrow> nat \<Rightarrow> nat option" where
  "clamp_nat x lo hi = (if lo > hi then None else Some (if x < lo then lo else if x > hi then hi else x))"

definition highest_fps :: "video_qos \<Rightarrow> nat option" where
  "highest_fps q =
     (let f = (case min_option (filter (\<lambda>f. f \<ge> MIN_FPS) (map (\<lambda>(_, u). user_fps u) (q_users q))) of
                 Some f \<Rightarrow> f | None \<Rightarrow> FPS)
      in clamp_nat f MIN_FPS MAX_FPS)"

text \<open>\<^verbatim>\<open>max_by\<close> on the time keeps the last of equal maxima.\<close>

definition latest_quality :: "video_qos \<Rightarrow> quality" where
  "latest_quality q =
     snd (fold (\<lambda>(_, u) best. case user_quality u of
                   None \<Rightarrow> best
                 | Some (t, x) \<Rightarrow> (case fst best of
                     Some t' \<Rightarrow> if t \<ge> t' then (Some t, x) else best
                   | None \<Rightarrow> (Some t, x)))
            (q_users q) (None, Balanced))"

section \<open>Adjusting\<close>

definition adjust_fps :: "ms \<Rightarrow> video_qos \<Rightarrow> video_qos option" where
  "adjust_fps now q =
     (case highest_fps q of
        None \<Rightarrow> None
      | Some highest \<Rightarrow>
          let f = (case min_option (map (\<lambda>(_, u). case delay_fps (delay u) of Some f \<Rightarrow> f | None \<Rightarrow> INIT_FPS) (q_users q)) of
                     Some f \<Rightarrow> f | None \<Rightarrow> INIT_FPS);
              f = (if list_ex (\<lambda>(_, u). response_delayed (delay u)) (q_users q) \<and> f > MIN_FPS + 1 then MIN_FPS + 1 else f);
              f = (if elapsed_secs (new_user_instant q) now < 1 \<and> f > INIT_FPS then INIT_FPS else f)
          in map_option (\<lambda>f. q\<lparr>q_fps := f\<rparr>) (clamp_nat f MIN_FPS highest))"

definition min_ratio :: "quality \<Rightarrow> f32 option \<Rightarrow> f32" where
  "min_ratio target ratio_1mbps =
     (let lower = (\<lambda>m. case ratio_1mbps of Some r \<Rightarrow> if m > r then r else m | None \<Rightarrow> m) in
      case target of
        Best \<Rightarrow> max (lower (f32_div BR_BEST (f32_round 2.5))) BR_MIN
      | Balanced \<Rightarrow> max (lower (min (f32_div BR_BALANCED 2) (f32_round 0.4))) BR_MIN_HIGH_RESOLUTION
      | Low \<Rightarrow> BR_MIN_HIGH_RESOLUTION
      | Custom _ \<Rightarrow> BR_MIN_HIGH_RESOLUTION)"

definition scaled_ratio :: "nat \<Rightarrow> bool \<Rightarrow> f32 \<Rightarrow> f32" where
  "scaled_ratio max_delay dynamic_screen current =
     (if max_delay < 50 then (if dynamic_screen then f32_mul current (f32_round 1.15) else current)
      else if max_delay < 100 then (if dynamic_screen then f32_mul current (f32_round 1.1) else current)
      else if max_delay < DELAY_THRESHOLD_150MS then (if dynamic_screen then f32_mul current (f32_round 1.05) else current)
      else if max_delay < 200 then f32_mul current (f32_round 0.95)
      else if max_delay < 300 then f32_mul current (f32_round 0.9)
      else if max_delay < 500 then f32_mul current (f32_round 0.85)
      else f32_mul current (f32_round 0.8))"

definition adjust_ratio :: "bool \<Rightarrow> ms \<Rightarrow> video_qos \<Rightarrow> video_qos option" where
  "adjust_ratio dynamic_screen now q =
     (if \<not> in_vbr_state q then Some q
      else (case max_option (map (\<lambda>(_, u). avg_delay (delay u)) (q_users q)) of
        None \<Rightarrow> Some q
      | Some max_delay \<Rightarrow>
          let target_quality = latest_quality q;
              target_ratio = quality_ratio (latest_quality q);
              current_ratio = q_ratio q;
              current_bitrate = bitrate_store q;
              ratio_1mbps = (if current_bitrate > 0
                then Some (max (f32_div (f32_mul current_ratio 1000) (f32_of_nat current_bitrate)) BR_MIN_HIGH_RESOLUTION)
                else None);
              ratio_add_150kbps = (if current_bitrate > 0
                then Some (f32_div (f32_mul (f32_of_nat ((current_bitrate + 150) mod 2 ^ 32)) current_ratio)
                             (f32_of_nat current_bitrate))
                else None);
              lo = min_ratio target_quality ratio_1mbps;
              hi = f32_mul target_ratio MAX_BR_MULTIPLE;
              v = scaled_ratio max_delay dynamic_screen current_ratio;
              v = (case ratio_add_150kbps of
                     Some r \<Rightarrow> if v > r \<and> r > current_ratio \<and> current_ratio \<ge> BR_SPEED then r else v
                   | None \<Rightarrow> v)
          in map_option (\<lambda>v. q\<lparr>q_ratio := v, adjust_ratio_instant := now\<rparr>) (f32_clamp v lo hi)))"

section \<open>Operations\<close>

definition on_connection_open :: "int \<Rightarrow> bool \<Rightarrow> ms \<Rightarrow> video_qos \<Rightarrow> video_qos" where
  "on_connection_open id1 abr now q =
     q\<lparr>q_users := alist_insert id1 user_data_default (q_users q), abr_config := abr, new_user_instant := now\<rparr>"

definition on_connection_close :: "int \<Rightarrow> ms \<Rightarrow> video_qos \<Rightarrow> video_qos" where
  "on_connection_close id1 now q =
     (let q = q\<lparr>q_users := alist_remove id1 (q_users q)\<rparr> in if q_users q = [] then qos_default now else q)"

definition modify_user :: "int \<Rightarrow> (user_data \<Rightarrow> user_data) \<Rightarrow> video_qos \<Rightarrow> video_qos" where
  "modify_user id1 f q = q\<lparr>q_users := alist_modify id1 f (q_users q)\<rparr>"

definition user_custom_fps :: "int \<Rightarrow> nat \<Rightarrow> video_qos \<Rightarrow> video_qos" where
  "user_custom_fps id1 f q =
     (if f < MIN_FPS \<or> f > MAX_FPS then q else modify_user id1 (\<lambda>u. u\<lparr>custom_fps := Some f\<rparr>) q)"

definition user_auto_adjust_fps :: "int \<Rightarrow> nat \<Rightarrow> video_qos \<Rightarrow> video_qos" where
  "user_auto_adjust_fps id1 f q =
     (if f < MIN_FPS \<or> f > MAX_FPS then q else modify_user id1 (\<lambda>u. u\<lparr>auto_adjust_fps := Some f\<rparr>) q)"

text \<open>The numbers of the protocol's image qualities (balanced, low, best).\<close>

type_synonym iq_values = "int \<times> int \<times> int"

definition convert_quality :: "iq_values \<Rightarrow> int \<Rightarrow> quality" where
  "convert_quality iq q =
     (case iq of (balanced, low, best) \<Rightarrow>
        if q = balanced then Balanced
        else if q = low then Low
        else if q = best then Best
        else let b = f32_div (f32_of_nat (nat ((q div 2 ^ 8) mod 2 ^ 12 * 2))) 100
             in Custom (if b < BR_MIN then BR_MIN else if b > BR_MAX then BR_MAX else b))"

definition user_image_quality :: "iq_values \<Rightarrow> int \<Rightarrow> int \<Rightarrow> int \<Rightarrow> video_qos \<Rightarrow> video_qos" where
  "user_image_quality iq id1 image_quality time q =
     (if id1 \<in> fst ` set (q_users q)
      then let q = modify_user id1 (\<lambda>u. u\<lparr>user_quality := Some (time, convert_quality iq image_quality)\<rparr>) q
           in q\<lparr>q_ratio := quality_ratio (latest_quality q)\<rparr>
      else q)"

definition user_record :: "int \<Rightarrow> bool \<Rightarrow> video_qos \<Rightarrow> video_qos" where
  "user_record id1 v q = modify_user id1 (\<lambda>u. u\<lparr>recording := v\<rparr>) q"

text \<open>The frame rate and the counters for one user, from the averages before and after the new sample.\<close>

definition divided_fps :: "nat \<Rightarrow> nat \<Rightarrow> nat" where
  "divided_fps f avg =
     f32_to_u32 (of_int \<lceil>f32_div (f32_of_nat f) (f32_div (f32_of_nat avg) (f32_of_nat DELAY_THRESHOLD_150MS))\<rceil>)"

definition delay_step :: "nat \<Rightarrow> nat \<Rightarrow> nat \<Rightarrow> nat \<Rightarrow> nat \<Rightarrow> nat \<Rightarrow> nat \<times> nat" where
  "delay_step min_fps normal_fps f avg old_avg quick =
     (let dividend_ms = DELAY_THRESHOLD_150MS * min_fps in
      if avg < 50
      then let quick = quick + 1; step = (if f < normal_fps then 1 else 0)
           in if quick \<ge> 3 then (max min_fps (f + 5), 0) else (max min_fps (f + step), quick)
      else if avg < 100
      then (max min_fps (f + (if avg < old_avg then (if f < normal_fps then 1 else 0) else 0)), quick)
      else if avg < DELAY_THRESHOLD_150MS then (max min_fps f, quick)
      else let divided = divided_fps f avg
           in ((if avg < 200 then max min_fps divided
                else if avg < 300 then min min_fps divided
                else if avg < 600 then dividend_ms div avg
                else min (dividend_ms div avg) divided), quick))"

definition user_delay_step :: "nat \<Rightarrow> nat \<Rightarrow> nat \<Rightarrow> nat \<Rightarrow> nat \<Rightarrow> user_delay \<Rightarrow> user_delay option" where
  "user_delay_step min_fps normal_fps highest current new_delay d =
     (let old_avg = avg_delay d;
          d = add_delay (max new_delay 10) d;
          avg = max (avg_delay d) 10;
          (f, quick) = delay_step min_fps normal_fps current avg old_avg (quick_increase_fps_count d);
          inc = (if avg < DELAY_THRESHOLD_150MS then increase_fps_count d + 1 else 0);
          (f, inc) = (if inc \<ge> 3 then (f + 1, 0) else (f, inc));
          quick = (if avg > 50 then 0 else quick)
      in map_option (\<lambda>f. d\<lparr>quick_increase_fps_count := quick, increase_fps_count := inc, delay_fps := Some f\<rparr>)
           (clamp_nat f MIN_FPS highest))"

definition fps_range :: "f32 \<Rightarrow> nat \<times> nat" where
  "fps_range target_ratio =
     (if target_ratio \<ge> BR_BEST then (8, 16) else if target_ratio \<ge> BR_BALANCED then (10, 20) else (12, 24))"

definition user_network_delay :: "bool \<Rightarrow> int \<Rightarrow> nat \<Rightarrow> ms \<Rightarrow> video_qos \<Rightarrow> video_qos option" where
  "user_network_delay linux id1 new_delay now q =
     Option.bind (highest_fps q) (\<lambda>highest.
       let (min_fps, normal_fps) = fps_range (quality_ratio (latest_quality q)) in
       Option.bind
         (case map_of (q_users q) id1 of
            None \<Rightarrow> Some (q, False)
          | Some u \<Rightarrow>
              map_option (\<lambda>d. (modify_user id1 (\<lambda>u. u\<lparr>delay := d\<rparr>) q, delay_fps (delay u) = None))
                (user_delay_step min_fps normal_fps highest (q_fps q) new_delay (delay u)))
         (\<lambda>(q, first). Option.bind (adjust_fps now q) (\<lambda>q.
            if first \<and> \<not> linux then adjust_ratio False now q else Some q)))"

definition user_delay_response_elapsed :: "int \<Rightarrow> nat \<Rightarrow> ms \<Rightarrow> video_qos \<Rightarrow> video_qos option" where
  "user_delay_response_elapsed id1 elapsed now q =
     (if id1 \<in> fst ` set (q_users q)
      then let late = elapsed > 2000;
               q = modify_user id1 (\<lambda>u. u\<lparr>delay := (delay u)\<lparr>response_delayed := late\<rparr>\<rparr>) q
           in if late
              then adjust_fps now (modify_user id1 (\<lambda>u. u\<lparr>delay := add_delay (elapsed mod 2 ^ 32) (delay u)\<rparr>) q)
              else Some q
      else Some q)"

definition new_display :: "string \<Rightarrow> video_qos \<Rightarrow> video_qos" where
  "new_display name q = q\<lparr>q_displays := alist_insert name display_data_default (q_displays q)\<rparr>"

definition remove_display :: "string \<Rightarrow> video_qos \<Rightarrow> video_qos" where
  "remove_display name q = q\<lparr>q_displays := alist_remove name (q_displays q)\<rparr>"

definition update_display_data :: "string \<Rightarrow> nat \<Rightarrow> ms \<Rightarrow> video_qos \<Rightarrow> video_qos option" where
  "update_display_data name n now q =
     (let q = q\<lparr>q_displays := alist_modify name (\<lambda>d. d\<lparr>send_counter := send_counter d + n\<rparr>) (q_displays q)\<rparr> in
      Option.bind (adjust_fps now q) (\<lambda>q.
        if in_vbr_state q
        then (if elapsed_secs (adjust_ratio_instant q) now \<ge> ADJUST_RATIO_INTERVAL
              then let dynamic_screen = list_ex (\<lambda>(_, d). send_counter d \<ge> ADJUST_RATIO_INTERVAL * DYNAMIC_SCREEN_THRESHOLD)
                                          (q_displays q);
                       q = q\<lparr>q_displays := map (\<lambda>(k, d). (k, d\<lparr>send_counter := 0\<rparr>)) (q_displays q)\<rparr>
                   in adjust_ratio dynamic_screen now q
              else Some q)
        else Some (q\<lparr>q_ratio := quality_ratio (latest_quality q)\<rparr>)))"

text \<open>Every call the rest of the server makes.\<close>

datatype qos_op =
    ConnectionOpen int bool | ConnectionClose int | UserCustomFps int nat | UserAutoAdjustFps int nat
  | UserImageQuality int int int | UserRecord int bool | UserNetworkDelay int nat | UserDelayResponse int nat
  | NewDisplay string | RemoveDisplay string | SupportChangingQuality string bool | UpdateDisplayData string nat
  | StoreBitrate nat | ReadRatio

fun qos_exec :: "bool \<Rightarrow> iq_values \<Rightarrow> qos_op \<Rightarrow> ms \<Rightarrow> video_qos \<Rightarrow> video_qos option" where
  "qos_exec linux iq (ConnectionOpen i abr) now q = Some (on_connection_open i abr now q)"
| "qos_exec linux iq (ConnectionClose i) now q = Some (on_connection_close i now q)"
| "qos_exec linux iq (UserCustomFps i f) now q = Some (user_custom_fps i f q)"
| "qos_exec linux iq (UserAutoAdjustFps i f) now q = Some (user_auto_adjust_fps i f q)"
| "qos_exec linux iq (UserImageQuality i x t) now q = Some (user_image_quality iq i x t q)"
| "qos_exec linux iq (UserRecord i v) now q = Some (user_record i v q)"
| "qos_exec linux iq (UserNetworkDelay i d) now q = user_network_delay linux i d now q"
| "qos_exec linux iq (UserDelayResponse i e) now q = user_delay_response_elapsed i e now q"
| "qos_exec linux iq (NewDisplay n) now q = Some (new_display n q)"
| "qos_exec linux iq (RemoveDisplay n) now q = Some (remove_display n q)"
| "qos_exec linux iq (SupportChangingQuality n b) now q = Some (set_support_changing_quality n b q)"
| "qos_exec linux iq (UpdateDisplayData n c) now q = update_display_data n c now q"
| "qos_exec linux iq (StoreBitrate b) now q = Some (store_bitrate b q)"
| "qos_exec linux iq ReadRatio now q = Some (snd (ratio q))"

fun qos_run :: "bool \<Rightarrow> iq_values \<Rightarrow> (qos_op \<times> ms) list \<Rightarrow> video_qos \<Rightarrow> video_qos option" where
  "qos_run linux iq [] q = Some q"
| "qos_run linux iq ((op, now) # ops) q = Option.bind (qos_exec linux iq op now q) (qos_run linux iq ops)"

section \<open>The invariant\<close>

definition fps_ok :: "nat \<Rightarrow> bool" where
  "fps_ok f \<longleftrightarrow> MIN_FPS \<le> f \<and> f \<le> MAX_FPS"

fun quality_ok :: "quality \<Rightarrow> bool" where
  "quality_ok (Custom v) \<longleftrightarrow> f32_round v = v \<and> BR_MIN \<le> v \<and> v \<le> BR_MAX"
| "quality_ok _ \<longleftrightarrow> True"

definition user_ok :: "user_data \<Rightarrow> bool" where
  "user_ok u \<longleftrightarrow> pred_option fps_ok (custom_fps u) \<and> pred_option fps_ok (auto_adjust_fps u)
     \<and> pred_option fps_ok (delay_fps (delay u)) \<and> pred_option (\<lambda>x. quality_ok (snd x)) (user_quality u)
     \<and> length (delay_history (delay u)) \<le> Suc HISTORY_DELAY_LEN
     \<and> length (samples (rtt_calc (delay u))) \<le> WINDOW_SAMPLES"

definition qos_ok :: "video_qos \<Rightarrow> bool" where
  "qos_ok q \<longleftrightarrow> fps_ok (q_fps q) \<and> BR_MIN_HIGH_RESOLUTION \<le> q_ratio q \<and> q_ratio q \<le> BR_MAX
     \<and> distinct (map fst (q_users q)) \<and> list_all (\<lambda>(_, u). user_ok u) (q_users q)"

lemmas qos_consts = FPS_def MIN_FPS_def MAX_FPS_def INIT_FPS_def HISTORY_DELAY_LEN_def WINDOW_SAMPLES_def

lemma br_order:
  "BR_MIN_HIGH_RESOLUTION \<le> BR_MIN" "BR_MIN \<le> BR_SPEED" "BR_SPEED \<le> BR_BALANCED" "BR_BALANCED \<le> BR_BEST"
  "BR_BEST \<le> BR_MAX" "f32_div BR_BEST (f32_round 2.5) \<le> BR_BEST" "f32_div BR_BALANCED 2 \<le> BR_BALANCED"
  "BR_MIN_HIGH_RESOLUTION \<le> BR_SPEED" "BR_MIN \<le> BR_BEST" "BR_MIN_HIGH_RESOLUTION \<le> BR_BALANCED"
  by code_simp+

lemma quality_ratio_ok:
  assumes "quality_ok x"
  shows "BR_MIN \<le> quality_ratio x" and "quality_ratio x \<le> BR_MAX" and "f32_mul (quality_ratio x) MAX_BR_MULTIPLE = quality_ratio x"
proof -
  have "BR_MIN \<le> quality_ratio x \<and> quality_ratio x \<le> BR_MAX"
    using assms br_order by (cases x) auto
  then show "BR_MIN \<le> quality_ratio x" "quality_ratio x \<le> BR_MAX" by simp_all
  have "f32_round (quality_ratio x) = quality_ratio x"
    using assms by (cases x) (simp_all add: BR_BEST_def BR_BALANCED_def BR_SPEED_def)
  then show "f32_mul (quality_ratio x) MAX_BR_MULTIPLE = quality_ratio x" by (simp add: f32_mul_def MAX_BR_MULTIPLE_def)
qed

lemma latest_quality_ok: "qos_ok q \<Longrightarrow> quality_ok (latest_quality q)"
proof -
  assume "qos_ok q"
  then have "list_all (\<lambda>(_, u). user_ok u) (q_users q)" by (simp add: qos_ok_def)
  moreover have "quality_ok (snd (fold (\<lambda>(_, u) best. case user_quality u of
                   None \<Rightarrow> best
                 | Some (t, x) \<Rightarrow> (case fst best of
                     Some t' \<Rightarrow> if t \<ge> t' then (Some t, x) else best
                   | None \<Rightarrow> (Some t, x))) us b))"
    if "list_all (\<lambda>(_, u). user_ok u) us" "quality_ok (snd b)" for us :: "(int \<times> user_data) list" and b
    using that by (induction us arbitrary: b) (auto simp: user_ok_def split: option.splits prod.splits)
  ultimately show ?thesis by (simp add: latest_quality_def)
qed

lemma min_ratio_bounds:
  assumes "quality_ok x"
  shows "BR_MIN_HIGH_RESOLUTION \<le> min_ratio x r" and "min_ratio x r \<le> quality_ratio x"
proof -
  show "BR_MIN_HIGH_RESOLUTION \<le> min_ratio x r"
    using br_order by (cases x) (auto simp: min_ratio_def le_max_iff_disj)
  show "min_ratio x r \<le> quality_ratio x"
  proof (cases x)
    case Best
    then show ?thesis using br_order by (cases r) (auto simp: min_ratio_def)
  next
    case Balanced
    then show ?thesis using br_order by (cases r) (auto simp: min_ratio_def min_def)
  qed (use assms br_order in \<open>auto simp: min_ratio_def\<close>)
qed

lemma adjust_ratio_ok:
  assumes "qos_ok q"
  shows "\<exists>q'. adjust_ratio dynamic_screen now q = Some q' \<and> qos_ok q'"
proof -
  let ?x = "latest_quality q"
  have x: "quality_ok ?x" by (rule latest_quality_ok[OF assms])
  have "\<exists>y. f32_clamp v (min_ratio ?x r) (f32_mul (quality_ratio ?x) MAX_BR_MULTIPLE) = Some y
      \<and> BR_MIN_HIGH_RESOLUTION \<le> y \<and> y \<le> BR_MAX" for v r
    using f32_clamp_Some[OF min_ratio_bounds(2)[OF x], where x = v and r1 = r] min_ratio_bounds(1)[OF x, where r = r]
      quality_ratio_ok[OF x]
    by fastforce
  note c = this
  show ?thesis
  proof (cases "in_vbr_state q \<and> max_option (map (\<lambda>(_, u). avg_delay (delay u)) (q_users q)) \<noteq> None")
    case True
    then obtain d where d: "in_vbr_state q" "max_option (map (\<lambda>(_, u). avg_delay (delay u)) (q_users q)) = Some d" by blast
    then obtain v r where "adjust_ratio dynamic_screen now q =
        map_option (\<lambda>v. q\<lparr>q_ratio := v, adjust_ratio_instant := now\<rparr>)
          (f32_clamp v (min_ratio ?x r) (f32_mul (quality_ratio ?x) MAX_BR_MULTIPLE))"
      by (simp add: adjust_ratio_def Let_def)
    with c[of v r] assms show ?thesis by (auto simp: qos_ok_def)
  qed (use assms in \<open>auto simp: adjust_ratio_def\<close>)
qed

lemma clamp_nat_ok: "MIN_FPS \<le> hi \<Longrightarrow> hi \<le> MAX_FPS \<Longrightarrow> \<exists>f. clamp_nat x MIN_FPS hi = Some f \<and> fps_ok f \<and> f \<le> hi"
  by (auto simp: clamp_nat_def fps_ok_def)

lemma highest_fps_ok: "\<exists>h. highest_fps q = Some h \<and> fps_ok h"
  unfolding highest_fps_def Let_def using clamp_nat_ok[of MAX_FPS] by (metis MAX_FPS_def MIN_FPS_def le_refl one_le_numeral)

lemma adjust_fps_ok:
  assumes "qos_ok q"
  shows "\<exists>f. adjust_fps now q = Some (q\<lparr>q_fps := f\<rparr>) \<and> fps_ok f \<and> qos_ok (q\<lparr>q_fps := f\<rparr>)"
proof -
  obtain h where h: "highest_fps q = Some h" "fps_ok h" using highest_fps_ok by blast
  then have "\<exists>f. clamp_nat x MIN_FPS h = Some f \<and> fps_ok f" for x using clamp_nat_ok[of h x] by (auto simp: fps_ok_def)
  with h assms show ?thesis by (fastforce simp: adjust_fps_def Let_def qos_ok_def)
qed

lemma map_fst_modify [simp]: "map fst (alist_modify k f kvs) = map fst kvs"
  by (induction kvs) (auto simp: alist_modify_def)

lemma list_all_modify:
  "list_all P (alist_modify k f kvs) \<longleftrightarrow> list_all (\<lambda>(k', v). P (k', if k' = k then f v else v)) kvs"
  by (induction kvs) (auto simp: alist_modify_def)

lemma modify_user_ok:
  assumes "qos_ok q" and "\<And>u. user_ok u \<Longrightarrow> (i, u) \<in> set (q_users q) \<Longrightarrow> user_ok (f u)"
  shows "qos_ok (modify_user i f q)"
proof -
  have "list_all (\<lambda>(_, u). user_ok u) (alist_modify i f (q_users q))"
    using assms unfolding list_all_modify qos_ok_def by (auto simp: list_all_iff)
  with assms(1) show ?thesis by (simp add: qos_ok_def modify_user_def)
qed

lemma add_delay_ok:
  "length (delay_history d) \<le> Suc HISTORY_DELAY_LEN \<Longrightarrow> length (samples (rtt_calc d)) \<le> WINDOW_SAMPLES \<Longrightarrow>
     length (delay_history (add_delay x d)) \<le> Suc HISTORY_DELAY_LEN
     \<and> length (samples (rtt_calc (add_delay x d))) \<le> WINDOW_SAMPLES \<and> delay_fps (add_delay x d) = delay_fps d"
  by (auto simp: add_delay_def rtt_update_def Let_def qos_consts split: option.split)

lemma user_delay_step_ok:
  assumes "fps_ok highest"
  shows "\<exists>d'. user_delay_step mn nm highest cur x d = Some d' \<and> pred_option fps_ok (delay_fps d')
    \<and> delay_history d' = delay_history (add_delay (max x 10) d) \<and> rtt_calc d' = rtt_calc (add_delay (max x 10) d)"
proof -
  have "\<exists>f. clamp_nat y MIN_FPS highest = Some f \<and> fps_ok f" for y
    using clamp_nat_ok[of highest y] assms by (auto simp: fps_ok_def)
  then show ?thesis
    by (fastforce simp: user_delay_step_def Let_def split: prod.split)
qed

lemma user_network_delay_ok:
  assumes "qos_ok q"
  shows "\<exists>q'. user_network_delay linux i x now q = Some q' \<and> qos_ok q'"
proof -
  obtain h where h: "highest_fps q = Some h" "fps_ok h" using highest_fps_ok by blast
  obtain mn nm where r: "fps_range (quality_ratio (latest_quality q)) = (mn, nm)" by (cases "fps_range (quality_ratio (latest_quality q))")
  have rest: "\<exists>q''. Option.bind (adjust_fps now q') (\<lambda>q. if first \<and> \<not> linux then adjust_ratio False now q else Some q) = Some q''
      \<and> qos_ok q''" if "qos_ok q'" for q' first
  proof -
    obtain f where "adjust_fps now q' = Some (q'\<lparr>q_fps := f\<rparr>)" "qos_ok (q'\<lparr>q_fps := f\<rparr>)"
      using adjust_fps_ok \<open>qos_ok q'\<close> by blast
    then show ?thesis using adjust_ratio_ok[of "q'\<lparr>q_fps := f\<rparr>" False now] by auto
  qed
  show ?thesis
  proof (cases "map_of (q_users q) i")
    case None
    with rest[OF assms, of False] show ?thesis by (simp add: user_network_delay_def h r)
  next
    case (Some u)
    then have u: "(i, u) \<in> set (q_users q)" by (rule map_of_SomeD)
    then have ok: "user_ok u" using assms by (auto simp: qos_ok_def list_all_iff)
    obtain d where d: "user_delay_step mn nm h (q_fps q) x (delay u) = Some d" "pred_option fps_ok (delay_fps d)"
      "delay_history d = delay_history (add_delay (max x 10) (delay u))" "rtt_calc d = rtt_calc (add_delay (max x 10) (delay u))"
      using user_delay_step_ok[OF h(2)] by blast
    have "qos_ok (modify_user i (\<lambda>u. u\<lparr>delay := d\<rparr>) q)"
      using d(2-) add_delay_ok[of "delay u" "max x 10"] ok
      by (intro modify_user_ok[OF assms]) (auto simp: user_ok_def)
    from rest[OF this, of "delay_fps (delay u) = None"] show ?thesis by (simp add: user_network_delay_def h r Some d(1))
  qed
qed

lemma user_delay_response_elapsed_ok:
  assumes "qos_ok q"
  shows "\<exists>q'. user_delay_response_elapsed i e now q = Some q' \<and> qos_ok q'"
proof -
  let ?q = "modify_user i (\<lambda>u. u\<lparr>delay := (delay u)\<lparr>response_delayed := e > 2000\<rparr>\<rparr>) q"
  have q: "qos_ok ?q" by (rule modify_user_ok[OF assms]) (simp add: user_ok_def)
  have "qos_ok (modify_user i (\<lambda>u. u\<lparr>delay := add_delay (e mod 2 ^ 32) (delay u)\<rparr>) ?q)"
    by (rule modify_user_ok[OF q]) (use add_delay_ok in \<open>auto simp: user_ok_def\<close>)
  from adjust_fps_ok[OF this, of now] q assms show ?thesis
    by (auto simp: user_delay_response_elapsed_def Let_def)
qed

lemma convert_quality_ok: "quality_ok (convert_quality iq x)"
proof -
  have "f32_round BR_MIN = BR_MIN" "f32_round BR_MAX = BR_MAX" "BR_MIN \<le> BR_MAX"
    using br_order by (simp_all add: BR_MIN_def BR_MAX_def)
  then show ?thesis by (auto simp: convert_quality_def f32_div_def Let_def split: prod.split)
qed

lemma user_image_quality_ok:
  assumes "qos_ok q"
  shows "qos_ok (user_image_quality iq i x t q)"
proof -
  let ?q = "modify_user i (\<lambda>u. u\<lparr>user_quality := Some (t, convert_quality iq x)\<rparr>) q"
  have q: "qos_ok ?q" by (rule modify_user_ok[OF assms]) (simp add: user_ok_def convert_quality_ok)
  from quality_ratio_ok[OF latest_quality_ok[OF q]] br_order(1) q assms show ?thesis
    by (auto simp: user_image_quality_def Let_def qos_ok_def)
qed

lemma update_display_data_ok:
  assumes "qos_ok q"
  shows "\<exists>q'. update_display_data n c now q = Some q' \<and> qos_ok q'"
proof -
  have dis: "qos_ok (q'\<lparr>q_displays := ds\<rparr>) = qos_ok q'" for q' ds by (simp add: qos_ok_def)
  obtain f where f: "adjust_fps now (q\<lparr>q_displays := alist_modify n (\<lambda>d. d\<lparr>send_counter := send_counter d + c\<rparr>) (q_displays q)\<rparr>)
      = Some (q\<lparr>q_displays := alist_modify n (\<lambda>d. d\<lparr>send_counter := send_counter d + c\<rparr>) (q_displays q)\<rparr>\<lparr>q_fps := f\<rparr>)"
    and q: "qos_ok (q\<lparr>q_displays := alist_modify n (\<lambda>d. d\<lparr>send_counter := send_counter d + c\<rparr>) (q_displays q)\<rparr>\<lparr>q_fps := f\<rparr>)"
    using adjust_fps_ok[of "q\<lparr>q_displays := alist_modify n (\<lambda>d. d\<lparr>send_counter := send_counter d + c\<rparr>) (q_displays q)\<rparr>" now]
      assms by (auto simp: dis)
  define q1 where "q1 = q\<lparr>q_displays := alist_modify n (\<lambda>d. d\<lparr>send_counter := send_counter d + c\<rparr>) (q_displays q)\<rparr>\<lparr>q_fps := f\<rparr>"
  have "qos_ok (q1\<lparr>q_ratio := quality_ratio (latest_quality q1)\<rparr>)"
    using quality_ratio_ok[OF latest_quality_ok[of q1]] br_order(1) q unfolding q1_def[symmetric]
    by (auto simp: qos_ok_def)
  moreover have "\<exists>q'. adjust_ratio b now (q1\<lparr>q_displays := ds\<rparr>) = Some q' \<and> qos_ok q'" for b ds
    using adjust_ratio_ok q unfolding q1_def[symmetric] by (simp add: dis)
  ultimately show ?thesis
    using q f unfolding update_display_data_def Let_def q1_def[symmetric] by simp
qed

lemma qos_exec_ok: "qos_ok q \<Longrightarrow> \<exists>q'. qos_exec linux iq op now q = Some q' \<and> qos_ok q'"
proof -
  assume q: "qos_ok q"
  have default: "user_ok user_data_default" "qos_ok (qos_default now)"
    using br_order
    by (auto simp: user_ok_def user_data_default_def user_delay_default_def rtt_default_def qos_ok_def qos_default_def
        fps_ok_def qos_consts)
  show ?thesis
  proof (cases op)
    case (ConnectionOpen i abr)
    have "list_all (\<lambda>(_, u). user_ok u) (alist_insert i user_data_default (q_users q))
        \<and> distinct (map fst (alist_insert i user_data_default (q_users q)))"
      using q default(1) by (auto simp: qos_ok_def alist_insert_def list_all_modify) (auto simp: list_all_iff)
    with ConnectionOpen q show ?thesis by (simp add: on_connection_open_def qos_ok_def)
  next
    case (ConnectionClose i)
    have "distinct (map fst (alist_remove i kvs))" if "distinct (map fst kvs)" for kvs :: "(int \<times> user_data) list"
      using that by (auto simp: alist_remove_def distinct_map_filter)
    with ConnectionClose q default show ?thesis
      by (auto simp: on_connection_close_def Let_def qos_ok_def list_all_iff alist_remove_def)
  next
    case (UserCustomFps i f)
    have "qos_ok (modify_user i (\<lambda>u. u\<lparr>custom_fps := Some f\<rparr>) q)" if "fps_ok f"
      by (rule modify_user_ok[OF q]) (use that in \<open>simp add: user_ok_def\<close>)
    with UserCustomFps q show ?thesis by (auto simp: user_custom_fps_def fps_ok_def)
  next
    case (UserAutoAdjustFps i f)
    have "qos_ok (modify_user i (\<lambda>u. u\<lparr>auto_adjust_fps := Some f\<rparr>) q)" if "fps_ok f"
      by (rule modify_user_ok[OF q]) (use that in \<open>simp add: user_ok_def\<close>)
    with UserAutoAdjustFps q show ?thesis by (auto simp: user_auto_adjust_fps_def fps_ok_def)
  next
    case (UserRecord i v)
    have "qos_ok (modify_user i (\<lambda>u. u\<lparr>recording := v\<rparr>) q)" by (rule modify_user_ok[OF q]) (simp add: user_ok_def)
    with UserRecord show ?thesis by (simp add: user_record_def)
  next
    case ReadRatio
    with q br_order show ?thesis by (auto simp: ratio_def Let_def qos_ok_def)
  qed (use q user_image_quality_ok user_network_delay_ok user_delay_response_elapsed_ok update_display_data_ok in
      \<open>auto simp: new_display_def remove_display_def set_support_changing_quality_def store_bitrate_def qos_ok_def\<close>)
qed

lemma qos_run_ok: "qos_ok q \<Longrightarrow> \<exists>q'. qos_run linux iq ops q = Some q' \<and> qos_ok q'"
proof (induction ops arbitrary: q)
  case (Cons a ops)
  obtain op now where a: "a = (op, now)" by (cases a)
  from qos_exec_ok[OF Cons.prems, of linux iq op now] Cons.IH show ?case by (auto simp: a)
qed simp

lemma qos_default_ok: "qos_ok (qos_default t)"
  using br_order by (simp add: qos_ok_def qos_default_def fps_ok_def qos_consts)

section \<open>Properties\<close>

text \<open>\<^bold>\<open>C29\<close> (quality control never panics and stays in range).  Whatever calls the server makes, in any
  order and at any times, starting from the initial controller, every call returns; the frame rate stays
  between 1 and 120 and is the one reported, the bit rate factor stays between its bounds for high
  resolutions and 40, each user's requested and computed frame rates are in range, and the delay history and
  sample window never exceed 3 and 60 entries.\<close>

theorem qos_run_in_range:
  "\<exists>q. qos_run linux iq ops (qos_default t) = Some q \<and> 1 \<le> q_fps q \<and> q_fps q \<le> 120 \<and> fps q = q_fps q
     \<and> BR_MIN_HIGH_RESOLUTION \<le> q_ratio q \<and> q_ratio q \<le> 40 \<and> fst (ratio q) = q_ratio q
     \<and> list_all (\<lambda>(_, u). pred_option fps_ok (delay_fps (delay u)) \<and> pred_option fps_ok (custom_fps u)
          \<and> length (delay_history (delay u)) \<le> 3 \<and> length (samples (rtt_calc (delay u))) \<le> 60) (q_users q)"
proof -
  obtain q where q: "qos_run linux iq ops (qos_default t) = Some q" "qos_ok q"
    using qos_run_ok[OF qos_default_ok] by blast
  have "BR_MAX = 40" by code_simp
  with q(2) have "1 \<le> q_fps q" "q_fps q \<le> 120" "fps q = q_fps q" "BR_MIN_HIGH_RESOLUTION \<le> q_ratio q" "q_ratio q \<le> 40"
    "fst (ratio q) = q_ratio q"
    by (auto simp: qos_ok_def fps_ok_def fps_def ratio_def qos_consts)
  moreover have "list_all (\<lambda>(_, u). pred_option fps_ok (delay_fps (delay u)) \<and> pred_option fps_ok (custom_fps u)
          \<and> length (delay_history (delay u)) \<le> 3 \<and> length (samples (rtt_calc (delay u))) \<le> 60) (q_users q)"
    using q(2) by (auto simp: qos_ok_def user_ok_def list_all_iff qos_consts)
  ultimately show ?thesis using q(1) by blast
qed

lemma fold_min:
  "fold min xs (x :: nat) \<in> insert x (set xs) \<and> fold min xs x \<le> x \<and> (\<forall>z \<in> set xs. fold min xs x \<le> z)"
proof (induction xs arbitrary: x)
  case (Cons y ys)
  have "min y x \<in> {x, y}" "min y x \<le> x" "min y x \<le> y" by (auto simp: min_def)
  with Cons[of "min y x"] show ?case by (auto intro: order_trans)
qed simp

lemma min_option_le: "x \<in> set xs \<Longrightarrow> \<exists>m. min_option xs = Some (m :: nat) \<and> m \<le> x \<and> m \<in> set xs"
  using fold_min by (cases xs) auto

text \<open>(the frame rate serves the slowest viewer).  After an adjustment the frame rate is at most the
  rate any viewer asked for and at most the rate computed for any viewer's network; it is at most 2 while a
  viewer is late with its answers and at most 15 within the first second of a new viewer.\<close>

theorem adjust_fps_serves_slowest:
  assumes "qos_ok q" and "(i, u) \<in> set (q_users q)" and "adjust_fps now q = Some q'"
  shows "(\<forall>f. custom_fps u = Some f \<longrightarrow> q_fps q' \<le> f)
    \<and> (\<forall>f. delay_fps (delay u) = Some f \<longrightarrow> q_fps q' \<le> f)
    \<and> (response_delayed (delay u) \<longrightarrow> q_fps q' \<le> 2)
    \<and> (elapsed_secs (new_user_instant q) now < 1 \<longrightarrow> q_fps q' \<le> 15)"
proof -
  have ok: "user_ok u" using assms(1,2) by (auto simp: qos_ok_def list_all_iff)
  have uf: "fps_ok (user_fps u)" "custom_fps u = Some f \<Longrightarrow> user_fps u \<le> f" for f
    using ok by (auto simp: user_ok_def user_fps_def fps_ok_def qos_consts split: option.splits)
  obtain h where h: "highest_fps q = Some h" "h \<le> user_fps u"
  proof -
    have "user_fps u \<in> set (filter (\<lambda>f. f \<ge> MIN_FPS) (map (\<lambda>(_, u). user_fps u) (q_users q)))"
      using assms(2) uf(1) by (force simp: fps_ok_def)
    from min_option_le[OF this] obtain m where "min_option (filter (\<lambda>f. f \<ge> MIN_FPS) (map (\<lambda>(_, u). user_fps u) (q_users q))) = Some m"
      "m \<le> user_fps u" "MIN_FPS \<le> m" by auto
    then show ?thesis using that uf(1) by (auto simp: highest_fps_def clamp_nat_def fps_ok_def split: if_splits)
  qed
  let ?df = "\<lambda>u. case delay_fps (delay u) of Some f \<Rightarrow> f | None \<Rightarrow> INIT_FPS"
  have "?df u \<in> set (map (\<lambda>(_, u). ?df u) (q_users q))" using assms(2) by force
  from min_option_le[OF this] obtain m where m: "min_option (map (\<lambda>(_, u). ?df u) (q_users q)) = Some m" "m \<le> ?df u" by blast
  have late: "list_ex (\<lambda>(_, u). response_delayed (delay u)) (q_users q)" if "response_delayed (delay u)"
    using that assms(2) by (auto simp: list_ex_iff)
  have dfok: "1 \<le> ?df u" using ok by (auto simp: user_ok_def fps_ok_def qos_consts split: option.splits)
  have "q_fps q' \<le> h \<and> q_fps q' \<le> ?df u \<and> (response_delayed (delay u) \<longrightarrow> q_fps q' \<le> 2)
      \<and> (elapsed_secs (new_user_instant q) now < 1 \<longrightarrow> q_fps q' \<le> 15)"
    using assms(3) h(1) m dfok late
    by (auto simp: adjust_fps_def Let_def clamp_nat_def qos_consts split: if_splits)
  with h(2) uf(2) show ?thesis by (auto split: option.splits)
qed

definition sample_qos :: video_qos where
  "sample_qos = (qos_default 0)\<lparr>q_users := [(7, user_data_default\<lparr>custom_fps := Some 10,
     delay := user_delay_default\<lparr>delay_fps := Some 24, response_delayed := True\<rparr>\<rparr>)]\<rparr>"

theorem adjust_fps_serves_slowest_witness:
  "\<exists>q'. adjust_fps 5000 sample_qos = Some q' \<and> q_fps q' \<le> 2"
proof -
  let ?u = "user_data_default\<lparr>custom_fps := Some 10,
     delay := user_delay_default\<lparr>delay_fps := Some 24, response_delayed := True\<rparr>\<rparr>"
  have q: "qos_ok sample_qos"
    using qos_default_ok[of 0]
    by (simp add: sample_qos_def qos_ok_def user_ok_def user_data_default_def user_delay_default_def rtt_default_def
        fps_ok_def qos_consts)
  obtain f where f: "adjust_fps 5000 sample_qos = Some (sample_qos\<lparr>q_fps := f\<rparr>)" using adjust_fps_ok[OF q] by blast
  have "(7, ?u) \<in> set (q_users sample_qos)" by (simp add: sample_qos_def)
  from adjust_fps_serves_slowest[OF q this f] f show ?thesis by simp
qed

end
