(* ===== verification/Conn_Sessions.thy ===== *)
theory Conn_Sessions
  imports Login_Failure Video_Qos
begin

text \<open>
  The tables shared by all incoming connections (\<^verbatim>\<open>client/src/server/connection.rs\<close>): recent sessions, live
  and authorised connections with their guards (\<^verbatim>\<open>mod raii\<close>), control permissions, the wake lock, the
  password checks with the rotation of the temporary password, and the switch-side tickets.

  \<open>server_state\<close> is the process-wide state; \<open>'p\<close> is the state of the password library, seen through
  \<open>password_api\<close>.  A session's \<^verbatim>\<open>last_recv_time\<close>, shared with the connection by reference in the code, is
  its field in the table.
\<close>

record session =
  last_recv_time :: ms
  random_password :: string
  tfa :: bool

record authed_conn =
  ac_conn_id :: int
  ac_conn_type :: auth_conn_type
  ac_session_key :: session_key
  ac_printer :: bool

record temp_failures =
  tf_password :: string
  tf_failures :: int

record 'p server_state =
  sv_sessions :: "session_key \<rightharpoonup> session"
  sv_alive :: "int list"
  sv_authed :: "authed_conn list"
  sv_permissions :: "(int \<times> u64) list"
  sv_failures :: failure_state
  sv_passwords :: 'p
  sv_temp :: temp_failures
  sv_qos :: video_qos
  sv_wake_queue :: "(nat \<times> nat) list"
  sv_wallpaper_removed :: bool

section \<open>Guards\<close>

definition has_alive_connections :: "('p, 'z) server_state_scheme \<Rightarrow> bool" where
  "has_alive_connections s \<longleftrightarrow> sv_alive s \<noteq> []"

definition connection_id_new :: "int \<Rightarrow> ('p, 'z) server_state_scheme \<Rightarrow> ('p, 'z) server_state_scheme" where
  "connection_id_new i s = s\<lparr>sv_alive := sv_alive s @ [i]\<rparr>"

definition connection_id_drop :: "int \<Rightarrow> ('p, 'z) server_state_scheme \<Rightarrow> ('p, 'z) server_state_scheme" where
  "connection_id_drop i s = s\<lparr>sv_alive := filter (\<lambda>c. c \<noteq> i) (sv_alive s)\<rparr>"

definition is_remote_conn :: "authed_conn \<Rightarrow> bool" where
  "is_remote_conn c \<longleftrightarrow> ac_conn_type c = Remote"

definition check_wake_lock :: "('p, 'z) server_state_scheme \<Rightarrow> ('p, 'z) server_state_scheme" where
  "check_wake_lock s =
     s\<lparr>sv_wake_queue := sv_wake_queue s @ [(length (sv_authed s), length (filter is_remote_conn (sv_authed s)))]\<rparr>"

definition check_wake_lock_on_setting_changed ::
    "bool \<Rightarrow> bool option \<Rightarrow> ('p, 'z) server_state_scheme \<Rightarrow> ('p, 'z) server_state_scheme" where
  "check_wake_lock_on_setting_changed current cached s = (if cached \<noteq> Some current then check_wake_lock s else s)"

text \<open>\<open>ver\<close> is the version number function of the base library; \<open>abr\<close> says whether \<^verbatim>\<open>enable-abr\<close> is on.\<close>

definition authed_conn_printer :: "(string \<Rightarrow> int) \<Rightarrow> auth_conn_type \<Rightarrow> string \<Rightarrow> string \<Rightarrow> bool" where
  "authed_conn_printer ver t version my_platform \<longleftrightarrow>
     t = Remote \<and> ver version \<ge> ver ''1.3.9'' \<and> my_platform = ''Windows''"

definition authed_conn_id_new ::
    "(string \<Rightarrow> int) \<Rightarrow> bool \<Rightarrow> ms \<Rightarrow> int \<Rightarrow> auth_conn_type \<Rightarrow> session_key \<Rightarrow> string \<Rightarrow> string
       \<Rightarrow> ('p, 'z) server_state_scheme \<Rightarrow> ('p, 'z) server_state_scheme" where
  "authed_conn_id_new ver abr now i t key version my_platform s =
     (let s = s\<lparr>sv_authed := sv_authed s @ [\<lparr>ac_conn_id = i, ac_conn_type = t, ac_session_key = key,
                               ac_printer = authed_conn_printer ver t version my_platform\<rparr>]\<rparr>;
          s = check_wake_lock s
      in if t = Remote \<or> t = ViewCamera then s\<lparr>sv_qos := on_connection_open i abr now (sv_qos s)\<rparr> else s)"

definition authed_conn_id_drop ::
    "ms \<Rightarrow> int \<Rightarrow> auth_conn_type \<Rightarrow> ('p, 'z) server_state_scheme \<Rightarrow> ('p, 'z) server_state_scheme" where
  "authed_conn_id_drop now i t s =
     (let s = (if t = Remote \<or> t = ViewCamera then s\<lparr>sv_qos := on_connection_close i now (sv_qos s)\<rparr> else s);
          s = s\<lparr>sv_authed := filter (\<lambda>c. ac_conn_id c \<noteq> i) (sv_authed s)\<rparr>;
          s = (if filter is_remote_conn (sv_authed s) = [] then s\<lparr>sv_wallpaper_removed := False\<rparr> else s)
      in check_wake_lock s)"

definition non_port_forward_conn_count :: "('p, 'z) server_state_scheme \<Rightarrow> nat" where
  "non_port_forward_conn_count s = length (filter (\<lambda>c. ac_conn_type c \<noteq> PortForward) (sv_authed s))"

section \<open>Sessions\<close>

definition check_remove_session :: "int \<Rightarrow> session_key \<Rightarrow> ('p, 'z) server_state_scheme \<Rightarrow> ('p, 'z) server_state_scheme" where
  "check_remove_session i key s =
     (if sv_sessions s key \<noteq> None
      then let is_remote = list_ex (\<lambda>c. ac_conn_id c = i \<and> ac_conn_type c = Remote) (sv_authed s);
               another_remote = list_ex (\<lambda>c. ac_conn_id c \<noteq> i \<and> ac_session_key c = key \<and> ac_conn_type c = Remote)
                                  (sv_authed s)
           in if is_remote \<or> \<not> another_remote then s\<lparr>sv_sessions := (sv_sessions s)(key := None)\<rparr> else s
      else s)"

definition update_or_insert_session ::
    "ms \<Rightarrow> session_key \<Rightarrow> string option \<Rightarrow> bool option \<Rightarrow> ('p, 'z) server_state_scheme \<Rightarrow> ('p, 'z) server_state_scheme" where
  "update_or_insert_session now key password t s =
     (case sv_sessions s key of
        Some x \<Rightarrow>
          let x = (case password of Some p \<Rightarrow> x\<lparr>random_password := p\<rparr> | None \<Rightarrow> x);
              x = (case t of Some b \<Rightarrow> x\<lparr>tfa := b\<rparr> | None \<Rightarrow> x)
          in s\<lparr>sv_sessions := (sv_sessions s)(key \<mapsto> x)\<rparr>
      | None \<Rightarrow>
          s\<lparr>sv_sessions := (sv_sessions s)(key \<mapsto>
             \<lparr>last_recv_time = now, random_password = (case password of Some p \<Rightarrow> p | None \<Rightarrow> []),
              tfa = (case t of Some b \<Rightarrow> b | None \<Rightarrow> False)\<rparr>)\<rparr>)"

definition set_session_2fa :: "ms \<Rightarrow> session_key \<Rightarrow> ('p, 'z) server_state_scheme \<Rightarrow> ('p, 'z) server_state_scheme" where
  "set_session_2fa now key s =
     (case sv_sessions s key of
        Some x \<Rightarrow> s\<lparr>sv_sessions := (sv_sessions s)(key \<mapsto> x\<lparr>tfa := True\<rparr>)\<rparr>
      | None \<Rightarrow> s\<lparr>sv_sessions := (sv_sessions s)(key \<mapsto> \<lparr>last_recv_time = now, random_password = [], tfa = True\<rparr>)\<rparr>)"

definition SESSION_TIMEOUT :: ms where "SESSION_TIMEOUT = 30 * 1000"

definition retain_recent :: "ms \<Rightarrow> (session_key \<rightharpoonup> session) \<Rightarrow> (session_key \<rightharpoonup> session)" where
  "retain_recent now m = (\<lambda>k. case m k of Some x \<Rightarrow> if now - last_recv_time x < SESSION_TIMEOUT then Some x else None | None \<Rightarrow> None)"

section \<open>Control permissions\<close>

definition control_permissions_id_new ::
    "int \<Rightarrow> u64 option \<Rightarrow> ('p, 'z) server_state_scheme \<Rightarrow> ('p, 'z) server_state_scheme" where
  "control_permissions_id_new i cp s =
     (case cp of Some p \<Rightarrow> s\<lparr>sv_permissions := sv_permissions s @ [(i, p)]\<rparr> | None \<Rightarrow> s)"

definition control_permissions_id_drop ::
    "int \<Rightarrow> u64 option \<Rightarrow> ('p, 'z) server_state_scheme \<Rightarrow> ('p, 'z) server_state_scheme" where
  "control_permissions_id_drop i cp s =
     (if cp \<noteq> None then s\<lparr>sv_permissions := filter (\<lambda>(c, _). c \<noteq> i) (sv_permissions s)\<rparr> else s)"

text \<open>The number of a permission in the protocol is \<open>index\<close>.\<close>

definition get_control_permission :: "u64 \<Rightarrow> int \<Rightarrow> bool option" where
  "get_control_permission permissions index =
     (if index \<ge> 0 \<and> index < 32
      then let v = and (drop_bit (nat (index * 2)) permissions) 3
           in if v = 1 then Some False else if v = 2 then Some True else None
      else None)"

definition get_control_permission_state :: "int \<Rightarrow> bool \<Rightarrow> ('p, 'z) server_state_scheme \<Rightarrow> bool option" where
  "get_control_permission_state index disable_if_has_disabled s =
     (let has_enable = list_ex (\<lambda>(_, cp). get_control_permission cp index = Some True) (sv_permissions s);
          has_disable = list_ex (\<lambda>(_, cp). get_control_permission cp index = Some False) (sv_permissions s)
      in if disable_if_has_disabled
         then (if has_disable then Some False else if has_enable then Some True else None)
         else (if has_enable then Some True else if has_disable then Some False else None))"

datatype enable_option =
    EnableKeyboard | EnableRemotePrinter | EnableClipboard | EnableFileTransfer | EnableAudio | EnableCamera
  | EnableTerminal | EnableTunnel | EnableRemoteRestart | EnableRecordSession | EnableBlockInput
  | EnablePrivacyMode | OtherEnable string

text \<open>What the configuration says: \<^verbatim>\<open>access-mode\<close>, whether an option reads as on, and the protocol's number of
  each permission.  \<open>desktop_flutter\<close> is the build that knows access modes.\<close>

record permission_env =
  desktop_flutter :: bool
  access_mode :: string
  option_on :: "enable_option \<Rightarrow> bool"
  permission_index :: "enable_option \<Rightarrow> int"

definition is_permission_enabled_locally :: "permission_env \<Rightarrow> enable_option \<Rightarrow> bool" where
  "is_permission_enabled_locally pe opt =
     (if desktop_flutter pe \<and> access_mode pe = ''full'' then True
      else if desktop_flutter pe \<and> access_mode pe = ''view'' then False
      else option_on pe opt)"

definition permission_number :: "permission_env \<Rightarrow> enable_option \<Rightarrow> int option" where
  "permission_number pe opt = (case opt of OtherEnable _ \<Rightarrow> None | _ \<Rightarrow> Some (permission_index pe opt))"

definition permission :: "permission_env \<Rightarrow> enable_option \<Rightarrow> u64 option \<Rightarrow> bool" where
  "permission pe opt control_permissions =
     (case Option.bind control_permissions (\<lambda>p. Option.bind (permission_number pe opt) (get_control_permission p)) of
        Some enabled \<Rightarrow> enabled
      | None \<Rightarrow> is_permission_enabled_locally pe opt)"

section \<open>The wake lock\<close>

text \<open>One message received by the thread; the lock, when held, knows whether it keeps the display on.
  \<open>set_display\<close> exists on Windows and macOS.\<close>

record wake_state =
  wakelock :: "bool option"
  last_display :: bool
  keep_awake_option :: "bool option"

definition wakelock_step :: "bool \<Rightarrow> bool \<Rightarrow> nat \<times> nat \<Rightarrow> wake_state \<Rightarrow> wake_state" where
  "wakelock_step linux keep_awake msg w =
     (case msg of (conn_count, remote_count) \<Rightarrow>
        let w = w\<lparr>keep_awake_option := Some keep_awake\<rparr> in
        if conn_count = 0 \<or> \<not> keep_awake then w\<lparr>wakelock := None\<rparr>
        else let display = remote_count > 0 in
          case wakelock w of
            Some d \<Rightarrow> w\<lparr>wakelock := Some (if display \<noteq> last_display w \<and> \<not> linux then display else d), last_display := display\<rparr>
          | None \<Rightarrow> let display = (if linux then True else display)
                    in w\<lparr>wakelock := Some display, last_display := display\<rparr>)"

section \<open>Passwords\<close>

fun xor_fold :: "u8 list \<Rightarrow> u8 list \<Rightarrow> u8 \<Rightarrow> u8" where
  "xor_fold (a # as) (b # bs) x = xor_fold as bs (or x (xor a b))"
| "xor_fold _ _ x = x"

definition constant_time_eq :: "u8 list \<Rightarrow> u8 list \<Rightarrow> bool" where
  "constant_time_eq a b \<longleftrightarrow> (if length a \<noteq> length b then False else xor_fold a b 0 = 0)"

definition bytes_of :: "string \<Rightarrow> u8 list" where
  "bytes_of s = map (\<lambda>c. of_nat (of_char c)) s"

datatype approve_mode = ApproveBoth | ApprovePassword | ApproveClick

record 'p password_api =
  temporary_enabled :: "'p \<Rightarrow> bool"
  temporary_password :: "'p \<Rightarrow> string"
  update_temporary_password :: "'p \<Rightarrow> 'p"
  permanent_enabled :: "'p \<Rightarrow> bool"
  has_valid_password :: "'p \<Rightarrow> bool"
  approve_mode :: "'p \<Rightarrow> approve_mode"
  local_storage_and_salt :: "'p \<Rightarrow> string \<times> string"
  preset_storage_and_salt :: "'p \<Rightarrow> string \<times> string"
  local_usable :: "string \<Rightarrow> string \<Rightarrow> bool"
  preset_usable :: "string \<Rightarrow> string \<Rightarrow> bool"
  decode_permanent_h1 :: "string \<Rightarrow> u8 list option"
  decode_preset_h1 :: "string \<Rightarrow> u8 list option"
  sha256 :: "u8 list \<Rightarrow> u8 list"

record hash =
  h_salt :: string
  h_challenge :: string

text \<open>\<open>answer\<close> is \<^verbatim>\<open>lr.password\<close>.\<close>

definition verify_h1 :: "'p password_api \<Rightarrow> hash \<Rightarrow> u8 list \<Rightarrow> u8 list \<Rightarrow> bool" where
  "verify_h1 pw h answer h1 = constant_time_eq (sha256 pw (h1 @ bytes_of (h_challenge h))) answer"

definition validate_password_plain :: "'p password_api \<Rightarrow> hash \<Rightarrow> u8 list \<Rightarrow> string \<Rightarrow> bool" where
  "validate_password_plain pw h answer password =
     (if password = [] then False
      else verify_h1 pw h answer (sha256 pw (bytes_of password @ bytes_of (h_salt h))))"

definition validate_password_storage :: "'p password_api \<Rightarrow> hash \<Rightarrow> u8 list \<Rightarrow> string \<Rightarrow> bool" where
  "validate_password_storage pw h answer storage =
     (if storage = [] then False
      else (case decode_permanent_h1 pw storage of
              Some h1 \<Rightarrow> verify_h1 pw h answer h1
            | None \<Rightarrow> validate_password_plain pw h answer storage))"

definition validate_preset_password_storage :: "'p password_api \<Rightarrow> hash \<Rightarrow> u8 list \<Rightarrow> string \<Rightarrow> string \<Rightarrow> bool" where
  "validate_preset_password_storage pw h answer storage salt =
     (if salt = [] then validate_password_plain pw h answer storage
      else (case decode_preset_h1 pw storage of
              None \<Rightarrow> False
            | Some h1 \<Rightarrow> verify_h1 pw h answer h1))"

definition MAX_CONSECUTIVE_FAILURES :: int where "MAX_CONSECUTIVE_FAILURES = 10"

definition check_update_temporary_password ::
    "'p password_api \<Rightarrow> bool \<Rightarrow> ('p, 'z) server_state_scheme \<Rightarrow> ('p, 'z) server_state_scheme" where
  "check_update_temporary_password pw success s =
     (if \<not> temporary_enabled pw (sv_passwords s) then s
      else let current = temporary_password pw (sv_passwords s) in
        if current = [] then s
        else let t = (if tf_password (sv_temp s) \<noteq> current then \<lparr>tf_password = current, tf_failures = 0\<rparr> else sv_temp s) in
          if success then s\<lparr>sv_temp := t\<lparr>tf_failures := 0\<rparr>\<rparr>
          else let t = t\<lparr>tf_failures := wrap_i32 (tf_failures t + 1)\<rparr> in
            if tf_failures t < MAX_CONSECUTIVE_FAILURES then s\<lparr>sv_temp := t\<rparr>
            else let p = update_temporary_password pw (sv_passwords s)
                 in s\<lparr>sv_passwords := p, sv_temp := \<lparr>tf_password = temporary_password pw p, tf_failures = 0\<rparr>\<rparr>)"

text \<open>The way a password was recognised, if it was.\<close>

definition validate_password ::
    "'p password_api \<Rightarrow> hash \<Rightarrow> u8 list \<Rightarrow> ms \<Rightarrow> session_key \<Rightarrow> bool \<Rightarrow> ('p, 'z) server_state_scheme
       \<Rightarrow> primary_auth option \<times> ('p, 'z) server_state_scheme" where
  "validate_password pw h answer now key allow_permanent_password s =
     (let p = sv_passwords s in
      if temporary_enabled pw p \<and> validate_password_plain pw h answer (temporary_password pw p)
      then (Some TemporaryPassword,
            check_update_temporary_password pw True
              (update_or_insert_session now key (Some (temporary_password pw p)) (Some False) s))
      else if permanent_enabled pw p \<or> allow_permanent_password
      then let (local_storage, local_salt) = local_storage_and_salt pw p in
           if local_storage \<noteq> []
           then (if local_usable pw local_storage local_salt \<and> validate_password_storage pw h answer local_storage
                 then (Some PermanentPassword, s) else (None, s))
           else let (hard, salt) = preset_storage_and_salt pw p in
                if preset_usable pw hard salt \<and> validate_preset_password_storage pw h answer hard salt
                then (Some PermanentPassword, s) else (None, s)
      else (None, s))"

text \<open>What \<^verbatim>\<open>is_recent_session\<close> records in the audit fields: the second factor or the password.\<close>

definition is_recent_session ::
    "'p password_api \<Rightarrow> hash \<Rightarrow> u8 list \<Rightarrow> ms \<Rightarrow> session_key \<Rightarrow> bool \<Rightarrow> ('p, 'z) server_state_scheme
       \<Rightarrow> bool \<times> ('p, 'z) server_state_scheme" where
  "is_recent_session pw h answer now key t s =
     (let s = s\<lparr>sv_sessions := retain_recent now (sv_sessions s)\<rparr> in
      case sv_sessions s key of
        Some x \<Rightarrow> (answer \<noteq> [] \<and> (t \<and> tfa x \<or> \<not> t \<and> validate_password_plain pw h answer (random_password x)), s)
      | None \<Rightarrow> (False, s))"

section \<open>Switch-side tickets\<close>

type_synonym tickets = "string \<rightharpoonup> ms \<times> string"

definition insert_switch_sides_uuid :: "ms \<Rightarrow> string \<Rightarrow> string \<Rightarrow> tickets \<Rightarrow> tickets" where
  "insert_switch_sides_uuid now i uuid m = m(i \<mapsto> (now, uuid))"

definition retain_tickets :: "ms \<Rightarrow> tickets \<Rightarrow> tickets" where
  "retain_tickets now m = (\<lambda>k. case m k of Some (t, u) \<Rightarrow> if now - t < 10 * 1000 then Some (t, u) else None | None \<Rightarrow> None)"

definition insert_pending_switch_sides_uuid :: "ms \<Rightarrow> string \<Rightarrow> string \<Rightarrow> tickets \<Rightarrow> tickets" where
  "insert_pending_switch_sides_uuid now i uuid m = (retain_tickets now m)(i \<mapsto> (now, uuid))"

definition remove_pending_switch_sides_uuid :: "ms \<Rightarrow> string \<Rightarrow> string \<Rightarrow> tickets \<Rightarrow> bool \<times> tickets" where
  "remove_pending_switch_sides_uuid now i uuid m =
     (let m = retain_tickets now m in
      if map_option (\<lambda>(_, u). u = uuid) (m i) = Some True then (True, m(i := None)) else (False, m))"

section \<open>Properties\<close>

lemma or_eq_0: "or x y = 0 \<longleftrightarrow> x = 0 \<and> y = (0 :: u8)"
  by (metis or.right_neutral or_eq_0_iff)

lemma xor_eq_0: "xor x y = 0 \<longleftrightarrow> x = (y :: u8)"
  by (metis xor.left_neutral xor.assoc xor_self_eq)

lemma xor_fold_0: "length as = length bs \<Longrightarrow> xor_fold as bs x = 0 \<longleftrightarrow> x = 0 \<and> as = bs"
  by (induction as bs x rule: xor_fold.induct) (auto simp: or_eq_0 xor_eq_0)

text \<open>\<^bold>\<open>C36\<close> (the constant-time comparison compares).  It accepts exactly equal byte strings.\<close>

theorem constant_time_eq_iff: "constant_time_eq a b \<longleftrightarrow> a = b"
  by (auto simp: constant_time_eq_def xor_fold_0)

lemma wrong_guess:
  "temporary_enabled pw (sv_passwords s) \<Longrightarrow> temporary_password pw (sv_passwords s) \<noteq> [] \<Longrightarrow>
   sv_temp s = \<lparr>tf_password = temporary_password pw (sv_passwords s), tf_failures = int j\<rparr> \<Longrightarrow> j < 10 \<Longrightarrow>
   check_update_temporary_password pw False s =
     (if j < 9 then s\<lparr>sv_temp := \<lparr>tf_password = temporary_password pw (sv_passwords s), tf_failures = int (Suc j)\<rparr>\<rparr>
      else let p = update_temporary_password pw (sv_passwords s) in
        s\<lparr>sv_passwords := p, sv_temp := \<lparr>tf_password = temporary_password pw p, tf_failures = 0\<rparr>\<rparr>)"
  by (auto simp: check_update_temporary_password_def Let_def MAX_CONSECUTIVE_FAILURES_def wrap_i32_def)

lemma wrong_guesses:
  assumes "temporary_enabled pw (sv_passwords s)" and "temporary_password pw (sv_passwords s) \<noteq> []"
    and "sv_temp s = \<lparr>tf_password = temporary_password pw (sv_passwords s), tf_failures = int k\<rparr>"
  shows "k + m < 10 \<Longrightarrow> (check_update_temporary_password pw False ^^ m) s =
    s\<lparr>sv_temp := \<lparr>tf_password = temporary_password pw (sv_passwords s), tf_failures = int (k + m)\<rparr>\<rparr>"
proof (induction m)
  case 0
  show ?case using assms(3) by simp
next
  case (Suc m)
  then show ?case using wrong_guess[of pw "(check_update_temporary_password pw False ^^ m) s" "k + m"] assms(1,2)
    by simp
qed

text \<open>(a temporary password survives at most ten wrong guesses).  While fewer than ten wrong answers
  in a row were counted against the current temporary password it stays; with the tenth it is replaced and the
  count starts again.\<close>

theorem temporary_password_rotates:
  assumes "temporary_enabled pw (sv_passwords s)" and "temporary_password pw (sv_passwords s) \<noteq> []"
    and "tf_password (sv_temp s) = temporary_password pw (sv_passwords s)" and "tf_failures (sv_temp s) = int k"
    and "k + n \<le> 10" and "0 < n"
  shows "let s' = (check_update_temporary_password pw False ^^ n) s in
    if k + n < 10 then sv_passwords s' = sv_passwords s \<and> tf_failures (sv_temp s') = int (k + n)
    else sv_passwords s' = update_temporary_password pw (sv_passwords s) \<and> tf_failures (sv_temp s') = 0
       \<and> tf_password (sv_temp s') = temporary_password pw (sv_passwords s')"
proof -
  have t: "sv_temp s = \<lparr>tf_password = temporary_password pw (sv_passwords s), tf_failures = int k\<rparr>"
    using assms(3,4) by simp
  note below = wrong_guesses[OF assms(1,2) t]
  show ?thesis
  proof (cases "k + n < 10")
    case True
    with below[OF True] show ?thesis by simp
  next
    case False
    then obtain m where m: "n = Suc m" "k + m = 9" using assms(5,6) by (cases n) auto
    then show ?thesis
      using wrong_guess[of pw "(check_update_temporary_password pw False ^^ m) s" 9] below[of m] assms(1,2)
      by (simp add: Let_def)
  qed
qed

text \<open>A password service for the witnesses: the \<open>n\<close>-th temporary password is \<open>n + 1\<close> letters long.\<close>

definition count_passwords :: "nat password_api" where
  "count_passwords = \<lparr>temporary_enabled = (\<lambda>_. True), temporary_password = (\<lambda>n. replicate (Suc n) CHR ''a''),
     update_temporary_password = Suc, permanent_enabled = (\<lambda>_. False), has_valid_password = (\<lambda>_. True),
     approve_mode = (\<lambda>_. ApproveBoth), local_storage_and_salt = (\<lambda>_. ([], [])),
     preset_storage_and_salt = (\<lambda>_. ([], [])), local_usable = (\<lambda>_ _. False), preset_usable = (\<lambda>_ _. False),
     decode_permanent_h1 = (\<lambda>_. None), decode_preset_h1 = (\<lambda>_. None), sha256 = (\<lambda>x. x)\<rparr>"

definition sample_server :: "nat server_state" where
  "sample_server = \<lparr>sv_sessions = Map.empty, sv_alive = [], sv_authed = [], sv_permissions = [],
     sv_failures = fresh_failures, sv_passwords = 0, sv_temp = \<lparr>tf_password = ''a'', tf_failures = 8\<rparr>,
     sv_qos = qos_default 0, sv_wake_queue = [], sv_wallpaper_removed = False\<rparr>"

theorem temporary_password_rotates_witness:
  "tf_failures (sv_temp ((check_update_temporary_password count_passwords False ^^ 1) sample_server)) = 9
   \<and> sv_passwords ((check_update_temporary_password count_passwords False ^^ 2) sample_server) = 1"
  using temporary_password_rotates[of count_passwords sample_server 8 1]
    temporary_password_rotates[of count_passwords sample_server 8 2]
  by (simp add: count_passwords_def sample_server_def Let_def del: funpow.simps)

text \<open>(switch-side tickets are single-use and short-lived).  A ticket is honoured once, for its own
  identifier, within ten seconds of being issued; a second try and a try after ten seconds fail.\<close>

theorem switch_sides_ticket:
  assumes "t \<le> now" and "m' = insert_pending_switch_sides_uuid t i uuid m"
    and "remove_pending_switch_sides_uuid now i u m' = (ok, m'')"
  shows "(ok \<longleftrightarrow> u = uuid \<and> now - t < 10000)
    \<and> (ok \<longrightarrow> \<not> fst (remove_pending_switch_sides_uuid now' i u' m''))"
  using assms
  by (auto simp: insert_pending_switch_sides_uuid_def remove_pending_switch_sides_uuid_def retain_tickets_def Let_def
      split: if_splits option.splits)

theorem switch_sides_ticket_witness:
  "fst (remove_pending_switch_sides_uuid 9999 ''peer'' ''u1''
      (insert_pending_switch_sides_uuid 0 ''peer'' ''u1'' Map.empty))
   \<and> \<not> fst (remove_pending_switch_sides_uuid 10000 ''peer'' ''u1''
      (insert_pending_switch_sides_uuid 0 ''peer'' ''u1'' Map.empty))"
  using switch_sides_ticket[of 0 9999 "insert_pending_switch_sides_uuid 0 ''peer'' ''u1'' Map.empty" "''peer''" "''u1''"
      Map.empty "''u1''", OF _ refl surjective_pairing]
    switch_sides_ticket[of 0 10000 "insert_pending_switch_sides_uuid 0 ''peer'' ''u1'' Map.empty" "''peer''" "''u1''"
      Map.empty "''u1''", OF _ refl surjective_pairing]
  by simp

text \<open>Opening and closing authorised connections.\<close>

datatype guard_op = OpenGuard int auth_conn_type session_key | CloseGuard int auth_conn_type

fun guard_exec :: "ms \<Rightarrow> guard_op \<Rightarrow> ('p, 'z) server_state_scheme \<Rightarrow> ('p, 'z) server_state_scheme" where
  "guard_exec now (OpenGuard i t key) s = authed_conn_id_new (\<lambda>_. 0) True now i t key [] [] s"
| "guard_exec now (CloseGuard i t) s = authed_conn_id_drop now i t s"

lemma guard_exec_queue:
  "sv_wake_queue (guard_exec now op s) = sv_wake_queue s
     @ [(length (sv_authed (guard_exec now op s)), length (filter is_remote_conn (sv_authed (guard_exec now op s))))]"
  by (cases op) (auto simp: authed_conn_id_new_def authed_conn_id_drop_def check_wake_lock_def Let_def)

definition wake_ok :: "wake_state \<Rightarrow> bool" where
  "wake_ok w \<longleftrightarrow> pred_option (\<lambda>d. d = last_display w) (wakelock w)"

lemma wakelock_step_result:
  "wake_ok w \<Longrightarrow> wake_ok (wakelock_step False keep (c, r) w)
     \<and> wakelock (wakelock_step False keep (c, r) w) = (if c = 0 \<or> \<not> keep then None else Some (r > 0))"
  by (auto simp: wake_ok_def wakelock_step_def Let_def split: option.splits)

lemma wake_ok_fold: "wake_ok w \<Longrightarrow> wake_ok (fold (wakelock_step False keep) q w)"
proof (induction q arbitrary: w)
  case (Cons m q)
  then show ?case using wakelock_step_result[of w keep "fst m" "snd m"] by simp
qed simp

text \<open>(the wake lock follows the sessions).  After any openings and closings of authorised connections,
  once its thread has worked off its queue, the machine is kept awake exactly when that is wanted and a
  connection is open, and the display is kept on exactly when one of them is a remote control session (on
  Windows and macOS, where the lock can be changed).\<close>

theorem wakelock_follows_sessions:
  assumes "ops \<noteq> []" and "sv_wake_queue s = []" and "wakelock w = None"
    and "s' = fold (guard_exec now) ops s"
  shows "wakelock (fold (wakelock_step False keep) (sv_wake_queue s') w) =
    (if keep \<and> sv_authed s' \<noteq> [] then Some (list_ex is_remote_conn (sv_authed s')) else None)"
proof -
  obtain op ops' where ops: "ops = ops' @ [op]" using assms(1) by (cases ops rule: rev_cases) auto
  define t where "t = fold (guard_exec now) ops' s"
  have s': "s' = guard_exec now op t" by (simp add: assms(4) ops t_def)
  let ?w = "fold (wakelock_step False keep) (sv_wake_queue t) w"
  have "wake_ok ?w" by (rule wake_ok_fold) (simp add: wake_ok_def assms(3))
  from wakelock_step_result[OF this, of keep "length (sv_authed s')" "length (filter is_remote_conn (sv_authed s'))"]
  show ?thesis
    by (simp add: guard_exec_queue[of now op t, folded s'] list_ex_iff filter_empty_conv)
qed

theorem wakelock_follows_sessions_witness:
  "wakelock (fold (wakelock_step False True)
     (sv_wake_queue (fold (guard_exec 5) [OpenGuard 1 Terminal (\<lparr>sk_peer_id = ''p'', sk_name = [], sk_session_id = 7\<rparr>),
        OpenGuard 2 Remote (\<lparr>sk_peer_id = ''q'', sk_name = [], sk_session_id = 8\<rparr>), CloseGuard 2 Remote] sample_server))
     \<lparr>wakelock = None, last_display = False, keep_awake_option = None\<rparr>) = Some False"
  using wakelock_follows_sessions[of "[OpenGuard 1 Terminal (\<lparr>sk_peer_id = ''p'', sk_name = [], sk_session_id = 7\<rparr>),
        OpenGuard 2 Remote (\<lparr>sk_peer_id = ''q'', sk_name = [], sk_session_id = 8\<rparr>), CloseGuard 2 Remote]" sample_server
      "\<lparr>wakelock = None, last_display = False, keep_awake_option = None\<rparr>" _ 5 True, OF _ _ _ refl]
  by (simp add: sample_server_def authed_conn_id_new_def authed_conn_id_drop_def check_wake_lock_def
      is_remote_conn_def Let_def)

end
