(* ===== verification/Service_Hub.thy ===== *)
theory Service_Hub
  imports Conn_Types "HOL-Library.AList"
begin

text \<open>
  The services of the controlled side and the server that owns them (\<^verbatim>\<open>client/src/server/service.rs\<close> and
  \<^verbatim>\<open>Server\<close> in \<^verbatim>\<open>client/src/server.rs\<close>).  A subscriber is its connection's number, the maps of subscribers
  are lists of numbers, and sending is the list of deliveries, each a number and a message.  The services of
  the server are an association list by name.  The thread of a service is the sequence of calls it makes;
  a snapshot is the two calls it consists of, \<open>send_new_subscribes\<close> for what it sends and
  \<open>swap_new_subscribes\<close> when its handle is dropped, because other threads can subscribe in between.
\<close>

section \<open>Services\<close>

record service =
  svc_name :: string
  svc_subscribes :: "int list"
  svc_new_subscribes :: "int list"
  svc_active :: bool
  svc_need_snapshot :: bool
  svc_options :: "(string \<times> string) list"

definition service_new :: "string \<Rightarrow> bool \<Rightarrow> service" where
  "service_new name need_snapshot = \<lparr>svc_name = name, svc_subscribes = [], svc_new_subscribes = [],
     svc_active = True, svc_need_snapshot = need_snapshot, svc_options = []\<rparr>"

definition send_new_subscribes :: "'m \<Rightarrow> service \<Rightarrow> (int \<times> 'm) list" where
  "send_new_subscribes m s = map (\<lambda>i. (i, m)) (svc_new_subscribes s)"

definition swap_new_subscribes :: "service \<Rightarrow> service" where
  "swap_new_subscribes s =
     s\<lparr>svc_subscribes := fold List.insert (svc_new_subscribes s) (svc_subscribes s), svc_new_subscribes := []\<rparr>"

definition has_subscribes :: "service \<Rightarrow> bool" where
  "has_subscribes s \<longleftrightarrow> length (svc_subscribes s) > 0 \<or> length (svc_new_subscribes s) > 0"

definition is_subed :: "int \<Rightarrow> service \<Rightarrow> bool" where
  "is_subed i s \<longleftrightarrow> i \<in> set (svc_subscribes s) \<or> i \<in> set (svc_new_subscribes s)"

definition on_subscribe :: "int \<Rightarrow> service \<Rightarrow> service" where
  "on_subscribe i s =
     (if i \<in> set (svc_subscribes s) then s
      else if svc_need_snapshot s then s\<lparr>svc_new_subscribes := List.insert i (svc_new_subscribes s)\<rparr>
      else s\<lparr>svc_subscribes := List.insert i (svc_subscribes s)\<rparr>)"

definition on_unsubscribe :: "int \<Rightarrow> service \<Rightarrow> service" where
  "on_unsubscribe i s =
     (if i \<in> set (svc_subscribes s) then s\<lparr>svc_subscribes := filter (\<lambda>j. j \<noteq> i) (svc_subscribes s)\<rparr>
      else s\<lparr>svc_new_subscribes := filter (\<lambda>j. j \<noteq> i) (svc_new_subscribes s)\<rparr>)"

definition service_join :: "service \<Rightarrow> service" where
  "service_join s = s\<lparr>svc_active := False\<rparr>"

definition get_option :: "string \<Rightarrow> service \<Rightarrow> string option" where
  "get_option opt s = map_of (svc_options s) opt"

definition set_option :: "string \<Rightarrow> string \<Rightarrow> service \<Rightarrow> string option \<times> service" where
  "set_option opt val s = (map_of (svc_options s) opt, s\<lparr>svc_options := AList.update opt val (svc_options s)\<rparr>)"

definition service_ok :: "service \<Rightarrow> bool" where
  "service_ok s \<longleftrightarrow> svc_active s \<and> has_subscribes s"

definition option_value_true :: string where "option_value_true = ''1''"
definition option_value_false :: string where "option_value_false = ''0''"

definition is_option_true :: "string \<Rightarrow> service \<Rightarrow> bool" where
  "is_option_true opt s = (case get_option opt s of Some v \<Rightarrow> v = option_value_true | None \<Rightarrow> False)"

definition set_option_bool :: "string \<Rightarrow> bool \<Rightarrow> service \<Rightarrow> service" where
  "set_option_bool opt val s = snd (set_option opt (if val then option_value_true else option_value_false) s)"

definition send_shared :: "'m \<Rightarrow> service \<Rightarrow> (int \<times> 'm) list" where
  "send_shared m s = map (\<lambda>i. (i, m)) (svc_subscribes s)"

definition send_to :: "'m \<Rightarrow> int \<Rightarrow> service \<Rightarrow> (int \<times> 'm) list" where
  "send_to m i s = (if i \<in> set (svc_subscribes s) then [(i, m)] else [])"

definition send_to_others :: "'m \<Rightarrow> int \<Rightarrow> service \<Rightarrow> (int \<times> 'm) list" where
  "send_to_others m i s = map (\<lambda>j. (j, m)) (filter (\<lambda>j. j \<noteq> i) (svc_subscribes s))"

definition send_video_frame_shared :: "'m \<Rightarrow> service \<Rightarrow> (int \<times> 'm) list \<times> int list" where
  "send_video_frame_shared m s = (send_shared m s, svc_subscribes s)"

definition send_without :: "'m \<Rightarrow> int \<Rightarrow> service \<Rightarrow> (int \<times> 'm) list" where
  "send_without m sub s = map (\<lambda>j. (j, m)) (filter (\<lambda>j. sub \<noteq> j) (svc_subscribes s))"

text \<open>\<^verbatim>\<open>snapshot\<close> with a callback that sends \<open>ms\<close> and is not disturbed by another thread.\<close>

definition snapshot_call :: "'m list \<Rightarrow> service \<Rightarrow> (int \<times> 'm) list \<times> service" where
  "snapshot_call ms s =
     (if length (svc_new_subscribes s) > 0
      then (concat (map (\<lambda>m. send_new_subscribes m s) ms), swap_new_subscribes s)
      else ([], s))"

definition HIBERNATE_TIMEOUT :: int where "HIBERNATE_TIMEOUT = 30"
definition MAX_ERROR_TIMEOUT :: int where "MAX_ERROR_TIMEOUT = 1000"

text \<open>How long \<^verbatim>\<open>run\<close> sleeps after its callback failed: the number of milliseconds the callback ran and the
  previous sleep.\<close>

definition error_backoff :: "ms \<Rightarrow> int \<Rightarrow> int" where
  "error_backoff elapsed error_timeout =
     (let t = (if elapsed > MAX_ERROR_TIMEOUT then HIBERNATE_TIMEOUT else error_timeout * 2)
      in if t > MAX_ERROR_TIMEOUT then MAX_ERROR_TIMEOUT else t)"

section \<open>The server\<close>

datatype video_source = Monitor | Camera

fun service_name_prefix :: "video_source \<Rightarrow> string" where
  "service_name_prefix Monitor = ''monitor''"
| "service_name_prefix Camera = ''camera''"

definition get_service_name :: "video_source \<Rightarrow> nat \<Rightarrow> string" where
  "get_service_name source idx = service_name_prefix source @ show_nat idx"

definition video_service_new :: "video_source \<Rightarrow> nat \<Rightarrow> service" where
  "video_service_new source idx = service_new (get_service_name source idx) True"

record server =
  connections :: "int list"
  services :: "(string \<times> service) list"
  id_count :: int

definition add_service :: "service \<Rightarrow> server \<Rightarrow> server" where
  "add_service svc sv = sv\<lparr>services := AList.update (svc_name svc) svc (services sv)\<rparr>"

definition audio_name :: string where "audio_name = ''audio''"
definition display_name :: string where "display_name = ''display''"
definition clipboard_name :: string where "clipboard_name = ''clipboard''"
definition file_clipboard_name :: string where "file_clipboard_name = ''file-clipboard''"
definition NAME_CURSOR :: string where "NAME_CURSOR = ''mouse_cursor''"
definition NAME_POS :: string where "NAME_POS = ''mouse_pos''"
definition NAME_WINDOW_FOCUS :: string where "NAME_WINDOW_FOCUS = ''window_focus''"
definition printer_name :: string where "printer_name = ''remote-printer''"

text \<open>\<^verbatim>\<open>new\<close> of a desktop build: \<open>first_id\<close> is the random start of the numbers, \<open>file_copy\<close> the file clipboard
  feature, \<open>cursor_embedded\<close> whether the captured image has the cursor in it, \<open>window_focus\<close> whether windows
  can be followed (not on Wayland) and \<open>printer\<close> whether the printer service started.\<close>

definition server_new :: "int \<Rightarrow> bool \<Rightarrow> bool \<Rightarrow> bool \<Rightarrow> bool \<Rightarrow> server" where
  "server_new first_id file_copy cursor_embedded window_focus printer =
     (let sv = \<lparr>connections = [], services = [], id_count = first_id\<rparr>;
          sv = add_service (service_new audio_name True) sv;
          sv = add_service (service_new display_name True) sv;
          sv = add_service (service_new clipboard_name False) sv;
          sv = (if file_copy then add_service (service_new file_clipboard_name False) sv else sv);
          sv = (if cursor_embedded then sv
                else let sv = add_service (service_new NAME_CURSOR True) sv;
                         sv = add_service (service_new NAME_POS False) sv
                     in if window_focus then add_service (service_new NAME_WINDOW_FOCUS False) sv else sv)
      in if printer then add_service (service_new printer_name False) sv else sv)"

definition is_video_service_name :: "string \<Rightarrow> bool" where
  "is_video_service_name name \<longleftrightarrow> starts_with name (service_name_prefix Monitor)
     \<or> starts_with name (service_name_prefix Camera)"

definition contains_service :: "string \<Rightarrow> server \<Rightarrow> bool" where
  "contains_service name sv \<longleftrightarrow> map_of (services sv) name \<noteq> None"

text \<open>Camera 0 is the primary camera; \<open>primary\<close> is the number of the primary display.\<close>

definition PRIMARY_CAMERA_IDX :: nat where "PRIMARY_CAMERA_IDX = 0"

definition try_add_primary_camera_service :: "bool \<Rightarrow> server \<Rightarrow> server" where
  "try_add_primary_camera_service exists sv =
     (if \<not> exists then sv
      else if \<not> contains_service (get_service_name Camera PRIMARY_CAMERA_IDX) sv
      then add_service (video_service_new Camera PRIMARY_CAMERA_IDX) sv else sv)"

definition try_add_primay_video_service :: "nat \<Rightarrow> server \<Rightarrow> server" where
  "try_add_primay_video_service primary sv =
     (if \<not> contains_service (get_service_name Monitor primary) sv
      then add_service (video_service_new Monitor primary) sv else sv)"

definition map_services :: "(string \<Rightarrow> service \<Rightarrow> service) \<Rightarrow> server \<Rightarrow> server" where
  "map_services f sv = sv\<lparr>services := map (\<lambda>(k, s). (k, f k s)) (services sv)\<rparr>"

definition add_camera_connection :: "bool \<Rightarrow> int \<Rightarrow> server \<Rightarrow> server" where
  "add_camera_connection exists i sv =
     (let sv = (if exists then map_services (\<lambda>k s. if k = get_service_name Camera PRIMARY_CAMERA_IDX
                                  then on_subscribe i s else s) sv else sv)
      in sv\<lparr>connections := List.insert i (connections sv)\<rparr>)"

definition add_connection :: "nat \<Rightarrow> int \<Rightarrow> string list \<Rightarrow> server \<Rightarrow> server" where
  "add_connection primary i noperms sv =
     (let sv = map_services (\<lambda>_ s.
            if is_video_service_name (svc_name s) \<and> svc_name s \<noteq> get_service_name Monitor primary then s
            else if svc_name s \<notin> set noperms then on_subscribe i s else s) sv
      in sv\<lparr>connections := List.insert i (connections sv)\<rparr>)"

definition remove_connection :: "int \<Rightarrow> server \<Rightarrow> server" where
  "remove_connection i sv =
     (let sv = map_services (\<lambda>_. on_unsubscribe i) sv
      in sv\<lparr>connections := filter (\<lambda>j. j \<noteq> i) (connections sv)\<rparr>)"

text \<open>The connections that are told to stop.\<close>

definition close_connections :: "server \<Rightarrow> int list" where
  "close_connections sv = connections sv"

definition subscribe :: "string \<Rightarrow> int \<Rightarrow> bool \<Rightarrow> server \<Rightarrow> server" where
  "subscribe name i sub sv =
     (case map_of (services sv) name of
        None \<Rightarrow> sv
      | Some s \<Rightarrow>
          if is_subed i s = sub then sv
          else sv\<lparr>services := AList.update name (if sub then on_subscribe i s else on_unsubscribe i s) (services sv)\<rparr>)"

definition get_new_id :: "server \<Rightarrow> int \<times> server" where
  "get_new_id sv = (let n = wrap_i32 (id_count sv + 1) in (n, sv\<lparr>id_count := n\<rparr>))"

definition set_video_service_opt :: "(video_source \<times> nat) option \<Rightarrow> string \<Rightarrow> string \<Rightarrow> server \<Rightarrow> server" where
  "set_video_service_opt display opt val sv =
     map_services (\<lambda>k s.
       if (case display of Some (source, d) \<Rightarrow> k \<noteq> get_service_name source d | None \<Rightarrow> False) then s
       else if is_video_service_name k then snd (set_option opt val s) else s) sv"

definition get_subbed_displays_count :: "int \<Rightarrow> server \<Rightarrow> nat" where
  "get_subbed_displays_count i sv =
     length (filter (\<lambda>(k, s). is_video_service_name k \<and> is_subed i s) (services sv))"

definition capture_displays :: "int \<Rightarrow> video_source \<Rightarrow> nat list \<Rightarrow> bool \<Rightarrow> bool \<Rightarrow> server \<Rightarrow> server" where
  "capture_displays i source displays incl excl sv =
     fold (\<lambda>name sv.
       if is_video_service_name name
       then if name \<in> set (map (get_service_name source) displays)
            then if incl then subscribe name i True sv else sv
            else if excl then subscribe name i False sv else sv
       else sv) (map fst (services sv)) sv"

definition enable_retina :: "server \<Rightarrow> bool" where
  "enable_retina sv \<longleftrightarrow> length (filter (\<lambda>(k, s). is_video_service_name k \<and> service_ok s) (services sv)) < 2"

text \<open>\<^verbatim>\<open>Connection::capture_displays\<close>: the services of the displays wanted are created first.\<close>

definition ensure_video_service :: "video_source \<Rightarrow> nat \<Rightarrow> server \<Rightarrow> server" where
  "ensure_video_service source d sv =
     (if \<not> contains_service (get_service_name source d) sv then add_service (video_service_new source d) sv else sv)"

definition conn_capture_displays ::
    "int \<Rightarrow> video_source \<Rightarrow> bool \<Rightarrow> nat list \<Rightarrow> nat list \<Rightarrow> nat list \<Rightarrow> server \<Rightarrow> bool \<times> server" where
  "conn_capture_displays i source follow_remote_window add sub set1 sv =
     (let sv = fold (ensure_video_service source) add sv;
          sv = fold (ensure_video_service source) set1 sv;
          sv = (if add \<noteq> [] then capture_displays i source add True False sv
                else if sub \<noteq> [] then capture_displays i source sub False True sv
                else capture_displays i source set1 True True sv);
          multi_ui_session = get_subbed_displays_count i sv > 1
      in (multi_ui_session,
          if follow_remote_window then subscribe NAME_WINDOW_FOCUS i (\<not> multi_ui_session) sv else sv))"

definition switch_display_to ::
    "int \<Rightarrow> video_source \<Rightarrow> nat \<Rightarrow> bool \<Rightarrow> nat \<Rightarrow> nat \<Rightarrow> server \<Rightarrow> nat \<times> server" where
  "switch_display_to i source primary multi_ui old_idx display_idx sv =
     (let sv = (if display_idx \<noteq> primary then ensure_video_service source display_idx sv else sv);
          sv = (if \<not> multi_ui then subscribe (get_service_name source old_idx) i False sv else sv)
      in (display_idx, subscribe (get_service_name source display_idx) i True sv))"

section \<open>What one subscriber receives\<close>

text \<open>The calls on a service, with an undisturbed snapshot, and their deliveries.\<close>

datatype 'm svc_op =
    Sub int | Unsub int | Shared 'm | To 'm int | Others 'm int | Without 'm int | Snapshot "'m list"

fun svc_exec :: "'m svc_op \<Rightarrow> service \<Rightarrow> (int \<times> 'm) list \<times> service" where
  "svc_exec (Sub i) s = ([], on_subscribe i s)"
| "svc_exec (Unsub i) s = ([], on_unsubscribe i s)"
| "svc_exec (Shared m) s = (send_shared m s, s)"
| "svc_exec (To m i) s = (send_to m i s, s)"
| "svc_exec (Others m i) s = (send_to_others m i s, s)"
| "svc_exec (Without m i) s = (send_without m i s, s)"
| "svc_exec (Snapshot ms) s = snapshot_call ms s"

fun svc_run :: "'m svc_op list \<Rightarrow> service \<Rightarrow> (int \<times> 'm) list" where
  "svc_run [] s = []"
| "svc_run (op # ops) s = (case svc_exec op s of (d, s') \<Rightarrow> d @ svc_run ops s')"

text \<open>The contract: a connection is outside, waits for a snapshot, or is in.  It receives nothing outside,
  the whole snapshot when it stops waiting, and every message meant for it while it is in.\<close>

datatype member = Out | Waiting | In

fun member_step :: "bool \<Rightarrow> int \<Rightarrow> 'm svc_op \<Rightarrow> member \<Rightarrow> 'm list \<times> member" where
  "member_step need i (Sub j) st = ([], if j = i \<and> st = Out then if need then Waiting else In else st)"
| "member_step need i (Unsub j) st = ([], if j = i then Out else st)"
| "member_step need i (Shared m) st = (if st = In then [m] else [], st)"
| "member_step need i (To m j) st = (if st = In \<and> j = i then [m] else [], st)"
| "member_step need i (Others m j) st = (if st = In \<and> j \<noteq> i then [m] else [], st)"
| "member_step need i (Without m j) st = (if st = In \<and> j \<noteq> i then [m] else [], st)"
| "member_step need i (Snapshot ms) st = (if st = Waiting then (ms, In) else ([], st))"

fun member_run :: "bool \<Rightarrow> int \<Rightarrow> 'm svc_op list \<Rightarrow> member \<Rightarrow> 'm list" where
  "member_run need i [] st = []"
| "member_run need i (op # ops) st = (case member_step need i op st of (d, st') \<Rightarrow> d @ member_run need i ops st')"

definition service_inv :: "service \<Rightarrow> bool" where
  "service_inv s \<longleftrightarrow> distinct (svc_subscribes s) \<and> distinct (svc_new_subscribes s)
     \<and> set (svc_subscribes s) \<inter> set (svc_new_subscribes s) = {}
     \<and> (\<not> svc_need_snapshot s \<longrightarrow> svc_new_subscribes s = [])"

definition member_of :: "int \<Rightarrow> service \<Rightarrow> member" where
  "member_of i s = (if i \<in> set (svc_subscribes s) then In else if i \<in> set (svc_new_subscribes s) then Waiting else Out)"

definition received :: "int \<Rightarrow> (int \<times> 'm) list \<Rightarrow> 'm list" where
  "received i ds = map snd (filter (\<lambda>d. fst d = i) ds)"

lemma received_append [simp]: "received i (xs @ ys) = received i xs @ received i ys"
  and received_Nil [simp]: "received i [] = []"
  by (simp_all add: received_def)

lemma received_map: "distinct js \<Longrightarrow> received i (map (\<lambda>j. (j, m)) js) = (if i \<in> set js then [m] else [])"
  by (induction js) (auto simp: received_def)

lemma received_snapshot:
  "distinct js \<Longrightarrow> received i (concat (map (\<lambda>m. map (\<lambda>j. (j, m)) js) ms)) = (if i \<in> set js then ms else [])"
  by (induction ms) (auto simp: received_map)

lemma fold_insert_distinct:
  "distinct xs \<Longrightarrow> distinct (fold List.insert ys xs) \<and> set (fold List.insert ys xs) = set xs \<union> set ys"
  by (induction ys arbitrary: xs) auto

lemma service_inv_new [simp]: "service_inv (service_new name need)"
  by (simp add: service_inv_def service_new_def)

lemma on_subscribe_props:
  "service_inv s \<Longrightarrow> service_inv (on_subscribe i s)"
  "svc_name (on_subscribe i s) = svc_name s"
  "svc_need_snapshot (on_subscribe i s) = svc_need_snapshot s"
  "is_subed j (on_subscribe i s) \<longleftrightarrow> j = i \<or> is_subed j s"
  by (auto simp: service_inv_def on_subscribe_def is_subed_def)

lemma on_unsubscribe_props:
  "service_inv s \<Longrightarrow> service_inv (on_unsubscribe i s)"
  "svc_name (on_unsubscribe i s) = svc_name s"
  "svc_need_snapshot (on_unsubscribe i s) = svc_need_snapshot s"
  "service_inv s \<Longrightarrow> is_subed j (on_unsubscribe i s) \<longleftrightarrow> j \<noteq> i \<and> is_subed j s"
  by (auto simp: service_inv_def on_unsubscribe_def is_subed_def)

lemma received_single [simp]: "received i [(j, m)] = (if j = i then [m] else [])"
  by (simp add: received_def)

lemma snapshot_member:
  assumes "service_inv s"
  shows "service_inv (snd (snapshot_call ms s))"
    and "svc_need_snapshot (snd (snapshot_call ms s)) = svc_need_snapshot s"
    and "received i (fst (snapshot_call ms s)) = (if member_of i s = Waiting then ms else [])"
    and "member_of i (snd (snapshot_call ms s)) = (if member_of i s = Waiting then In else member_of i s)"
  using assms fold_insert_distinct[of "svc_subscribes s" "svc_new_subscribes s"]
  by (auto simp: snapshot_call_def send_new_subscribes_def swap_new_subscribes_def service_inv_def
      member_of_def received_snapshot)

lemma sub_member:
  "service_inv s \<Longrightarrow> member_of i (on_subscribe j s) =
    (if j = i \<and> member_of i s = Out then if svc_need_snapshot s then Waiting else In else member_of i s)"
  by (auto simp: service_inv_def on_subscribe_def member_of_def)

lemma unsub_member: "service_inv s \<Longrightarrow> member_of i (on_unsubscribe j s) = (if j = i then Out else member_of i s)"
  by (auto simp: service_inv_def on_unsubscribe_def member_of_def)

lemma send_member:
  assumes "service_inv s"
  shows "received i (send_shared m s) = (if member_of i s = In then [m] else [])"
    and "received i (send_to m j s) = (if member_of i s = In \<and> j = i then [m] else [])"
    and "received i (send_to_others m j s) = (if member_of i s = In \<and> j \<noteq> i then [m] else [])"
    and "received i (send_without m j s) = (if member_of i s = In \<and> j \<noteq> i then [m] else [])"
  using assms
  by (auto simp: service_inv_def member_of_def send_shared_def send_to_def send_to_others_def send_without_def
      received_map)

lemma svc_exec_member:
  assumes "service_inv s"
  shows "service_inv (snd (svc_exec op s)) \<and> svc_need_snapshot (snd (svc_exec op s)) = svc_need_snapshot s
    \<and> member_step (svc_need_snapshot s) i op (member_of i s)
      = (received i (fst (svc_exec op s)), member_of i (snd (svc_exec op s)))"
  using assms
  by (cases op)
    (simp_all add: snapshot_member sub_member unsub_member send_member on_subscribe_props on_unsubscribe_props)

lemma svc_run_member:
  "service_inv s \<Longrightarrow> received i (svc_run ops s) = member_run (svc_need_snapshot s) i ops (member_of i s)"
proof (induction ops arbitrary: s)
  case (Cons op ops)
  show ?case using svc_exec_member[OF Cons.prems, of op i] Cons.IH[of "snd (svc_exec op s)"]
    by (simp add: split_beta)
qed simp


text \<open>(a snapshot can miss a subscriber).  The snapshot is sent under one lock and the waiting subscribers
  are promoted under a later one.  A connection that subscribes in between is promoted without having
  received the snapshot, and its first message is an ordinary one.\<close>

theorem snapshot_race:
  "let s = on_subscribe 1 (service_new name True);
       snapshot = send_new_subscribes m s;
       s = swap_new_subscribes (on_subscribe 2 s)
   in received 1 (snapshot @ send_shared m' s) = [m, m'] \<and> received 2 (snapshot @ send_shared m' s) = [m']"
  by (simp add: on_subscribe_def service_new_def swap_new_subscribes_def send_new_subscribes_def send_shared_def
      received_def Let_def List.insert_def)

section \<open>Subscriptions of the server\<close>

text \<open>The interface the connections use: whether a service exists, whether a connection is subscribed to it,
  and the call that changes this.\<close>

locale subscriptions =
  fixes inv :: "'h \<Rightarrow> bool"
    and present :: "'h \<Rightarrow> string \<Rightarrow> bool"
    and subed :: "'h \<Rightarrow> string \<Rightarrow> int \<Rightarrow> bool"
    and sub_op :: "string \<Rightarrow> int \<Rightarrow> bool \<Rightarrow> 'h \<Rightarrow> 'h"
  assumes sub_inv: "inv h \<Longrightarrow> inv (sub_op k i b h)"
    and sub_present: "present (sub_op k i b h) k' = present h k'"
    and sub_subed: "inv h \<Longrightarrow> subed (sub_op k i b h) k' i' \<longleftrightarrow>
      (if k' = k \<and> i' = i \<and> present h k then b else subed h k' i')"
begin

lemma fold_sub:
  assumes "inv h"
  shows "inv (fold (\<lambda>k h. case f k of Some b \<Rightarrow> sub_op k i b h | None \<Rightarrow> h) ks h)
    \<and> present (fold (\<lambda>k h. case f k of Some b \<Rightarrow> sub_op k i b h | None \<Rightarrow> h) ks h) = present h
    \<and> (subed (fold (\<lambda>k h. case f k of Some b \<Rightarrow> sub_op k i b h | None \<Rightarrow> h) ks h) k i' \<longleftrightarrow>
        (if i' = i \<and> k \<in> set ks \<and> present h k \<and> f k \<noteq> None then the (f k) else subed h k i'))"
  using assms
proof (induction ks arbitrary: h)
  case (Cons k0 ks)
  show ?case
  proof (cases "f k0")
    case None
    then show ?thesis using Cons by auto
  next
    case (Some b)
    have pr: "present (sub_op k0 i b h) = present h" by (rule ext) (rule sub_present)
    show ?thesis using Cons.IH[OF sub_inv[OF Cons.prems, of k0 i b]] Some
      by (auto simp: pr sub_subed[OF Cons.prems])
  qed
qed simp

lemma sub_same: "inv h \<Longrightarrow> present h k \<Longrightarrow> subed (sub_op k i b h) k i = b"
  by (simp add: sub_subed)

lemma sub_other: "inv h \<Longrightarrow> k' \<noteq> k \<or> i' \<noteq> i \<Longrightarrow> subed (sub_op k i b h) k' i' = subed h k' i'"
  by (auto simp: sub_subed)

end

definition server_inv :: "server \<Rightarrow> bool" where
  "server_inv sv \<longleftrightarrow> distinct (map fst (services sv))
     \<and> list_all (\<lambda>(k, s). svc_name s = k \<and> service_inv s) (services sv)"

definition subscribed :: "server \<Rightarrow> string \<Rightarrow> int \<Rightarrow> bool" where
  "subscribed sv k i = (case map_of (services sv) k of Some s \<Rightarrow> is_subed i s | None \<Rightarrow> False)"

lemma server_inv_lookup: "server_inv sv \<Longrightarrow> map_of (services sv) k = Some s \<Longrightarrow> svc_name s = k \<and> service_inv s"
  by (auto simp: server_inv_def list_all_iff dest!: map_of_SomeD)

lemma list_all_update:
  "distinct (map fst xs) \<Longrightarrow> list_all P xs \<Longrightarrow> P (k, v) \<Longrightarrow> list_all P (AList.update k v xs)"
  by (induction xs) (auto split: if_splits)

lemma server_inv_update:
  "server_inv sv \<Longrightarrow> svc_name s = k \<Longrightarrow> service_inv s \<Longrightarrow> server_inv (sv\<lparr>services := AList.update k s (services sv)\<rparr>)"
  by (simp add: server_inv_def distinct_update list_all_update)

lemma server_inv_subscribe:
  assumes "server_inv sv"
  shows "server_inv (subscribe k i b sv)"
  using assms server_inv_lookup[OF assms, of k]
  by (auto simp: subscribe_def on_subscribe_props on_unsubscribe_props split: option.split
      intro!: server_inv_update)

lemma contains_subscribe: "contains_service k' (subscribe k i b sv) = contains_service k' sv"
  by (auto simp: contains_service_def subscribe_def update_conv' split: option.split)

lemma subscribed_subscribe:
  assumes "server_inv sv"
  shows "subscribed (subscribe k i b sv) k' i' \<longleftrightarrow>
    (if k' = k \<and> i' = i \<and> contains_service k sv then b else subscribed sv k' i')"
  using server_inv_lookup[OF assms, of k]
  by (auto simp: subscribed_def subscribe_def contains_service_def update_conv' on_subscribe_props
      on_unsubscribe_props split: option.split if_splits)

interpretation hub: subscriptions server_inv "\<lambda>sv k. contains_service k sv" subscribed subscribe
  by unfold_locales (rule server_inv_subscribe contains_subscribe subscribed_subscribe; assumption?)+

lemma map_of_map_services:
  "map_of (services (map_services f sv)) k = map_option (f k) (map_of (services sv) k)"
proof -
  have "map_of (map (\<lambda>(k, s). (k, f k s)) xs) k = map_option (f k) (map_of xs k)" for xs :: "(string \<times> service) list"
    by (induction xs) auto
  then show ?thesis by (simp add: map_services_def)
qed

lemma server_inv_map_services:
  "server_inv sv \<Longrightarrow> (\<And>k s. service_inv s \<Longrightarrow> service_inv (f k s) \<and> svc_name (f k s) = svc_name s)
   \<Longrightarrow> server_inv (map_services f sv)"
  by (auto simp: server_inv_def map_services_def list_all_iff o_def case_prod_beta)

lemma services_connections [simp]: "server_inv (sv\<lparr>connections := c\<rparr>) = server_inv sv"
  "subscribed (sv\<lparr>connections := c\<rparr>) = subscribed sv"
  by (simp_all add: server_inv_def subscribed_def fun_eq_iff)

lemma server_inv_add_service:
  "server_inv sv \<Longrightarrow> service_inv s \<Longrightarrow> server_inv (add_service s sv)"
  unfolding add_service_def by (rule server_inv_update) simp_all

lemma ensure_video_service_props:
  assumes "server_inv sv"
  shows "server_inv (ensure_video_service source d sv)"
    and "contains_service k (ensure_video_service source d sv) \<longleftrightarrow>
      k = get_service_name source d \<or> contains_service k sv"
    and "subscribed (ensure_video_service source d sv) k i = subscribed sv k i"
  using assms
  by (auto simp: ensure_video_service_def video_service_new_def contains_service_def subscribed_def add_service_def
      service_new_def update_conv' is_subed_def service_inv_def intro!: server_inv_update split: option.split)

lemma ensure_video_services:
  assumes "server_inv sv"
  shows "server_inv (fold (ensure_video_service source) ds sv)
    \<and> (contains_service k (fold (ensure_video_service source) ds sv) \<longleftrightarrow>
      k \<in> set (map (get_service_name source) ds) \<or> contains_service k sv)
    \<and> subscribed (fold (ensure_video_service source) ds sv) k i = subscribed sv k i"
  using assms by (induction ds arbitrary: sv) (auto simp: ensure_video_service_props)

text \<open>Which video services \<open>capture_displays\<close> changes, and how.\<close>

definition capture_change :: "video_source \<Rightarrow> nat list \<Rightarrow> bool \<Rightarrow> bool \<Rightarrow> string \<Rightarrow> bool option" where
  "capture_change source displays incl excl k =
     (if \<not> is_video_service_name k then None
      else if k \<in> set (map (get_service_name source) displays) then if incl then Some True else None
      else if excl then Some False else None)"

lemma capture_displays_fold:
  "capture_displays i source ds incl excl sv =
     fold (\<lambda>k sv. case capture_change source ds incl excl k of Some b \<Rightarrow> subscribe k i b sv | None \<Rightarrow> sv)
       (map fst (services sv)) sv"
  unfolding capture_displays_def by (intro fold_cong) (auto simp: capture_change_def)

lemma capture_displays_props:
  assumes "server_inv sv"
  shows "server_inv (capture_displays i source ds incl excl sv)"
    and "contains_service k (capture_displays i source ds incl excl sv) = contains_service k sv"
    and "subscribed (capture_displays i source ds incl excl sv) k j \<longleftrightarrow>
      (case capture_change source ds incl excl k of
         Some b \<Rightarrow> if j = i \<and> contains_service k sv then b else subscribed sv k j
       | None \<Rightarrow> subscribed sv k j)"
  using hub.fold_sub[OF assms, where f = "capture_change source ds incl excl" and i = i
      and ks = "map fst (services sv)" and k = k and i' = j]
  by (auto simp: capture_displays_fold contains_service_def fun_eq_iff map_of_eq_None_iff split: option.split)

lemma video_service_name [simp]: "is_video_service_name (get_service_name source d)"
  by (cases source) (simp_all add: is_video_service_name_def get_service_name_def starts_with_def)

lemma window_focus_not_video [simp]: "\<not> is_video_service_name NAME_WINDOW_FOCUS"
  by (simp add: is_video_service_name_def NAME_WINDOW_FOCUS_def starts_with_def)

lemma subscribed_contains: "subscribed sv k i \<Longrightarrow> contains_service k sv"
  by (auto simp: subscribed_def contains_service_def split: option.splits)

text \<open>(which displays a viewer gets).  A request to add displays adds exactly those, a request to set the
  displays leaves exactly those, creating their services when needed; other connections and other services
  keep their subscriptions.  A request to remove displays keeps the displays it lists and drops all others.\<close>

theorem conn_capture_displays_exact:
  assumes "server_inv sv" and "conn_capture_displays i source follow add sub set1 sv = (multi, sv')"
    and "is_video_service_name k"
  shows "subscribed sv' k j \<longleftrightarrow>
    (if j \<noteq> i then subscribed sv k j
     else if add \<noteq> [] then k \<in> set (map (get_service_name source) add) \<or> subscribed sv k i
     else if sub \<noteq> [] then k \<in> set (map (get_service_name source) sub) \<and> subscribed sv k i
     else k \<in> set (map (get_service_name source) set1))"
proof -
  define sv1 where "sv1 = fold (ensure_video_service source) set1 (fold (ensure_video_service source) add sv)"
  have inv1: "server_inv sv1" using assms(1) by (simp add: sv1_def ensure_video_services)
  have c1: "contains_service k sv1 \<longleftrightarrow> k \<in> get_service_name source ` (set add \<union> set set1) \<or> contains_service k sv"
    and s1: "subscribed sv1 k j = subscribed sv k j" for j
    using assms(1) by (auto simp: sv1_def ensure_video_services)
  define sv2 where "sv2 = (if add \<noteq> [] then capture_displays i source add True False sv1
      else if sub \<noteq> [] then capture_displays i source sub False True sv1
      else capture_displays i source set1 True True sv1)"
  have "server_inv sv2" using inv1 by (simp add: sv2_def capture_displays_props)
  moreover have "sv' = (if follow then subscribe NAME_WINDOW_FOCUS i (\<not> multi) sv2 else sv2)"
    using assms(2) by (auto simp: conn_capture_displays_def Let_def sv1_def sv2_def split: if_splits)
  ultimately have "subscribed sv' k j = subscribed sv2 k j"
    using assms(3) by (auto simp: subscribed_subscribe)
  also have "\<dots> \<longleftrightarrow> (if j \<noteq> i then subscribed sv k j
     else if add \<noteq> [] then k \<in> set (map (get_service_name source) add) \<or> subscribed sv k i
     else if sub \<noteq> [] then k \<in> set (map (get_service_name source) sub) \<and> subscribed sv k i
     else k \<in> set (map (get_service_name source) set1))"
    using assms(3) subscribed_contains[of sv k i]
    by (auto simp: sv2_def capture_displays_props[OF inv1] capture_change_def c1 s1)
  finally show ?thesis .
qed

theorem conn_capture_displays_exact_witness:
  "let sv = snd (conn_capture_displays 5 Monitor False [] [] [0, 1] (server_new 1000 False False True False));
       sv' = snd (conn_capture_displays 5 Monitor False [] [1] [] sv)
   in subscribed sv ''monitor0'' 5 \<and> subscribed sv ''monitor1'' 5
     \<and> \<not> subscribed sv' ''monitor0'' 5 \<and> subscribed sv' ''monitor1'' 5"
proof -
  define s0 where "s0 = server_new 1000 False False True False"
  define s1 where "s1 = snd (conn_capture_displays 5 Monitor False [] [] [0, 1] s0)"
  have n: "get_service_name Monitor 0 = ''monitor0''" "get_service_name Monitor 1 = ''monitor1''"
    "is_video_service_name ''monitor0''" "is_video_service_name ''monitor1''" "server_inv s0" "server_inv s1"
    unfolding s0_def s1_def by code_simp+
  note a = conn_capture_displays_exact[where sv = s0 and i = 5 and source = Monitor and follow = False and add = "[]"
      and sub = "[]" and ?set1.0 = "[0, 1]" and j = 5, OF _ surjective_pairing]
  note b = conn_capture_displays_exact[where sv = s1 and i = 5 and source = Monitor and follow = False and add = "[]"
      and sub = "[1]" and ?set1.0 = "[]" and j = 5, OF _ surjective_pairing]
  show ?thesis
    using a[where k = "''monitor0''"] a[where k = "''monitor1''"] b[where k = "''monitor0''"] b[where k = "''monitor1''"] n
    unfolding Let_def s0_def [symmetric] s1_def [symmetric] by simp
qed

text \<open>The calls made on the server by its connections and by the service threads.\<close>

datatype hub_op =
    HSubscribe string int bool | HAdd nat int "string list" | HAddCamera bool int | HRemove int
  | HCapture int video_source bool "nat list" "nat list" "nat list"
  | HSwitch int video_source nat bool nat nat
  | HPrimary nat | HPrimaryCamera bool | HOption "(video_source \<times> nat) option" string string
  | HPromote string | HNewId

fun hub_exec :: "hub_op \<Rightarrow> server \<Rightarrow> server" where
  "hub_exec (HSubscribe k i b) sv = subscribe k i b sv"
| "hub_exec (HAdd primary i noperms) sv = add_connection primary i noperms sv"
| "hub_exec (HAddCamera exists i) sv = add_camera_connection exists i sv"
| "hub_exec (HRemove i) sv = remove_connection i sv"
| "hub_exec (HCapture i source follow add sub set1) sv = snd (conn_capture_displays i source follow add sub set1 sv)"
| "hub_exec (HSwitch i source primary multi old_idx idx) sv = snd (switch_display_to i source primary multi old_idx idx sv)"
| "hub_exec (HPrimary primary) sv = try_add_primay_video_service primary sv"
| "hub_exec (HPrimaryCamera exists) sv = try_add_primary_camera_service exists sv"
| "hub_exec (HOption display opt val) sv = set_video_service_opt display opt val sv"
| "hub_exec (HPromote name) sv = map_services (\<lambda>k s. if k = name then swap_new_subscribes s else s) sv"
| "hub_exec HNewId sv = snd (get_new_id sv)"

lemma service_inv_swap: "service_inv s \<Longrightarrow> service_inv (swap_new_subscribes s)"
  using fold_insert_distinct[of "svc_subscribes s" "svc_new_subscribes s"]
  by (simp add: service_inv_def swap_new_subscribes_def)

lemma svc_name_swap: "svc_name (swap_new_subscribes s) = svc_name s"
  by (simp add: swap_new_subscribes_def)

lemma service_inv_set_option: "service_inv s \<Longrightarrow> service_inv (snd (set_option opt val s))"
  by (simp add: service_inv_def set_option_def)

lemma svc_name_set_option: "svc_name (snd (set_option opt val s)) = svc_name s"
  by (simp add: set_option_def)

lemma server_inv_conn_capture:
  "server_inv sv \<Longrightarrow> server_inv (snd (conn_capture_displays i source follow add sub set1 sv))"
  by (simp add: conn_capture_displays_def Let_def ensure_video_services capture_displays_props server_inv_subscribe)

lemma server_inv_exec: "server_inv sv \<Longrightarrow> server_inv (hub_exec op sv)"
proof (cases op)
  case HNewId
  assume "server_inv sv"
  then show ?thesis by (simp add: HNewId get_new_id_def Let_def server_inv_def)
next
  case (HPromote name)
  assume "server_inv sv"
  then show ?thesis
    by (auto simp: HPromote service_inv_swap svc_name_swap intro!: server_inv_map_services)
qed (auto simp: server_inv_subscribe server_inv_conn_capture add_connection_def add_camera_connection_def
    remove_connection_def switch_display_to_def try_add_primay_video_service_def try_add_primary_camera_service_def
    set_video_service_opt_def service_inv_set_option ensure_video_service_props video_service_new_def Let_def
    on_subscribe_props on_unsubscribe_props svc_name_set_option
    intro!: server_inv_map_services server_inv_add_service)

lemma server_inv_run: "server_inv sv \<Longrightarrow> server_inv (fold hub_exec ops sv)"
  by (induction ops arbitrary: sv) (simp_all add: server_inv_exec)

lemma server_inv_new: "server_inv (server_new first_id file_copy embedded focus printer)"
proof -
  have "server_inv \<lparr>connections = [], services = [], id_count = first_id\<rparr>" by (simp add: server_inv_def)
  then show ?thesis by (simp add: server_new_def Let_def server_inv_add_service)
qed

text \<open>(a closed connection receives nothing more).  Whatever subscriptions, display switches and
  promotions came before, once a connection is removed from the server it is subscribed to no service, not
  even as one that waits for a snapshot, and every other connection keeps its subscriptions.\<close>

theorem remove_connection_complete:
  "let sv = fold hub_exec ops (server_new first_id file_copy embedded focus printer);
       sv' = remove_connection i sv
   in subscribed sv' k j = (j \<noteq> i \<and> subscribed sv k j) \<and> i \<notin> set (connections sv')"
proof -
  define sv where "sv = fold hub_exec ops (server_new first_id file_copy embedded focus printer)"
  have inv: "server_inv sv" by (simp add: sv_def server_inv_run server_inv_new)
  have "subscribed (remove_connection i sv) k j = (j \<noteq> i \<and> subscribed sv k j)"
    using server_inv_lookup[OF inv, of k]
    by (auto simp: remove_connection_def Let_def subscribed_def map_of_map_services on_unsubscribe_props
        split: option.splits)
  then show ?thesis by (simp add: sv_def [symmetric] remove_connection_def Let_def)
qed

end
