(* ===== verification/Privacy_Mode.thy ===== *)
theory Privacy_Mode
  imports Conn_Types
begin

text \<open>
  Privacy mode of the controlled side: the registry \<^verbatim>\<open>client/src/privacy_mode.rs\<close>, its implementations for
  macOS (\<^verbatim>\<open>privacy_mode/macos.rs\<close>) and for Windows with a covering window (\<^verbatim>\<open>win_topmost_window.rs\<close>), and
  the requests of a connection (\<^verbatim>\<open>turn_on_privacy\<close> and \<^verbatim>\<open>turn_off_privacy\<close> in \<^verbatim>\<open>server/connection.rs\<close>).  The
  trait object is a record of operations over the implementation's state, as dynamic dispatch has it; every
  operation takes the outcomes of the operating-system calls it makes (\<open>'e\<close>).  Errors are their texts, without
  what the system adds to them.  Hiding the windows and unhooking the input after a failed start leaves the
  state as it is.  The virtual-display implementation, which alone works asynchronously, is not modelled.
\<close>

definition INVALID_PRIVACY_MODE_CONN_ID :: int where "INVALID_PRIVACY_MODE_CONN_ID = 0"
definition OCCUPIED :: string where "OCCUPIED = ''Privacy occupied by another one.''"
definition TURN_OFF_OTHER_ID :: string where
  "TURN_OFF_OTHER_ID = ''Failed to turn off privacy mode that belongs to someone else.''"

text \<open>The default methods of the trait, given the connection that holds privacy mode.\<close>

definition check_on_conn_id :: "int \<Rightarrow> int \<Rightarrow> string + bool" where
  "check_on_conn_id pre_conn_id conn_id =
     (if pre_conn_id = conn_id then Inr True
      else if pre_conn_id \<noteq> INVALID_PRIVACY_MODE_CONN_ID then Inl OCCUPIED
      else Inr False)"

definition check_off_conn_id :: "int \<Rightarrow> int \<Rightarrow> string + unit" where
  "check_off_conn_id pre_conn_id conn_id =
     (if pre_conn_id \<noteq> INVALID_PRIVACY_MODE_CONN_ID \<and> conn_id \<noteq> INVALID_PRIVACY_MODE_CONN_ID
         \<and> pre_conn_id \<noteq> conn_id
      then Inl TURN_OFF_OTHER_ID else Inr ())"

record ('e, 's) privacy_ops =
  po_clear :: "'e \<Rightarrow> 's \<Rightarrow> 's"
  po_turn_on :: "'e \<Rightarrow> int \<Rightarrow> 's \<Rightarrow> (string + bool) \<times> 's"
  po_turn_off :: "'e \<Rightarrow> int \<Rightarrow> 's \<Rightarrow> (string + unit) \<times> 's"
  po_pre_conn_id :: "'s \<Rightarrow> int"
  po_impl_key :: "'s \<Rightarrow> string"

section \<open>macOS\<close>

record mac_impl =
  mac_key :: string
  mac_conn_id :: int

definition mac_new :: "string \<Rightarrow> mac_impl" where
  "mac_new key = \<lparr>mac_key = key, mac_conn_id = 0\<rparr>"

text \<open>The outcome of \<^verbatim>\<open>MacSetPrivacyMode\<close> for each argument.\<close>

type_synonym mac_env = "bool \<Rightarrow> bool"

definition mac_clear :: "mac_env \<Rightarrow> mac_impl \<Rightarrow> mac_impl" where
  "mac_clear set_privacy s = s\<lparr>mac_conn_id := 0\<rparr>"

definition mac_turn_on :: "mac_env \<Rightarrow> int \<Rightarrow> mac_impl \<Rightarrow> (string + bool) \<times> mac_impl" where
  "mac_turn_on set_privacy conn_id s =
     (case check_on_conn_id (mac_conn_id s) conn_id of
        Inl e \<Rightarrow> (Inl e, s)
      | Inr True \<Rightarrow> (Inr True, s)
      | Inr False \<Rightarrow>
          if \<not> set_privacy True then (Inl ''Failed to turn on privacy mode'', s)
          else (Inr True, s\<lparr>mac_conn_id := conn_id\<rparr>))"

definition mac_turn_off :: "mac_env \<Rightarrow> int \<Rightarrow> mac_impl \<Rightarrow> (string + unit) \<times> mac_impl" where
  "mac_turn_off set_privacy conn_id s =
     (case check_off_conn_id (mac_conn_id s) conn_id of
        Inl e \<Rightarrow> (Inl e, s)
      | Inr _ \<Rightarrow>
          if \<not> set_privacy False then (Inl ''Failed to turn off privacy mode'', s)
          else (Inr (), s\<lparr>mac_conn_id := 0\<rparr>))"

definition mac_ops :: "(mac_env, mac_impl) privacy_ops" where
  "mac_ops = \<lparr>po_clear = mac_clear, po_turn_on = mac_turn_on, po_turn_off = mac_turn_off,
     po_pre_conn_id = mac_conn_id, po_impl_key = mac_key\<rparr>"

section \<open>Windows, covering window\<close>

record topmost_impl =
  tm_key :: string
  tm_conn_id :: int
  tm_process :: bool
  tm_hwnd :: nat

definition topmost_new :: "string \<Rightarrow> topmost_impl" where
  "topmost_new key = \<lparr>tm_key = key, tm_conn_id = INVALID_PRIVACY_MODE_CONN_ID, tm_process = False, tm_hwnd = 0\<rparr>"

text \<open>What the system answers: whether the executable and its directory are known and the library is there,
  whether a window is ready already, the steps of starting the broker, the windows found, hooking and
  unhooking the input, showing and hiding the windows.\<close>

record topmost_env =
  te_current_exe :: bool
  te_parent :: bool
  te_dll :: bool
  te_ready :: bool
  te_token :: bool
  te_create :: bool
  te_inject :: "string + unit"
  te_resume :: bool
  te_started :: "string + unit"
  te_windows :: "string + nat list"
  te_hook :: "string + unit"
  te_show :: "string + unit"
  te_visible :: "string + nat list"
  te_unhook :: "string + unit"
  te_find :: "string + nat list"
  te_hide :: "string + unit"

definition topmost_stop :: "topmost_impl \<Rightarrow> topmost_impl" where
  "topmost_stop s = s\<lparr>tm_process := False\<rparr>"

definition topmost_start :: "topmost_env \<Rightarrow> topmost_impl \<Rightarrow> (string + unit) \<times> topmost_impl" where
  "topmost_start e s =
     (if tm_process s then (Inr (), s)
      else if \<not> te_current_exe e then (Inl ''current_exe'', s)
      else if \<not> te_parent e then (Inl ''Cannot get parent of current exe file'', s)
      else if \<not> te_dll e then (Inl ''Failed to find required file'', s)
      else if te_ready e then (Inr (), s)
      else if \<not> te_token e then (Inl ''Failed to get token of current user'', s)
      else if \<not> te_create e then (Inl ''Failed to create privacy window process'', s)
      else (case te_inject e of
              Inl m \<Rightarrow> (Inl m, s)
            | Inr _ \<Rightarrow>
                if \<not> te_resume e then (Inl ''Failed to create privacy window process'', s)
                else (case te_started e of
                        Inl m \<Rightarrow> (Inl m, topmost_stop s)
                      | Inr _ \<Rightarrow> (Inr (), s\<lparr>tm_process := True\<rparr>))))"

definition show_privacy_windows :: "topmost_env \<Rightarrow> int \<Rightarrow> topmost_impl \<Rightarrow> (string + unit) \<times> topmost_impl" where
  "show_privacy_windows e conn_id s =
     (case te_windows e of
        Inl m \<Rightarrow> (Inl m, s)
      | Inr [] \<Rightarrow> (Inl ''No privacy window created'', s)
      | Inr hwnds \<Rightarrow>
          (case te_hook e of
             Inl m \<Rightarrow> (Inl m, s)
           | Inr _ \<Rightarrow>
               (case te_show e of
                  Inl m \<Rightarrow> (Inl m, s)
                | Inr _ \<Rightarrow>
                    (case te_visible e of
                       Inl m \<Rightarrow> (Inl m, s)
                     | Inr [] \<Rightarrow> (Inl ''No visible privacy window created'', s)
                     | Inr (hwnd # _) \<Rightarrow> (Inr (), s\<lparr>tm_conn_id := conn_id, tm_hwnd := hwnd\<rparr>)))))"

definition topmost_turn_on :: "topmost_env \<Rightarrow> int \<Rightarrow> topmost_impl \<Rightarrow> (string + bool) \<times> topmost_impl" where
  "topmost_turn_on e conn_id s =
     (case check_on_conn_id (tm_conn_id s) conn_id of
        Inl m \<Rightarrow> (Inl m, s)
      | Inr True \<Rightarrow> (Inr True, s)
      | Inr False \<Rightarrow>
          if \<not> te_current_exe e then (Inl ''current_exe'', s)
          else if \<not> te_parent e then (Inl ''Invalid exe parent'', s)
          else if \<not> te_dll e then (Inr False, s)
          else (case (if \<not> tm_process s then topmost_start e s else (Inr (), s)) of
                  (Inl m, s) \<Rightarrow> (Inl m, s)
                | (Inr _, s) \<Rightarrow>
                    (case show_privacy_windows e conn_id s of
                       (Inl m, s) \<Rightarrow> (Inl m, topmost_stop s)
                     | (Inr _, s) \<Rightarrow> (Inr True, s))))"

definition topmost_turn_off :: "topmost_env \<Rightarrow> int \<Rightarrow> topmost_impl \<Rightarrow> (string + unit) \<times> topmost_impl" where
  "topmost_turn_off e conn_id s =
     (case check_off_conn_id (tm_conn_id s) conn_id of
        Inl m \<Rightarrow> (Inl m, s)
      | Inr _ \<Rightarrow>
          (case te_unhook e of
             Inl m \<Rightarrow> (Inl m, s)
           | Inr _ \<Rightarrow>
               (case te_find e of
                  Inl m \<Rightarrow> (Inl m, s)
                | Inr _ \<Rightarrow>
                    let s = (case te_hide e of Inl _ \<Rightarrow> topmost_stop s | Inr _ \<Rightarrow> s);
                        s = (if tm_conn_id s \<noteq> INVALID_PRIVACY_MODE_CONN_ID
                             then s\<lparr>tm_conn_id := INVALID_PRIVACY_MODE_CONN_ID, tm_hwnd := 0\<rparr> else s)
                    in (te_hide e, s))))"

definition topmost_clear :: "topmost_env \<Rightarrow> topmost_impl \<Rightarrow> topmost_impl" where
  "topmost_clear e s = snd (topmost_turn_off e (tm_conn_id s) s)"

definition topmost_ops :: "(topmost_env, topmost_impl) privacy_ops" where
  "topmost_ops = \<lparr>po_clear = topmost_clear, po_turn_on = topmost_turn_on, po_turn_off = topmost_turn_off,
     po_pre_conn_id = tm_conn_id, po_impl_key = tm_key\<rparr>"

section \<open>The registry\<close>

text \<open>The keys of the supported implementations, the configured and the default one, and the constructors.\<close>

record 's privacy_reg =
  pr_supported :: "string list"
  pr_configured :: string
  pr_default :: string
  pr_creator :: "string \<rightharpoonup> 's"

definition PRIVACY_MODE_IMPL_WIN_MAG :: string where "PRIVACY_MODE_IMPL_WIN_MAG = ''privacy_mode_impl_mag''"
definition PRIVACY_MODE_IMPL_WIN_EXCLUDE_FROM_CAPTURE :: string where
  "PRIVACY_MODE_IMPL_WIN_EXCLUDE_FROM_CAPTURE = ''privacy_mode_impl_exclude_from_capture''"
definition PRIVACY_MODE_IMPL_WIN_VIRTUAL_DISPLAY :: string where
  "PRIVACY_MODE_IMPL_WIN_VIRTUAL_DISPLAY = ''privacy_mode_impl_virtual_display''"

definition default_privacy_mode_impl_windows :: "bool \<Rightarrow> bool \<Rightarrow> bool \<Rightarrow> string" where
  "default_privacy_mode_impl_windows exclude_supported mag_supported installed =
     (if exclude_supported then PRIVACY_MODE_IMPL_WIN_EXCLUDE_FROM_CAPTURE
      else if mag_supported then PRIVACY_MODE_IMPL_WIN_MAG
      else if installed then PRIVACY_MODE_IMPL_WIN_VIRTUAL_DISPLAY
      else [])"

definition supported_privacy_mode_impl_windows :: "bool \<Rightarrow> bool \<Rightarrow> bool \<Rightarrow> bool \<Rightarrow> string list" where
  "supported_privacy_mode_impl_windows exclude_supported mag_supported installed service_running =
     (if exclude_supported then [PRIVACY_MODE_IMPL_WIN_EXCLUDE_FROM_CAPTURE]
      else if mag_supported then [PRIVACY_MODE_IMPL_WIN_MAG] else [])
     @ (if installed \<and> service_running then [PRIVACY_MODE_IMPL_WIN_VIRTUAL_DISPLAY] else [])"

definition is_privacy_mode_supported :: "'s privacy_reg \<Rightarrow> bool" where
  "is_privacy_mode_supported r \<longleftrightarrow> pr_default r \<noteq> []"

definition privacy_mode_init :: "'s privacy_reg \<Rightarrow> 's option" where
  "privacy_mode_init r =
     pr_creator r (if pr_configured r \<notin> set (pr_supported r) then pr_default r else pr_configured r)"

definition get_supported_impl :: "'s privacy_reg \<Rightarrow> string \<Rightarrow> string" where
  "get_supported_impl r impl_key =
     (if impl_key \<in> set (pr_supported r) then impl_key
      else if pr_configured r \<notin> set (pr_supported r) then pr_default r else pr_configured r)"

definition privacy_switch :: "('e, 's) privacy_ops \<Rightarrow> 's privacy_reg \<Rightarrow> string \<Rightarrow> 's option \<Rightarrow> 's option" where
  "privacy_switch po r impl_key p =
     (if (case p of Some s \<Rightarrow> po_impl_key po s = impl_key | None \<Rightarrow> False) then p
      else (case pr_creator r impl_key of Some s \<Rightarrow> Some s | None \<Rightarrow> p))"

definition privacy_clear :: "('e, 's) privacy_ops \<Rightarrow> 'e \<Rightarrow> 's option \<Rightarrow> 's option" where
  "privacy_clear po e p = map_option (po_clear po e) p"

text \<open>\<^verbatim>\<open>turn_on_privacy_sync\<close> from the point where the implementation is settled.\<close>

definition turn_on_current :: "('e, 's) privacy_ops \<Rightarrow> 'e \<Rightarrow> int \<Rightarrow> 's option \<Rightarrow> (string + bool) option \<times> 's option" where
  "turn_on_current po e conn_id p =
     (case p of
        None \<Rightarrow> (None, None)
      | Some s \<Rightarrow> (case po_turn_on po e conn_id s of (r, s') \<Rightarrow> (Some r, Some s')))"

text \<open>An implementation that is replaced is cleared and dropped; nothing of its state remains.\<close>

definition turn_on_privacy_sync ::
    "('e, 's) privacy_ops \<Rightarrow> 's privacy_reg \<Rightarrow> 'e \<Rightarrow> string \<Rightarrow> int \<Rightarrow> 's option \<Rightarrow> (string + bool) option \<times> 's option" where
  "turn_on_privacy_sync po r e impl_key0 conn_id p =
     (let impl_key = get_supported_impl r impl_key0;
          cur_impl_key = (case p of Some s \<Rightarrow> po_impl_key po s | None \<Rightarrow> []);
          chk = (case p of Some s \<Rightarrow> check_on_conn_id (po_pre_conn_id po s) conn_id | None \<Rightarrow> Inr False)
      in case chk of
           Inl m \<Rightarrow> (Some (Inl m), p)
         | Inr on \<Rightarrow>
             if on \<and> cur_impl_key = impl_key then (Some (Inr True), p)
             else if cur_impl_key \<noteq> impl_key
             then (case pr_creator r impl_key of
                     Some s \<Rightarrow> turn_on_current po e conn_id (Some s)
                   | None \<Rightarrow> (Some (Inl (''Unsupported privacy mode: '' @ impl_key)), p))
             else turn_on_current po e conn_id p)"

definition turn_off_privacy ::
    "('e, 's) privacy_ops \<Rightarrow> 'e \<Rightarrow> int \<Rightarrow> 's option \<Rightarrow> (string + unit) option \<times> 's option" where
  "turn_off_privacy po e conn_id p =
     (case p of
        None \<Rightarrow> (None, None)
      | Some s \<Rightarrow> (case po_turn_off po e conn_id s of (r, s') \<Rightarrow> (Some r, Some s')))"

definition get_cur_impl_key :: "('e, 's) privacy_ops \<Rightarrow> 's option \<Rightarrow> string option" where
  "get_cur_impl_key po p = map_option (po_impl_key po) p"

definition is_current_privacy_mode_impl :: "('e, 's) privacy_ops \<Rightarrow> string \<Rightarrow> 's option \<Rightarrow> bool" where
  "is_current_privacy_mode_impl po impl_key p = (case p of Some s \<Rightarrow> po_impl_key po s = impl_key | None \<Rightarrow> False)"

definition get_privacy_mode_conn_id :: "('e, 's) privacy_ops \<Rightarrow> 's option \<Rightarrow> int option" where
  "get_privacy_mode_conn_id po p = map_option (po_pre_conn_id po) p"

definition is_in_privacy_mode :: "('e, 's) privacy_ops \<Rightarrow> 's option \<Rightarrow> bool" where
  "is_in_privacy_mode po p =
     (case p of Some s \<Rightarrow> po_pre_conn_id po s \<noteq> INVALID_PRIVACY_MODE_CONN_ID | None \<Rightarrow> False)"

text \<open>\<open>capturer\<close> is the outcome of the test capture; only the magnifier needs it, and only on Windows.\<close>

definition check_privacy_mode_err :: "('e, 's) privacy_ops \<Rightarrow> bool \<Rightarrow> string \<Rightarrow> 's option \<Rightarrow> string" where
  "check_privacy_mode_err po windows capturer p =
     (if windows \<and> is_current_privacy_mode_impl po PRIVACY_MODE_IMPL_WIN_MAG p then capturer else [])"

section \<open>Requests of a connection\<close>

definition turn_off_privacy_result_to_msg :: "(string + unit) option \<Rightarrow> privacy_state" where
  "turn_off_privacy_result_to_msg res =
     (case res of Some (Inr _) \<Rightarrow> PrvOffSucceeded | Some (Inl _) \<Rightarrow> PrvOffFailed | None \<Rightarrow> PrvOffFailed)"

definition turn_off_privacy_to_msg ::
    "('e, 's) privacy_ops \<Rightarrow> 'e \<Rightarrow> int \<Rightarrow> 's option \<Rightarrow> privacy_state \<times> 's option" where
  "turn_off_privacy_to_msg po e conn_id p =
     (case turn_off_privacy po e conn_id p of (res, p') \<Rightarrow> (turn_off_privacy_result_to_msg res, p'))"

definition conn_turn_off_privacy ::
    "('e, 's) privacy_ops \<Rightarrow> 's privacy_reg \<Rightarrow> 'e \<Rightarrow> int \<Rightarrow> 's option \<Rightarrow> conn_effect list \<times> 's option" where
  "conn_turn_off_privacy po r e conn_id p =
     (if \<not> is_privacy_mode_supported r then ([PrivacyMessage PrvNotSupported], p)
      else case turn_off_privacy_to_msg po e conn_id p of (m, p') \<Rightarrow> ([PrivacyMessage m], p'))"

text \<open>\<open>denied\<close>: the connection is not an authorised remote session or lacks the permission.  \<open>e\<close> and \<open>e'\<close> are the
  outcomes while turning on and while turning off again.\<close>

definition conn_turn_on_privacy ::
    "('e, 's) privacy_ops \<Rightarrow> 's privacy_reg \<Rightarrow> bool \<Rightarrow> string \<Rightarrow> 'e \<Rightarrow> 'e \<Rightarrow> bool \<Rightarrow> string \<Rightarrow> int \<Rightarrow> 's option
       \<Rightarrow> conn_effect list \<times> 's option" where
  "conn_turn_on_privacy po r windows capturer e e' denied impl_key conn_id p =
     (if denied then ([PrivacyMessage PrvOnFailedDenied], p)
      else if \<not> is_privacy_mode_supported r then ([PrivacyMessage PrvNotSupported], p)
      else
        let off_msg = (if is_in_privacy_mode po p
               then (case get_cur_impl_key po p of
                       Some k \<Rightarrow> if \<not> is_current_privacy_mode_impl po k p then [PrivacyMessage PrvOffSucceeded] else []
                     | None \<Rightarrow> [])
               else [])
        in case turn_on_privacy_sync po r e impl_key conn_id p of
             (Some (Inr True), p) \<Rightarrow>
               if check_privacy_mode_err po windows capturer p = [] then (off_msg @ [PrivacyMessage PrvOnSucceeded], p)
               else (off_msg @ [PrivacyMessage PrvOnFailed], snd (turn_off_privacy_to_msg po e' conn_id p))
           | (Some (Inr False), p) \<Rightarrow> (off_msg @ [PrivacyMessage PrvOnFailedPlugin], p)
           | (Some (Inl _), p) \<Rightarrow>
               (off_msg @ [PrivacyMessage PrvOnFailed],
                if is_in_privacy_mode po p then snd (turn_off_privacy_to_msg po e' INVALID_PRIVACY_MODE_CONN_ID p) else p)
           | (None, p) \<Rightarrow> (off_msg @ [PrivacyMessage PrvOffFailed], p))"

section \<open>Properties\<close>

text \<open>What the registry relies on: turning on succeeds only for a free or own privacy mode and then records the
  connection; a failure changes nobody's ownership; turning off is refused to other connections, and
  otherwise frees it when it succeeds.\<close>

locale privacy_provider =
  fixes po :: "('e, 's) privacy_ops"
  assumes on_other: "po_pre_conn_id po s \<noteq> 0 \<Longrightarrow> po_pre_conn_id po s \<noteq> c \<Longrightarrow> po_turn_on po e c s = (Inl OCCUPIED, s)"
    and on_done: "po_turn_on po e c s = (Inr True, s') \<Longrightarrow> po_pre_conn_id po s' = c"
    and on_failed: "po_turn_on po e c s = (r, s') \<Longrightarrow> r \<noteq> Inr True \<Longrightarrow> po_pre_conn_id po s' = po_pre_conn_id po s"
    and off_other: "po_pre_conn_id po s \<noteq> 0 \<Longrightarrow> c \<noteq> 0 \<Longrightarrow> po_pre_conn_id po s \<noteq> c
      \<Longrightarrow> po_turn_off po e c s = (Inl TURN_OFF_OTHER_ID, s)"
    and off_done: "po_turn_off po e c s = (Inr (), s') \<Longrightarrow> po_pre_conn_id po s' = 0"
begin

lemma sync_other:
  "po_pre_conn_id po s \<noteq> 0 \<Longrightarrow> po_pre_conn_id po s \<noteq> c \<Longrightarrow>
   turn_on_privacy_sync po r e key c (Some s) = (Some (Inl OCCUPIED), Some s)"
  by (simp add: turn_on_privacy_sync_def check_on_conn_id_def INVALID_PRIVACY_MODE_CONN_ID_def)

lemma turn_off_other:
  "po_pre_conn_id po s \<noteq> 0 \<Longrightarrow> c \<noteq> 0 \<Longrightarrow> po_pre_conn_id po s \<noteq> c \<Longrightarrow>
   turn_off_privacy po e c (Some s) = (Some (Inl TURN_OFF_OTHER_ID), Some s)"
  by (simp add: turn_off_privacy_def off_other)

lemma sync_done:
  assumes "turn_on_privacy_sync po r e key c p = (Some (Inr True), p')"
  shows "get_privacy_mode_conn_id po p' = Some c"
  using assms
  by (auto simp: turn_on_privacy_sync_def turn_on_current_def get_privacy_mode_conn_id_def check_on_conn_id_def
      INVALID_PRIVACY_MODE_CONN_ID_def Let_def split: option.splits sum.splits if_splits prod.splits dest: on_done)

lemma request_done:
  assumes "conn_turn_on_privacy po r windows capturer e e' denied key c p = (ms, p')"
    and "PrivacyMessage PrvOnSucceeded \<in> set ms"
  shows "\<not> denied \<and> get_privacy_mode_conn_id po p' = Some c
    \<and> (is_in_privacy_mode po p \<longrightarrow> get_privacy_mode_conn_id po p = Some c)"
proof -
  obtain res q where t: "turn_on_privacy_sync po r e key c p = (res, q)"
    by (cases "turn_on_privacy_sync po r e key c p")
  have "\<not> denied" and res: "res = Some (Inr True)" and q: "p' = q"
    using assms t
    by (auto simp: conn_turn_on_privacy_def Let_def split: if_splits option.splits sum.splits bool.splits)
  moreover have "get_privacy_mode_conn_id po q = Some c" using t res by (auto dest: sync_done)
  moreover have "get_privacy_mode_conn_id po p = Some c" if "is_in_privacy_mode po p"
  proof (cases p)
    case (Some s)
    then show ?thesis
      using that t res sync_other[of s c r e key]
      by (auto simp: is_in_privacy_mode_def get_privacy_mode_conn_id_def INVALID_PRIVACY_MODE_CONN_ID_def)
  qed (use that in \<open>simp add: is_in_privacy_mode_def\<close>)
  ultimately show ?thesis by simp
qed

lemma request_stolen:
  assumes "po_pre_conn_id po s \<noteq> 0" and "po_pre_conn_id po s \<noteq> c" and "is_privacy_mode_supported r"
    and "po_turn_off po e' 0 s = (Inr (), s')"
  shows "conn_turn_on_privacy po r windows capturer e e' False key c (Some s) = ([PrivacyMessage PrvOnFailed], Some s')
    \<and> \<not> is_in_privacy_mode po (Some s')"
  using assms off_done[OF assms(4)]
  by (simp add: conn_turn_on_privacy_def sync_other is_in_privacy_mode_def INVALID_PRIVACY_MODE_CONN_ID_def Let_def
      get_cur_impl_key_def is_current_privacy_mode_impl_def turn_off_privacy_to_msg_def turn_off_privacy_def)

end

interpretation mac: privacy_provider mac_ops
  by unfold_locales
    (auto simp: mac_ops_def mac_turn_on_def mac_turn_off_def check_on_conn_id_def check_off_conn_id_def
      INVALID_PRIVACY_MODE_CONN_ID_def split: if_splits sum.splits bool.splits)

lemmas topmost_defs = topmost_ops_def topmost_turn_on_def topmost_turn_off_def topmost_start_def topmost_stop_def
  show_privacy_windows_def check_on_conn_id_def check_off_conn_id_def INVALID_PRIVACY_MODE_CONN_ID_def

interpretation topmost: privacy_provider topmost_ops
  by unfold_locales
    (auto simp: topmost_defs Let_def split: if_splits sum.splits bool.splits list.splits prod.splits)


text \<open>\<^bold>\<open>C37\<close> (a refused request ends the owner's privacy mode).  When another connection owns privacy mode, a
  request to turn it on is refused as occupied, and the clean-up after the refusal turns the owner's privacy
  mode off, although an explicit request to turn it off would have been refused.\<close>

theorem privacy_mode_stolen:
  assumes "tm_conn_id s \<noteq> 0" and "tm_conn_id s \<noteq> c" and "c \<noteq> 0" and "is_privacy_mode_supported r"
    and "te_unhook e' = Inr ()" and "te_find e' = Inr hwnds" and "te_hide e' = Inr ()"
  shows "turn_off_privacy topmost_ops e' c (Some s) = (Some (Inl TURN_OFF_OTHER_ID), Some s)
    \<and> conn_turn_on_privacy topmost_ops r windows capturer e e' False key c (Some s)
      = ([PrivacyMessage PrvOnFailed], Some (s\<lparr>tm_conn_id := 0, tm_hwnd := 0\<rparr>))"
proof -
  have pre: "po_pre_conn_id topmost_ops s = tm_conn_id s" by (simp add: topmost_ops_def)
  have off: "po_turn_off topmost_ops e' 0 s = (Inr (), s\<lparr>tm_conn_id := 0, tm_hwnd := 0\<rparr>)"
    using assms by (simp add: topmost_defs)
  show ?thesis
    using topmost.turn_off_other[of s c e'] topmost.request_stolen[OF _ _ assms(4) off, of c windows capturer e key]
      assms(1-3)
    by (simp add: pre)
qed

definition sample_topmost :: topmost_env where
  "sample_topmost = \<lparr>te_current_exe = True, te_parent = True, te_dll = True, te_ready = True, te_token = True,
     te_create = True, te_inject = Inr (), te_resume = True, te_started = Inr (), te_windows = Inr [7],
     te_hook = Inr (), te_show = Inr (), te_visible = Inr [7], te_unhook = Inr (), te_find = Inr [7], te_hide = Inr ()\<rparr>"

definition sample_registry :: "topmost_impl privacy_reg" where
  "sample_registry = \<lparr>pr_supported = [PRIVACY_MODE_IMPL_WIN_EXCLUDE_FROM_CAPTURE], pr_configured = [],
     pr_default = PRIVACY_MODE_IMPL_WIN_EXCLUDE_FROM_CAPTURE,
     pr_creator = [PRIVACY_MODE_IMPL_WIN_EXCLUDE_FROM_CAPTURE \<mapsto>
       topmost_new PRIVACY_MODE_IMPL_WIN_EXCLUDE_FROM_CAPTURE]\<rparr>"


theorem privacy_mode_stolen_witness:
  "conn_turn_on_privacy topmost_ops sample_registry True [] sample_topmost sample_topmost False [] 5
     (Some \<lparr>tm_key = PRIVACY_MODE_IMPL_WIN_EXCLUDE_FROM_CAPTURE, tm_conn_id = 4, tm_process = False, tm_hwnd = 7\<rparr>)
   = ([PrivacyMessage PrvOnFailed],
      Some \<lparr>tm_key = PRIVACY_MODE_IMPL_WIN_EXCLUDE_FROM_CAPTURE, tm_conn_id = 0, tm_process = False, tm_hwnd = 0\<rparr>)"
  using privacy_mode_stolen[of "\<lparr>tm_key = PRIVACY_MODE_IMPL_WIN_EXCLUDE_FROM_CAPTURE, tm_conn_id = 4,
      tm_process = False, tm_hwnd = 7\<rparr>" 5 sample_registry sample_topmost "[7]" True "[]" sample_topmost "[]"]
  by (simp add: sample_topmost_def is_privacy_mode_supported_def sample_registry_def
      PRIVACY_MODE_IMPL_WIN_EXCLUDE_FROM_CAPTURE_def)

end
