(* ===== verification/Conn_State.thy ===== *)
theory Conn_State
  imports Session_Scope Conn_Sessions Nestlink_Auth Service_Hub Privacy_Mode
begin

text \<open>
  A connection of the controlled side (\<^verbatim>\<open>Connection\<close> in \<^verbatim>\<open>client/src/server/connection.rs\<close>): its state, the
  login request it answers, its permissions, and how it is opened and closed.  Channels and handles appear as
  whether they are there; what goes through them is the list of effects.  The state a handler works on is the
  connection, the process-wide tables of \<open>Conn_Sessions\<close> and the effects so far.
\<close>

section \<open>The login request\<close>

text \<open>The union of the request: file transfer with directory and hidden files, camera, terminal with its service,
  port forward with host and port.\<close>

datatype login_union =
    LoginFileTransfer string bool | LoginViewCamera | LoginTerminal string | LoginPortForward string int

record 'd login_request = login_fields +
  lr_username :: string
  lr_password :: "u8 list"
  lr_my_name :: string
  lr_my_platform :: string
  lr_version :: string
  lr_avatar :: string
  lr_option :: "'d option_message option"
  lr_video_ack_required :: bool
  lr_os_login :: "(string \<times> string) option"
  lr_union :: "login_union option"

definition login_request_default :: "'d login_request" where
  "login_request_default = \<lparr>lf_permit = None, lf_my_id = [], lf_session_id = 0, lr_username = [], lr_password = [],
     lr_my_name = [], lr_my_platform = [], lr_version = [], lr_avatar = [], lr_option = None,
     lr_video_ack_required = False, lr_os_login = None, lr_union = None\<rparr>"

text \<open>An absent message field reads as its default.\<close>

definition os_username :: "('d, 'z) login_request_scheme \<Rightarrow> string" where
  "os_username lr = (case lr_os_login lr of Some (u, _) \<Rightarrow> u | None \<Rightarrow> [])"

definition os_password :: "('d, 'z) login_request_scheme \<Rightarrow> string" where
  "os_password lr = (case lr_os_login lr of Some (_, p) \<Rightarrow> p | None \<Rightarrow> [])"

section \<open>The connection\<close>

datatype platform = Windows | Linux | MacOS

datatype terminal_user_token = SelfUser | CurrentLogonUser nat

fun to_terminal_service_token :: "terminal_user_token \<Rightarrow> nat option" where
  "to_terminal_service_token SelfUser = None"
| "to_terminal_service_token (CurrentLogonUser t) = Some t"

record 'd connection = scope_conn +
  c_id :: int
  c_nestlink_permit :: "session_guard option"
  c_homedesk_session :: bool
  c_display_idx :: nat
  c_hash :: hash
  c_file_transfer :: "(string \<times> bool) option"
  c_view_camera :: bool
  c_terminal :: bool
  c_port_forward_socket :: bool
  c_port_forward_address :: string
  c_authorized :: bool
  c_keyboard :: bool
  c_clipboard :: bool
  c_audio :: bool
  c_file :: bool
  c_restart :: bool
  c_recording :: bool
  c_block_input :: bool
  c_privacy_mode :: bool
  c_control_permissions :: "u64 option"
  c_last_test_delay :: "ms option"
  c_network_delay :: int
  c_lock_after_session_end :: bool
  c_show_remote_cursor :: bool
  c_ip :: string
  c_disable_keyboard :: bool
  c_show_my_cursor :: bool
  c_disable_clipboard :: bool
  c_disable_audio :: bool
  c_enable_file_transfer :: bool
  c_video_ack_required :: bool
  c_lr :: "'d login_request"
  c_peer_argb :: "32 word"
  c_chat_unanswered :: bool
  c_file_transferred :: bool
  c_from_switch :: bool
  c_voice_call_request :: "int option"
  c_voice_calling :: bool
  c_options_in_login :: "'d option_message option"
  c_headless_allowed :: bool
  c_cm_ipc_started :: bool
  c_auto_disconnect :: "(ms \<times> nat) option"
  c_services_subed :: bool
  c_delayed_read_dir :: "(string \<times> bool) option"
  c_follow_remote_cursor :: bool
  c_follow_remote_window :: bool
  c_primary_auth :: primary_auth
  c_two_factor :: two_factor
  c_terminal_service_id :: string
  c_terminal_persistent :: bool
  c_terminal_user_token :: "terminal_user_token option"

text \<open>\<^verbatim>\<open>start\<close> up to the opening: \<open>primary\<close> is the primary display, \<open>headless\<close> whether a headless desktop may be
  started.\<close>

definition connection_new :: "permission_env \<Rightarrow> int \<Rightarrow> nat \<Rightarrow> hash \<Rightarrow> bool \<Rightarrow> u64 option \<Rightarrow> 'd connection" where
  "connection_new pe i primary h headless control_permissions =
     \<lparr>authed_conn_type = None, scope_violation_messages = {}, c_closed = False,
      c_id = i, c_nestlink_permit = None, c_homedesk_session = False, c_display_idx = primary, c_hash = h,
      c_file_transfer = None, c_view_camera = False, c_terminal = False, c_port_forward_socket = False,
      c_port_forward_address = [], c_authorized = False,
      c_keyboard = permission pe EnableKeyboard control_permissions,
      c_clipboard = permission pe EnableClipboard control_permissions,
      c_audio = permission pe EnableAudio control_permissions,
      c_file = permission pe EnableFileTransfer control_permissions,
      c_restart = permission pe EnableRemoteRestart control_permissions,
      c_recording = permission pe EnableRecordSession control_permissions,
      c_block_input = permission pe EnableBlockInput control_permissions,
      c_privacy_mode = permission pe EnablePrivacyMode control_permissions,
      c_control_permissions = control_permissions, c_last_test_delay = None, c_network_delay = 0,
      c_lock_after_session_end = False, c_show_remote_cursor = False, c_ip = [], c_disable_keyboard = False,
      c_show_my_cursor = False, c_disable_clipboard = False, c_disable_audio = False,
      c_enable_file_transfer = False, c_video_ack_required = False, c_lr = login_request_default, c_peer_argb = 0,
      c_chat_unanswered = False, c_file_transferred = False, c_from_switch = False, c_voice_call_request = None,
      c_voice_calling = False, c_options_in_login = None, c_headless_allowed = headless,
      c_cm_ipc_started = False, c_auto_disconnect = None, c_services_subed = False, c_delayed_read_dir = None,
      c_follow_remote_cursor = False, c_follow_remote_window = False, c_primary_auth = NoPrimaryAuth,
      c_two_factor = NoTwoFactor, c_terminal_service_id = [], c_terminal_persistent = False,
      c_terminal_user_token = None\<rparr>"

text \<open>What the peer is told about its permissions once the connection is open.\<close>

definition initial_permission_notices :: "('d, 'z) connection_scheme \<Rightarrow> conn_effect list" where
  "initial_permission_notices c =
     (if \<not> c_keyboard c then [SendPermission PermKeyboard False] else [])
     @ (if \<not> c_clipboard c then [SendPermission PermClipboard False] else [])
     @ (if \<not> c_audio c then [SendPermission PermAudio False] else [])
     @ (if \<not> c_file c then [SendPermission PermFile False] else [])
     @ (if \<not> c_restart c then [SendPermission PermRestart False] else [])
     @ (if \<not> c_recording c then [SendPermission PermRecording False] else [])
     @ (if \<not> c_block_input c then [SendPermission PermBlockInput False] else [])
     @ (if \<not> c_privacy_mode c then [SendPermission PermPrivacyMode False] else [])"

record ('d, 'p, 's) handler =
  h_conn :: "'d connection"
  h_server :: "'p server_state"
  h_privacy :: "'s option"
  h_out :: "conn_effect list"

definition emit :: "conn_effect list \<Rightarrow> ('d, 'p, 's) handler \<Rightarrow> ('d, 'p, 's) handler" where
  "emit es h = h\<lparr>h_out := h_out h @ es\<rparr>"

definition upd_conn :: "('d connection \<Rightarrow> 'd connection) \<Rightarrow> ('d, 'p, 's) handler \<Rightarrow> ('d, 'p, 's) handler" where
  "upd_conn f h = h\<lparr>h_conn := f (h_conn h)\<rparr>"

definition upd_server :: "('p server_state \<Rightarrow> 'p server_state) \<Rightarrow> ('d, 'p, 's) handler \<Rightarrow> ('d, 'p, 's) handler" where
  "upd_server f h = h\<lparr>h_server := f (h_server h)\<rparr>"

definition session_key_of :: "('d, 'z) connection_scheme \<Rightarrow> session_key" where
  "session_key_of c = \<lparr>sk_peer_id = lf_my_id (c_lr c), sk_name = lr_my_name (c_lr c),
     sk_session_id = lf_session_id (c_lr c)\<rparr>"

definition is_remote :: "('d, 'z) connection_scheme \<Rightarrow> bool" where
  "is_remote c \<longleftrightarrow> c_file_transfer c = None \<and> \<not> c_port_forward_socket c \<and> \<not> c_view_camera c \<and> \<not> c_terminal c"

definition peer_keyboard_enabled :: "('d, 'z) connection_scheme \<Rightarrow> bool" where
  "peer_keyboard_enabled c \<longleftrightarrow> c_keyboard c \<and> \<not> c_disable_keyboard c"

definition clipboard_enabled :: "('d, 'z) connection_scheme \<Rightarrow> bool" where
  "clipboard_enabled c \<longleftrightarrow> c_clipboard c \<and> \<not> c_disable_clipboard c"

definition can_sub_clipboard_service :: "bool \<Rightarrow> ('d, 'z) connection_scheme \<Rightarrow> bool" where
  "can_sub_clipboard_service one_way c \<longleftrightarrow> clipboard_enabled c \<and> peer_keyboard_enabled c \<and> \<not> one_way"

definition audio_enabled :: "('d, 'z) connection_scheme \<Rightarrow> bool" where
  "audio_enabled c \<longleftrightarrow> c_audio c \<and> \<not> c_disable_audio c"

definition file_transfer_enabled :: "('d, 'z) connection_scheme \<Rightarrow> bool" where
  "file_transfer_enabled c \<longleftrightarrow> c_file c \<and> c_enable_file_transfer c"

definition can_sub_file_clipboard_service :: "bool \<Rightarrow> ('d, 'z) connection_scheme \<Rightarrow> bool" where
  "can_sub_file_clipboard_service one_way_file c \<longleftrightarrow>
     clipboard_enabled c \<and> file_transfer_enabled c \<and> \<not> one_way_file"

definition video_source_of :: "('d, 'z) connection_scheme \<Rightarrow> video_source" where
  "video_source_of c = (if c_view_camera c then Camera else Monitor)"

definition try_start_cm :: "string \<Rightarrow> string \<Rightarrow> bool \<Rightarrow> ('d, 'p, 's) handler \<Rightarrow> ('d, 'p, 's) handler" where
  "try_start_cm peer_id name authorized h =
     (let c = h_conn h in
      emit [CmLogin \<lparr>cm_id = c_id c, cm_is_file_transfer = c_file_transfer c \<noteq> None,
              cm_is_view_camera = c_view_camera c, cm_is_terminal = c_terminal c,
              cm_port_forward = c_port_forward_address c, cm_peer_id = peer_id, cm_name = name,
              cm_avatar = lr_avatar (c_lr c), cm_authorized = authorized, cm_keyboard = c_keyboard c,
              cm_clipboard = c_clipboard c, cm_audio = c_audio c, cm_file = c_file c,
              cm_file_transfer_enabled = c_file c, cm_restart = c_restart c, cm_recording = c_recording c,
              cm_block_input = c_block_input c, cm_privacy_mode = c_privacy_mode c,
              cm_from_switch = c_from_switch c\<rparr>] h)"

definition normalize_conn_audit_auth_fields :: "('d, 'z) connection_scheme \<Rightarrow> ('d, 'z) connection_scheme" where
  "normalize_conn_audit_auth_fields c =
     (if c_primary_auth c \<in> {Click, SwitchSides} then c\<lparr>c_two_factor := NoTwoFactor\<rparr> else c)"

definition get_auto_disconenct_timer :: "bool \<Rightarrow> nat option \<Rightarrow> ms \<Rightarrow> (ms \<times> nat) option" where
  "get_auto_disconenct_timer allowed timeout now =
     (if allowed
      then let minute = (case timeout of Some m \<Rightarrow> m | None \<Rightarrow> 10);
               minute = (if minute = 0 then 10 else minute)
           in Some (now, minute)
      else None)"

definition update_auto_disconnect_timer :: "ms \<Rightarrow> ('d, 'z) connection_scheme \<Rightarrow> ('d, 'z) connection_scheme" where
  "update_auto_disconnect_timer now c = c\<lparr>c_auto_disconnect := map_option (\<lambda>(_, m). (now, m)) (c_auto_disconnect c)\<rparr>"

text \<open>The colour of a peer, the same as in the user interface.\<close>

definition str2color_step :: "char \<Rightarrow> 32 word \<Rightarrow> 32 word" where
  "str2color_step b h = of_nat (of_char b) + (push_bit 5 h - h)"

definition str2color :: "string \<Rightarrow> u8 \<Rightarrow> 32 word" where
  "str2color s alpha =
     (let h = fold str2color_step s 0; h = h mod 16777216; rgb = and h 0xFF7FFF
      in or (push_bit 24 (ucast alpha)) rgb)"

section \<open>Opening and closing\<close>

text \<open>\<open>flutter\<close> is the build feature; locking the screen happens on desktops only.\<close>

definition on_close :: "bool \<Rightarrow> bool \<Rightarrow> ('d, 'p, 's) handler \<Rightarrow> ('d, 'p, 's) handler" where
  "on_close flutter lock h =
     (let c = h_conn h in
      if c_closed c then h
      else emit ([ResetVoiceInput]
             @ (if lock \<and> c_lock_after_session_end c \<and> c_keyboard c then [LockScreen] else [])
             @ [CmClose (c_chat_unanswered c \<or> c_file_transferred c \<and> flutter)])
           (h\<lparr>h_conn := c\<lparr>c_closed := True, c_port_forward_socket := False\<rparr>\<rparr>))"

definition send_close_reason_no_retry :: "conn_effect \<Rightarrow> ('d, 'p, 's) handler \<Rightarrow> ('d, 'p, 's) handler" where
  "send_close_reason_no_retry reason h =
     upd_server (check_remove_session (c_id (h_conn h)) (session_key_of (h_conn h))) (emit [reason] h)"

definition close_reason :: "string \<Rightarrow> conn_effect" where
  "close_reason reason = SendCloseReason (if reason = [] then ''Closed manually by the peer'' else reason)"

definition check_privacy_mode_on :: "bool \<Rightarrow> ('d, 'p, 's) handler \<Rightarrow> bool \<times> ('d, 'p, 's) handler" where
  "check_privacy_mode_on in_privacy_mode h =
     (if in_privacy_mode then (False, emit [LoginError ''Someone turns on privacy mode, exit''] h) else (True, h))"

text \<open>\<open>in_block\<close>: the entry is an address block that contains the peer's address, by the address-block library.\<close>

definition check_whitelist :: "(string \<Rightarrow> bool) \<Rightarrow> string \<Rightarrow> ('d, 'p, 's) handler \<Rightarrow> bool \<times> ('d, 'p, 's) handler" where
  "check_whitelist in_block option h =
     (let whitelist = filter (\<lambda>x. x \<noteq> []) (splitp (\<lambda>x. x = CHR '','') option) in
      if whitelist \<noteq> [] \<and> \<not> list_ex (\<lambda>x. x = ''0.0.0.0'') whitelist \<and> \<not> list_ex (\<lambda>x. in_block x) whitelist
      then (False, emit [LoginErrorLocal OutsideSourceLimits, PostAlarm IpWhitelist] h)
      else (True, h))"

text \<open>\<open>window_missing\<close>: connections are allowed only while the main window is open, and it is not.\<close>

definition on_open ::
    "(string \<Rightarrow> bool) \<Rightarrow> string \<Rightarrow> bool \<Rightarrow> string \<Rightarrow> ('d, 'p, 's) handler \<Rightarrow> bool \<times> ('d, 'p, 's) handler" where
  "on_open in_block option window_missing ip_text h =
     (case check_whitelist in_block option h of
        (False, h) \<Rightarrow> (False, h)
      | (True, h) \<Rightarrow>
          if window_missing then (False, emit [LoginError ''The main window is not open''] h)
          else (True, emit [SendHash, PostConnOpened] (upd_conn (\<lambda>c. c\<lparr>c_ip := ip_text\<rparr>) h)))"

end
