(* ===== verification/Conn_Options.thy ===== *)
theory Conn_Options
  imports Conn_State
begin

text \<open>
  What a peer and the connection manager can change about a running session
  (\<^verbatim>\<open>client/src/server/connection.rs\<close>): the options of the peer, the permissions switched by the user of the
  controlled machine, voice calls, and the subscriptions a session starts with.  \<open>opt_env\<close> holds what the code
  reads of the build, the configuration and the clock, and the privacy-mode implementation.  The server
  outlives its connections, so the weak reference to it is always good.
\<close>

record ('e, 's) opt_env =
  oe_platform :: platform
  oe_file_copy :: bool
  oe_one_way :: bool
  oe_one_way_file :: bool
  oe_iq :: iq_values
  oe_time :: int
  oe_version :: "string \<Rightarrow> int"
  oe_win10 :: bool
  oe_whiteboard :: bool
  oe_ops :: "('e, 's) privacy_ops"
  oe_reg :: "'s privacy_reg"
  oe_capturer :: string
  oe_on :: 'e
  oe_off :: 'e

text \<open>A tri-state option that is known and set.\<close>

fun opt_set :: "bool_option enum_or_unknown \<Rightarrow> bool option" where
  "opt_set (Known Yes) = Some True"
| "opt_set (Known No) = Some False"
| "opt_set _ = None"

definition on_set :: "bool_option enum_or_unknown \<Rightarrow> (bool \<Rightarrow> 'h \<Rightarrow> 'h) \<Rightarrow> 'h \<Rightarrow> 'h" where
  "on_set q f h = (case opt_set q of Some b \<Rightarrow> f b h | None \<Rightarrow> h)"

section \<open>Privacy mode of this connection\<close>

definition turn_on_privacy :: "('e, 's) opt_env \<Rightarrow> string \<Rightarrow> ('d, 'p, 's) handler \<Rightarrow> ('d, 'p, 's) handler" where
  "turn_on_privacy oe impl_key h =
     (let c = h_conn h in
      case conn_turn_on_privacy (oe_ops oe) (oe_reg oe) (oe_platform oe = Windows) (oe_capturer oe) (oe_on oe) (oe_off oe)
             (\<not> is_authed_remote_conn c \<or> \<not> c_privacy_mode c) impl_key (c_id c) (h_privacy h) of
        (es, p) \<Rightarrow> emit es (h\<lparr>h_privacy := p\<rparr>))"

definition conn_turn_off :: "('e, 's) opt_env \<Rightarrow> ('d, 'p, 's) handler \<Rightarrow> ('d, 'p, 's) handler" where
  "conn_turn_off oe h =
     (case conn_turn_off_privacy (oe_ops oe) (oe_reg oe) (oe_off oe) (c_id (h_conn h)) (h_privacy h) of
        (es, p) \<Rightarrow> emit es (h\<lparr>h_privacy := p\<rparr>))"

definition toggle_privacy_mode :: "('e, 's) opt_env \<Rightarrow> bool \<Rightarrow> string \<Rightarrow> ('d, 'p, 's) handler \<Rightarrow> ('d, 'p, 's) handler" where
  "toggle_privacy_mode oe on impl_key h = (if on then turn_on_privacy oe impl_key h else conn_turn_off oe h)"

section \<open>Options of the peer\<close>

text \<open>The numbers of the image qualities; the protocol has them in the order balanced, low, best.\<close>

definition image_quality_value :: "iq_values \<Rightarrow> image_quality \<Rightarrow> int" where
  "image_quality_value iq q =
     (case iq of (balanced, low, best) \<Rightarrow>
        (case q of QualityNotSet \<Rightarrow> 0 | QualityLow \<Rightarrow> low | QualityBalanced \<Rightarrow> balanced | QualityBest \<Rightarrow> best))"

definition upd_qos :: "(video_qos \<Rightarrow> video_qos) \<Rightarrow> ('d, 'p, 's) handler \<Rightarrow> ('d, 'p, 's) handler" where
  "upd_qos f h = upd_server (\<lambda>s. s\<lparr>sv_qos := f (sv_qos s)\<rparr>) h"

definition opt_quality :: "('e, 's) opt_env \<Rightarrow> 'd option_message \<Rightarrow> ('d, 'p, 's) handler \<Rightarrow> ('d, 'p, 's) handler" where
  "opt_quality oe om h =
     (case om_image_quality om of
        Unknown _ \<Rightarrow> h
      | Known q \<Rightarrow>
          let image_quality =
                (if q = QualityNotSet
                 then if om_custom_image_quality om > 0 then om_custom_image_quality om else - 1
                 else image_quality_value (oe_iq oe) q)
          in if image_quality > 0
             then upd_qos (user_image_quality (oe_iq oe) (c_id (h_conn h)) image_quality (oe_time oe)) h else h)"

definition opt_fps :: "'d option_message \<Rightarrow> ('d, 'p, 's) handler \<Rightarrow> ('d, 'p, 's) handler" where
  "opt_fps om h = (if om_custom_fps om > 0 then upd_qos (user_custom_fps (c_id (h_conn h)) (nat (om_custom_fps om))) h else h)"

definition opt_codec :: "'d option_message \<Rightarrow> ('d, 'p, 's) handler \<Rightarrow> ('d, 'p, 's) handler" where
  "opt_codec om h = (if om_supported_decoding om \<noteq> None then emit [EncoderUpdate] h else h)"

definition opt_lock :: "'d option_message \<Rightarrow> ('d, 'p, 's) handler \<Rightarrow> ('d, 'p, 's) handler" where
  "opt_lock om = on_set (om_lock_after_session_end om) (\<lambda>b. upd_conn (\<lambda>c. c\<lparr>c_lock_after_session_end := b\<rparr>))"

definition opt_cursor :: "'d option_message \<Rightarrow> ('d, 'p, 's) handler \<Rightarrow> ('d, 'p, 's) handler" where
  "opt_cursor om = on_set (om_show_remote_cursor om) (\<lambda>b h.
     let h = upd_conn (\<lambda>c. c\<lparr>c_show_remote_cursor := b\<rparr>) h; c = h_conn h
     in emit [Subscribe NAME_CURSOR (peer_keyboard_enabled c \<or> c_show_remote_cursor c),
              Subscribe NAME_POS (c_show_remote_cursor c)] h)"

definition opt_follow_cursor :: "'d option_message \<Rightarrow> ('d, 'p, 's) handler \<Rightarrow> ('d, 'p, 's) handler" where
  "opt_follow_cursor om = on_set (om_follow_remote_cursor om) (\<lambda>b. upd_conn (\<lambda>c. c\<lparr>c_follow_remote_cursor := b\<rparr>))"

definition opt_follow_window :: "'d option_message \<Rightarrow> ('d, 'p, 's) handler \<Rightarrow> ('d, 'p, 's) handler" where
  "opt_follow_window om = on_set (om_follow_remote_window om) (\<lambda>b h.
     emit [Subscribe NAME_WINDOW_FOCUS b] (upd_conn (\<lambda>c. c\<lparr>c_follow_remote_window := b\<rparr>) h))"

text \<open>A camera session hears the machine's sound only during a voice call; turning sound off always counts.\<close>

definition audio_subscription :: "('d, 'z) connection_scheme \<Rightarrow> conn_effect list" where
  "audio_subscription c =
     (if is_authed_view_camera_conn c
      then if c_voice_calling c \<or> \<not> audio_enabled c then [Subscribe audio_name (audio_enabled c)] else []
      else [Subscribe audio_name (audio_enabled c)])"

definition opt_audio :: "'d option_message \<Rightarrow> ('d, 'p, 's) handler \<Rightarrow> ('d, 'p, 's) handler" where
  "opt_audio om = on_set (om_disable_audio om) (\<lambda>b h.
     let h = upd_conn (\<lambda>c. c\<lparr>c_disable_audio := b\<rparr>) h in emit (audio_subscription (h_conn h)) h)"

definition opt_file :: "('e, 's) opt_env \<Rightarrow> 'd option_message \<Rightarrow> ('d, 'p, 's) handler \<Rightarrow> ('d, 'p, 's) handler" where
  "opt_file oe om h =
     (if oe_platform oe = Windows \<or> oe_file_copy oe
      then on_set (om_enable_file_transfer om) (\<lambda>b h.
             let h = upd_conn (\<lambda>c. c\<lparr>c_enable_file_transfer := b\<rparr>) h; c = h_conn h
             in emit ((if oe_platform oe = Windows then [CmClipboardFileEnabled (file_transfer_enabled c)] else [])
                   @ (if oe_file_copy oe
                      then [Subscribe file_clipboard_name (can_sub_file_clipboard_service (oe_one_way_file oe) c)]
                      else [])) h) h
      else h)"

definition opt_clipboard :: "('e, 's) opt_env \<Rightarrow> 'd option_message \<Rightarrow> ('d, 'p, 's) handler \<Rightarrow> ('d, 'p, 's) handler" where
  "opt_clipboard oe om = on_set (om_disable_clipboard om) (\<lambda>b h.
     let h = upd_conn (\<lambda>c. c\<lparr>c_disable_clipboard := b\<rparr>) h
     in emit [Subscribe clipboard_name (can_sub_clipboard_service (oe_one_way oe) (h_conn h))] h)"

definition opt_keyboard :: "('e, 's) opt_env \<Rightarrow> 'd option_message \<Rightarrow> ('d, 'p, 's) handler \<Rightarrow> ('d, 'p, 's) handler" where
  "opt_keyboard oe om = on_set (om_disable_keyboard om) (\<lambda>b h.
     let h = upd_conn (\<lambda>c. c\<lparr>c_disable_keyboard := b\<rparr>) h; c = h_conn h
     in emit ([Subscribe clipboard_name (can_sub_clipboard_service (oe_one_way oe) c)]
           @ (if oe_file_copy oe
              then [Subscribe file_clipboard_name (can_sub_file_clipboard_service (oe_one_way_file oe) c)] else [])
           @ [Subscribe NAME_CURSOR (peer_keyboard_enabled c \<or> c_show_remote_cursor c)]) h)"

definition opt_privacy :: "('e, 's) opt_env \<Rightarrow> 'd option_message \<Rightarrow> ('d, 'p, 's) handler \<Rightarrow> ('d, 'p, 's) handler" where
  "opt_privacy oe om h =
     (if oe_version oe (lr_version (c_lr (h_conn h))) < oe_version oe ''1.2.4'' \<and> c_keyboard (h_conn h)
      then on_set (om_privacy_mode om) (\<lambda>b. if b then turn_on_privacy oe [] else conn_turn_off oe) h else h)"

definition opt_block_input :: "'d option_message \<Rightarrow> ('d, 'p, 's) handler \<Rightarrow> ('d, 'p, 's) handler" where
  "opt_block_input om = on_set (om_block_input om) (\<lambda>b h.
     if c_keyboard (h_conn h) \<and> c_block_input (h_conn h) then emit [InputBlocked b] h else emit [BlockInputFailed b] h)"

definition update_terminal_persistence :: "bool \<Rightarrow> ('d, 'p, 's) handler \<Rightarrow> ('d, 'p, 's) handler" where
  "update_terminal_persistence persistent h =
     emit [TerminalPersistence (c_terminal_service_id (h_conn h)) persistent]
       (upd_conn (\<lambda>c. c\<lparr>c_terminal_persistent := persistent\<rparr>) h)"

definition opt_terminal :: "'d option_message \<Rightarrow> ('d, 'p, 's) handler \<Rightarrow> ('d, 'p, 's) handler" where
  "opt_terminal om = on_set (om_terminal_persistent om) update_terminal_persistence"

definition opt_my_cursor :: "('e, 's) opt_env \<Rightarrow> 'd option_message \<Rightarrow> ('d, 'p, 's) handler \<Rightarrow> ('d, 'p, 's) handler" where
  "opt_my_cursor oe om = on_set (om_show_my_cursor om) (\<lambda>b h.
     let h = upd_conn (\<lambda>c. c\<lparr>c_show_my_cursor := b\<rparr>) h;
         not_support_msg =
           (if oe_platform oe = Windows \<and> \<not> oe_win10 oe then ''Windows 10 or greater is required.''
            else if oe_platform oe = Linux \<and> \<not> oe_whiteboard oe
            then ''This feature is not supported on native Wayland, please install XWayland or switch to X11.''
            else [])
     in if b then if not_support_msg = [] then emit [Whiteboard True] h else emit [MessageBox not_support_msg] h
        else if not_support_msg = [] then emit [Whiteboard False] h else h)"

definition update_options :: "('e, 's) opt_env \<Rightarrow> 'd option_message \<Rightarrow> ('d, 'p, 's) handler \<Rightarrow> ('d, 'p, 's) handler" where
  "update_options oe om h =
     fold (\<lambda>f h. f h)
       [opt_quality oe om, opt_fps om, opt_codec om, opt_lock om, opt_cursor om, opt_follow_cursor om,
        opt_follow_window om, opt_audio om, opt_file oe om, opt_clipboard oe om, opt_keyboard oe om,
        opt_privacy oe om, opt_block_input om, opt_terminal om, opt_my_cursor oe om] h"

definition update_scoped_login_options :: "('e, 's) opt_env \<Rightarrow> ('d, 'p, 's) handler \<Rightarrow> ('d, 'p, 's) handler" where
  "update_scoped_login_options oe h =
     (case c_options_in_login (h_conn h) of
        None \<Rightarrow> h
      | Some om \<Rightarrow>
          let h = upd_conn (\<lambda>c. c\<lparr>c_options_in_login := None\<rparr>) h in
          case authed_conn_type (h_conn h) of
            None \<Rightarrow> h
          | Some t \<Rightarrow> (case fst (scoped_login_option t om) of Some om \<Rightarrow> update_options oe om h | None \<Rightarrow> h))"

text \<open>An option message of a running session.\<close>

definition handle_option :: "('e, 's) opt_env \<Rightarrow> 'd option_message \<Rightarrow> ('d, 'p, 's) handler \<Rightarrow> ('d, 'p, 's) handler" where
  "handle_option oe om h =
     (if authed_conn_type (h_conn h) = Some Remote then update_options oe om h
      else case scoped_update_option_message (authed_conn_type (h_conn h)) om of
             Some om \<Rightarrow> update_options oe om h
           | None \<Rightarrow> h)"

section \<open>Permissions switched by the user\<close>

definition switch_privacy_permission :: "('e, 's) opt_env \<Rightarrow> bool \<Rightarrow> ('d, 'p, 's) handler \<Rightarrow> ('d, 'p, 's) handler" where
  "switch_privacy_permission oe enabled h =
     (let c = h_conn h;
          set_permission = (\<lambda>h. emit [SendPermission PermPrivacyMode enabled]
                              (upd_conn (\<lambda>c. c\<lparr>c_privacy_mode := enabled\<rparr>) h))
      in if \<not> enabled \<and> is_in_privacy_mode (oe_ops oe) (h_privacy h)
            \<and> get_privacy_mode_conn_id (oe_ops oe) (h_privacy h) = Some (c_id c)
         then (case Privacy_Mode.turn_off_privacy (oe_ops oe) (oe_off oe) (c_id c) (h_privacy h) of
                 (Some (Inr _), p) \<Rightarrow> set_permission (emit [PrivacyMessage PrvOffByPeer] (h\<lparr>h_privacy := p\<rparr>))
               | (res, p) \<Rightarrow>
                   emit [PrivacyMessage (turn_off_privacy_result_to_msg res),
                         CmSwitchPermission ''privacy_mode'' (c_privacy_mode c)] (h\<lparr>h_privacy := p\<rparr>))
         else set_permission h)"

definition switch_permission :: "('e, 's) opt_env \<Rightarrow> string \<Rightarrow> bool \<Rightarrow> ('d, 'p, 's) handler \<Rightarrow> ('d, 'p, 's) handler" where
  "switch_permission oe name enabled h =
     (if name = ''keyboard''
      then let h = upd_conn (\<lambda>c. c\<lparr>c_keyboard := enabled\<rparr>) h; c = h_conn h
           in emit ([SendPermission PermKeyboard enabled,
                     Subscribe clipboard_name (can_sub_clipboard_service (oe_one_way oe) c)]
                 @ (if oe_file_copy oe
                    then [Subscribe file_clipboard_name (can_sub_file_clipboard_service (oe_one_way_file oe) c)] else [])
                 @ [Subscribe NAME_CURSOR (enabled \<or> c_show_remote_cursor c)]) h
      else if name = ''clipboard''
      then let h = upd_conn (\<lambda>c. c\<lparr>c_clipboard := enabled\<rparr>) h
           in emit [SendPermission PermClipboard enabled,
                    Subscribe clipboard_name (can_sub_clipboard_service (oe_one_way oe) (h_conn h))] h
      else if name = ''audio''
      then let h = upd_conn (\<lambda>c. c\<lparr>c_audio := enabled\<rparr>) h
           in emit (SendPermission PermAudio enabled
                    # (if c_authorized (h_conn h) then audio_subscription (h_conn h) else [])) h
      else if name = ''file''
      then let h = upd_conn (\<lambda>c. c\<lparr>c_file := enabled\<rparr>) h
           in emit (SendPermission PermFile enabled
                    # (if oe_file_copy oe
                       then [Subscribe file_clipboard_name
                               (can_sub_file_clipboard_service (oe_one_way_file oe) (h_conn h))]
                       else [])) h
      else if name = ''restart''
      then emit [SendPermission PermRestart enabled] (upd_conn (\<lambda>c. c\<lparr>c_restart := enabled\<rparr>) h)
      else if name = ''recording''
      then emit [SendPermission PermRecording enabled] (upd_conn (\<lambda>c. c\<lparr>c_recording := enabled\<rparr>) h)
      else if name = ''block_input''
      then emit [SendPermission PermBlockInput enabled] (upd_conn (\<lambda>c. c\<lparr>c_block_input := enabled\<rparr>) h)
      else if name = ''privacy_mode'' then switch_privacy_permission oe enabled h
      else h)"

section \<open>Voice calls and subscriptions\<close>

definition handle_voice_call :: "bool \<Rightarrow> ('d, 'p, 's) handler \<Rightarrow> ('d, 'p, 's) handler" where
  "handle_voice_call accepted h =
     (case c_voice_call_request (h_conn h) of
        None \<Rightarrow> h
      | Some ts \<Rightarrow>
          let h = emit ((if accepted then [UseVoiceInput, CmStartVoiceCall] else [CmCloseVoiceCall])
                     @ [VoiceCallAnswer ts accepted])
                    (upd_conn (\<lambda>c. c\<lparr>c_voice_call_request := None, c_voice_calling := accepted\<rparr>) h);
              c = h_conn h
          in if is_authed_view_camera_conn c then emit [Subscribe audio_name (audio_enabled c \<and> accepted)] h else h)"

definition close_voice_call :: "('d, 'p, 's) handler \<Rightarrow> ('d, 'p, 's) handler" where
  "close_voice_call h =
     (let h = emit [ResetVoiceInput, CmCloseVoiceCall] (upd_conn (\<lambda>c. c\<lparr>c_voice_calling := False\<rparr>) h)
      in if is_authed_view_camera_conn (h_conn h) then emit [Subscribe audio_name False] h else h)"

definition voice_call_request :: "bool \<Rightarrow> int \<Rightarrow> int \<Rightarrow> ('d, 'p, 's) handler \<Rightarrow> ('d, 'p, 's) handler" where
  "voice_call_request is_connect req_timestamp time h =
     (if is_connect
      then emit [CmVoiceCallIncoming]
             (upd_conn (\<lambda>c. c\<lparr>c_voice_call_request := Some (if req_timestamp \<noteq> 0 then req_timestamp else time)\<rparr>) h)
      else close_voice_call h)"

definition try_sub_camera_displays :: "('d, 'p, 's) handler \<Rightarrow> ('d, 'p, 's) handler" where
  "try_sub_camera_displays h = emit [AddCameraConnection] h"

definition monitor_noperms :: "('e, 's) opt_env \<Rightarrow> ('d, 'z) connection_scheme \<Rightarrow> string list" where
  "monitor_noperms oe c =
     (if \<not> peer_keyboard_enabled c \<and> \<not> c_show_remote_cursor c then [NAME_CURSOR] else [])
     @ (if \<not> c_show_remote_cursor c then [NAME_POS] else [])
     @ (if \<not> c_follow_remote_window c then [NAME_WINDOW_FOCUS] else [])
     @ (if \<not> can_sub_clipboard_service (oe_one_way oe) c then [clipboard_name] else [])
     @ (if oe_file_copy oe \<and> \<not> can_sub_file_clipboard_service (oe_one_way_file oe) c then [file_clipboard_name] else [])
     @ (if \<not> audio_enabled c then [audio_name] else [])"

definition try_sub_monitor_services ::
    "('e, 's) opt_env \<Rightarrow> (ms \<times> nat) option \<Rightarrow> ('d, 'p, 's) handler \<Rightarrow> ('d, 'p, 's) handler" where
  "try_sub_monitor_services oe timer h =
     (if is_remote (h_conn h) \<and> \<not> c_services_subed (h_conn h)
      then let h = upd_conn (\<lambda>c. c\<lparr>c_services_subed := True\<rparr>) h;
               noperms = monitor_noperms oe (h_conn h)
           in emit [AddConnection noperms] (upd_conn (\<lambda>c. c\<lparr>c_auto_disconnect := timer\<rparr>) h)
      else h)"

section \<open>Properties\<close>

text \<open>The subscriptions of a connection after its effects, and what they should be.\<close>

definition apply_sub :: "nat \<Rightarrow> int \<Rightarrow> conn_effect \<Rightarrow> server \<Rightarrow> server" where
  "apply_sub primary i e sv =
     (case e of Subscribe k b \<Rightarrow> subscribe k i b sv | AddConnection noperms \<Rightarrow> add_connection primary i noperms sv | _ \<Rightarrow> sv)"

definition hub_after :: "nat \<Rightarrow> server \<Rightarrow> ('d, 'p, 's) handler \<Rightarrow> server" where
  "hub_after primary sv h = fold (apply_sub primary (c_id (h_conn h))) (h_out h) sv"

definition wanted :: "('e, 's) opt_env \<Rightarrow> ('d, 'z) connection_scheme \<Rightarrow> string \<Rightarrow> bool option" where
  "wanted oe c k =
     (if k = clipboard_name then Some (can_sub_clipboard_service (oe_one_way oe) c)
      else if k = NAME_CURSOR then Some (peer_keyboard_enabled c \<or> c_show_remote_cursor c)
      else if k = NAME_POS then Some (c_show_remote_cursor c)
      else if k = NAME_WINDOW_FOCUS then Some (c_follow_remote_window c)
      else if k = audio_name then Some (audio_enabled c)
      else None)"

definition in_sync :: "('e, 's) opt_env \<Rightarrow> nat \<Rightarrow> server \<Rightarrow> ('d, 'p, 's) handler \<Rightarrow> bool" where
  "in_sync oe primary sv h \<longleftrightarrow> server_inv (hub_after primary sv h) \<and> c_authorized (h_conn h)
     \<and> authed_conn_type (h_conn h) = Some Remote
     \<and> (\<forall>k. contains_service k (hub_after primary sv h) \<longrightarrow>
          pred_option (\<lambda>b. subscribed (hub_after primary sv h) k (c_id (h_conn h)) = b) (wanted oe (h_conn h) k))"

lemma service_names [simp]:
  "clipboard_name \<noteq> NAME_CURSOR" "clipboard_name \<noteq> NAME_POS" "clipboard_name \<noteq> NAME_WINDOW_FOCUS"
  "clipboard_name \<noteq> audio_name" "NAME_CURSOR \<noteq> NAME_POS" "NAME_CURSOR \<noteq> NAME_WINDOW_FOCUS" "NAME_CURSOR \<noteq> audio_name"
  "NAME_POS \<noteq> NAME_WINDOW_FOCUS" "NAME_POS \<noteq> audio_name" "NAME_WINDOW_FOCUS \<noteq> audio_name"
  "file_clipboard_name \<noteq> clipboard_name" "file_clipboard_name \<noteq> NAME_CURSOR" "file_clipboard_name \<noteq> NAME_POS"
  "file_clipboard_name \<noteq> NAME_WINDOW_FOCUS" "file_clipboard_name \<noteq> audio_name"
  by (simp_all add: clipboard_name_def file_clipboard_name_def audio_name_def NAME_CURSOR_def NAME_POS_def
      NAME_WINDOW_FOCUS_def)

lemmas service_names' [simp] = service_names [symmetric]

lemma handler_simps [simp]:
  "h_conn (emit es h) = h_conn h" "h_conn (upd_conn f h) = f (h_conn h)" "h_conn (upd_server g h) = h_conn h"
  "h_out (emit es h) = h_out h @ es" "h_out (upd_conn f h) = h_out h" "h_out (upd_server g h) = h_out h"
  by (simp_all add: emit_def upd_conn_def upd_server_def)

lemma hub_after_simps [simp]:
  "c_id (f (h_conn h)) = c_id (h_conn h) \<Longrightarrow> hub_after primary sv (upd_conn f h) = hub_after primary sv h"
  "hub_after primary sv (upd_server g h) = hub_after primary sv h"
  "hub_after primary sv (h\<lparr>h_privacy := p\<rparr>) = hub_after primary sv h"
  "hub_after primary sv (emit es h) = fold (apply_sub primary (c_id (h_conn h))) es (hub_after primary sv h)"
  by (simp_all add: hub_after_def)

lemma in_sync_simps [simp]:
  "in_sync oe primary sv (upd_server g h) = in_sync oe primary sv h"
  "in_sync oe primary sv (h\<lparr>h_privacy := p\<rparr>) = in_sync oe primary sv h"
  by (simp_all add: in_sync_def)

text \<open>The last subscription of a list of effects.\<close>

definition sub_of :: "string \<Rightarrow> conn_effect \<Rightarrow> bool option" where
  "sub_of k e = (case e of Subscribe k' b \<Rightarrow> if k' = k then Some b else None | _ \<Rightarrow> None)"

primrec last_sub :: "string \<Rightarrow> conn_effect list \<Rightarrow> bool option" where
  "last_sub k [] = None"
| "last_sub k (e # es) = (case last_sub k es of Some b \<Rightarrow> Some b | None \<Rightarrow> sub_of k e)"

definition no_add :: "conn_effect list \<Rightarrow> bool" where
  "no_add es \<longleftrightarrow> list_all (\<lambda>e. \<forall>n. e \<noteq> AddConnection n) es"

lemma no_add_simps [simp]:
  "no_add []" "no_add (e # es) \<longleftrightarrow> (\<forall>n. e \<noteq> AddConnection n) \<and> no_add es"
  "no_add (xs @ ys) \<longleftrightarrow> no_add xs \<and> no_add ys"
  by (simp_all add: no_add_def)

lemma fold_apply_sub:
  assumes "server_inv sv" and "no_add es"
  shows "server_inv (fold (apply_sub primary i) es sv)
    \<and> contains_service k (fold (apply_sub primary i) es sv) = contains_service k sv
    \<and> (contains_service k sv \<longrightarrow> subscribed (fold (apply_sub primary i) es sv) k i =
        (case last_sub k es of Some b \<Rightarrow> b | None \<Rightarrow> subscribed sv k i))"
  using assms
proof (induction es arbitrary: sv)
  case (Cons e es)
  have "server_inv (apply_sub primary i e sv) \<and> contains_service k (apply_sub primary i e sv) = contains_service k sv
    \<and> (contains_service k sv \<longrightarrow> subscribed (apply_sub primary i e sv) k i =
        (case sub_of k e of Some b \<Rightarrow> b | None \<Rightarrow> subscribed sv k i))"
    using Cons.prems
    by (auto simp: apply_sub_def sub_of_def hub.sub_inv hub.sub_present hub.sub_subed split: conn_effect.split)
  then show ?case using Cons.IH[of "apply_sub primary i e sv"] Cons.prems by (auto split: option.splits)
qed simp

text \<open>A step that changes some flags and then subscribes each service whose wanted state depends on them.\<close>

lemma in_sync_step:
  assumes "in_sync oe primary sv h" and "c_id (f (h_conn h)) = c_id (h_conn h)"
    and "authed_conn_type (f (h_conn h)) = authed_conn_type (h_conn h) \<and> c_authorized (f (h_conn h)) = c_authorized (h_conn h)" and "no_add es"
    and "\<And>k. case last_sub k es of
           Some b \<Rightarrow> pred_option (\<lambda>w. w = b) (wanted oe (f (h_conn h)) k)
         | None \<Rightarrow> wanted oe (f (h_conn h)) k = wanted oe (h_conn h) k"
  shows "in_sync oe primary sv (emit es (upd_conn f h))"
proof -
  let ?sv = "hub_after primary sv h" and ?i = "c_id (h_conn h)"
  have inv: "server_inv ?sv" and ok: "contains_service k ?sv \<Longrightarrow>
      pred_option (\<lambda>b. subscribed ?sv k ?i = b) (wanted oe (h_conn h) k)" for k
    using assms(1) by (auto simp: in_sync_def)
  have "pred_option (\<lambda>b. subscribed (fold (apply_sub primary ?i) es ?sv) k ?i = b) (wanted oe (f (h_conn h)) k)"
    if "contains_service k ?sv" for k
    using fold_apply_sub[OF inv assms(4), of primary ?i k] ok[OF that] assms(5)[of k] that
    by (cases "last_sub k es"; cases "wanted oe (f (h_conn h)) k") auto
  then show ?thesis
    using assms(1,2,3) fold_apply_sub[OF inv assms(4), of primary ?i]
    by (auto simp: in_sync_def)
qed

lemma in_sync_emit:
  assumes "in_sync oe primary sv h" and "\<And>k. last_sub k es = None" and "no_add es"
  shows "in_sync oe primary sv (emit es h)"
proof -
  have "upd_conn (\<lambda>c. c) h = h" by (simp add: upd_conn_def)
  with in_sync_step[of oe primary sv h "\<lambda>c. c" es] assms show ?thesis by simp
qed

lemma in_sync_conn:
  assumes "in_sync oe primary sv h" and "c_id (f (h_conn h)) = c_id (h_conn h)"
    and "authed_conn_type (f (h_conn h)) = authed_conn_type (h_conn h) \<and> c_authorized (f (h_conn h)) = c_authorized (h_conn h)"
    and "\<And>k. wanted oe (f (h_conn h)) k = wanted oe (h_conn h) k"
  shows "in_sync oe primary sv (upd_conn f h)"
  using assms by (simp add: in_sync_def)

lemmas flag_defs = wanted_def can_sub_clipboard_service_def clipboard_enabled_def peer_keyboard_enabled_def
  audio_enabled_def sub_of_def

lemma privacy_messages:
  "no_add (fst (conn_turn_on_privacy po r w cap e e' d key i p)) \<and> last_sub k (fst (conn_turn_on_privacy po r w cap e e' d key i p)) = None"
  "no_add (fst (conn_turn_off_privacy po r e i p)) \<and> last_sub k (fst (conn_turn_off_privacy po r e i p)) = None"
  by (auto simp: conn_turn_on_privacy_def conn_turn_off_privacy_def sub_of_def Let_def
      split: option.split sum.split prod.split bool.split)

lemma in_sync_turn_on: "in_sync oe primary sv h \<Longrightarrow> in_sync oe primary sv (turn_on_privacy oe' key h)"
  by (auto simp: turn_on_privacy_def Let_def split_beta privacy_messages intro!: in_sync_emit)

lemma in_sync_turn_off: "in_sync oe primary sv h \<Longrightarrow> in_sync oe primary sv (conn_turn_off oe' h)"
  by (auto simp: conn_turn_off_def split_beta privacy_messages intro!: in_sync_emit)

lemma in_sync_on_set:
  "in_sync oe primary sv h \<Longrightarrow> (\<And>b. in_sync oe primary sv (f b h)) \<Longrightarrow> in_sync oe primary sv (on_set q f h)"
  by (simp add: on_set_def split: option.split)

lemma in_sync_remote: "in_sync oe primary sv h \<Longrightarrow> c_authorized (h_conn h) \<and> authed_conn_type (h_conn h) = Some Remote"
  by (simp add: in_sync_def)

lemma in_sync_plain_options:
  assumes "in_sync oe primary sv h"
  shows "in_sync oe primary sv (opt_quality oe' om h)" "in_sync oe primary sv (opt_fps om h)"
    "in_sync oe primary sv (opt_codec om h)" "in_sync oe primary sv (opt_lock om h)"
    "in_sync oe primary sv (opt_follow_cursor om h)" "in_sync oe primary sv (opt_privacy oe' om h)"
    "in_sync oe primary sv (opt_block_input om h)" "in_sync oe primary sv (opt_terminal om h)"
    "in_sync oe primary sv (opt_my_cursor oe' om h)"
  using assms
  by (auto simp: opt_quality_def opt_fps_def upd_qos_def opt_codec_def opt_lock_def opt_follow_cursor_def opt_privacy_def
      opt_block_input_def opt_terminal_def update_terminal_persistence_def opt_my_cursor_def Let_def flag_defs
      split: enum_or_unknown.split
      intro!: in_sync_on_set in_sync_emit in_sync_conn in_sync_turn_on in_sync_turn_off)

lemma in_sync_opt_cursor: "in_sync oe primary sv h \<Longrightarrow> in_sync oe primary sv (opt_cursor om h)"
  unfolding opt_cursor_def Let_def
  by (rule in_sync_on_set, assumption, rule in_sync_step) (auto simp: flag_defs)

lemma in_sync_opt_follow_window: "in_sync oe primary sv h \<Longrightarrow> in_sync oe primary sv (opt_follow_window om h)"
  unfolding opt_follow_window_def
  by (rule in_sync_on_set, assumption, rule in_sync_step) (auto simp: flag_defs)

lemma in_sync_opt_audio: "in_sync oe primary sv h \<Longrightarrow> in_sync oe primary sv (opt_audio om h)"
  unfolding opt_audio_def Let_def
  by (rule in_sync_on_set, assumption, rule in_sync_step)
    (auto simp: flag_defs audio_subscription_def is_authed_view_camera_conn_def dest: in_sync_remote)

lemma in_sync_opt_clipboard: "in_sync oe primary sv h \<Longrightarrow> in_sync oe primary sv (opt_clipboard oe om h)"
  unfolding opt_clipboard_def Let_def
  by (rule in_sync_on_set, assumption, rule in_sync_step) (auto simp: flag_defs)

lemma in_sync_opt_keyboard: "in_sync oe primary sv h \<Longrightarrow> in_sync oe primary sv (opt_keyboard oe om h)"
  unfolding opt_keyboard_def Let_def
  by (rule in_sync_on_set, assumption, rule in_sync_step) (auto simp: flag_defs)

lemma in_sync_opt_file: "in_sync oe primary sv h \<Longrightarrow> in_sync oe primary sv (opt_file oe om h)"
  unfolding opt_file_def Let_def
  by (auto simp: flag_defs intro!: in_sync_on_set in_sync_step)

lemma in_sync_update_options: "in_sync oe primary sv h \<Longrightarrow> in_sync oe primary sv (update_options oe om h)"
  by (simp add: update_options_def in_sync_plain_options in_sync_opt_cursor in_sync_opt_follow_window
      in_sync_opt_audio in_sync_opt_clipboard in_sync_opt_keyboard in_sync_opt_file)

lemma in_sync_if:
  "(P \<Longrightarrow> in_sync oe primary sv h1) \<Longrightarrow> (\<not> P \<Longrightarrow> in_sync oe primary sv h2) \<Longrightarrow> in_sync oe primary sv (if P then h1 else h2)"
  by simp

lemma in_sync_switch_privacy:
  "in_sync oe primary sv h \<Longrightarrow> in_sync oe primary sv (switch_privacy_permission oe b h)"
  unfolding switch_privacy_permission_def Let_def
  by (intro in_sync_if)
    (auto simp: flag_defs split: prod.split option.split sum.split intro!: in_sync_emit in_sync_conn)

lemma in_sync_switch_permission:
  assumes "in_sync oe primary sv h" and "name = ''keyboard'' \<longrightarrow> \<not> c_disable_keyboard (h_conn h)"
  shows "in_sync oe primary sv (switch_permission oe name b h)"
  unfolding switch_permission_def Let_def
  by (intro in_sync_if in_sync_switch_privacy assms(1) in_sync_step[OF assms(1)])
    (use assms(2) in_sync_remote[OF assms(1)] in
      \<open>simp_all add: flag_defs audio_subscription_def is_authed_view_camera_conn_def\<close>)

text \<open>A session starts with the subscriptions its flags ask for.\<close>

lemma add_connection_subscribed:
  assumes "server_inv sv" and "contains_service k sv" and "\<not> is_video_service_name k"
  shows "server_inv (add_connection primary i noperms sv)
    \<and> contains_service k (add_connection primary i noperms sv)
    \<and> (subscribed (add_connection primary i noperms sv) k i \<longleftrightarrow> k \<notin> set noperms \<or> subscribed sv k i)"
proof -
  have "server_inv (add_connection primary i noperms sv)"
    using server_inv_exec[OF assms(1), of "HAdd primary i noperms"] by simp
  moreover obtain s where s: "map_of (services sv) k = Some s" using assms(2) by (auto simp: contains_service_def)
  moreover have "svc_name s = k" using server_inv_lookup[OF assms(1) s] by simp
  ultimately show ?thesis
    using assms(3)
    by (auto simp: add_connection_def Let_def contains_service_def subscribed_def map_of_map_services on_subscribe_props)
qed

lemma contains_add_connection: "contains_service k (add_connection primary i noperms sv) = contains_service k sv"
  by (simp add: add_connection_def Let_def contains_service_def map_of_map_services)

lemma not_video_names [simp]:
  "\<not> is_video_service_name clipboard_name" "\<not> is_video_service_name NAME_CURSOR" "\<not> is_video_service_name NAME_POS"
  "\<not> is_video_service_name audio_name"
  by (simp_all add: is_video_service_name_def starts_with_def clipboard_name_def NAME_CURSOR_def NAME_POS_def
      audio_name_def)

lemma wanted_noperms:
  "wanted oe c k = Some b \<Longrightarrow> \<not> is_video_service_name k \<and> (k \<in> set (monitor_noperms oe c) \<longleftrightarrow> \<not> b)"
  by (auto simp: wanted_def monitor_noperms_def split: if_splits)

lemma started_flags [simp]:
  "monitor_noperms oe (c\<lparr>c_services_subed := True\<rparr>) = monitor_noperms oe c"
  "wanted oe (c\<lparr>c_services_subed := True, c_auto_disconnect := timer\<rparr>) k = wanted oe c k"
  by (simp_all add: monitor_noperms_def flag_defs can_sub_file_clipboard_service_def file_transfer_enabled_def)

lemma in_sync_start:
  assumes "server_inv sv" and "h_out h = []" and "c_authorized (h_conn h)"
    and "authed_conn_type (h_conn h) = Some Remote" and "is_remote (h_conn h)" and "\<not> c_services_subed (h_conn h)"
    and "\<And>k. \<not> subscribed sv k (c_id (h_conn h))"
  shows "in_sync oe primary sv (try_sub_monitor_services oe timer h)"
proof -
  let ?h = "try_sub_monitor_services oe timer h" and ?n = "monitor_noperms oe (h_conn h)"
  have hub: "hub_after primary sv ?h = add_connection primary (c_id (h_conn h)) ?n sv"
    using assms(2,5,6) by (simp add: try_sub_monitor_services_def Let_def hub_after_def apply_sub_def)
  have conn: "h_conn ?h = (h_conn h)\<lparr>c_services_subed := True, c_auto_disconnect := timer\<rparr>"
    using assms(5,6) by (simp add: try_sub_monitor_services_def Let_def)
  have "server_inv (hub_after primary sv ?h)"
    unfolding hub using server_inv_exec[OF assms(1), of "HAdd primary (c_id (h_conn h)) ?n"] by simp
  moreover have "pred_option (\<lambda>b. subscribed (add_connection primary (c_id (h_conn h)) ?n sv) k (c_id (h_conn h)) = b)
      (wanted oe (h_conn h) k)" if "contains_service k sv" for k
    using wanted_noperms[of oe "h_conn h" k] add_connection_subscribed[OF assms(1) that, of primary "c_id (h_conn h)" ?n]
      assms(7) by (cases "wanted oe (h_conn h) k") auto
  ultimately show ?thesis
    using assms(3,4) by (auto simp: in_sync_def hub contains_add_connection conn)
qed

text \<open>A remote session: its start, and then what the peer and the user change.\<close>

datatype 'd session_op = PeerOption "'d option_message" | UserSwitch string bool

fun session_exec :: "('e, 's) opt_env \<Rightarrow> 'd session_op \<Rightarrow> ('d, 'p, 's) handler \<Rightarrow> ('d, 'p, 's) handler" where
  "session_exec oe (PeerOption om) h = handle_option oe om h"
| "session_exec oe (UserSwitch name b) h = switch_permission oe name b h"

lemma in_sync_exec:
  assumes "in_sync oe primary sv h" and "\<And>b. op \<noteq> UserSwitch ''keyboard'' b"
  shows "in_sync oe primary sv (session_exec oe op h)"
  using assms in_sync_remote[OF assms(1)]
  by (cases op) (auto simp: handle_option_def in_sync_update_options intro!: in_sync_switch_permission)

lemma in_sync_run:
  "in_sync oe primary sv h \<Longrightarrow> (\<And>b. UserSwitch ''keyboard'' b \<notin> set ops) \<Longrightarrow> in_sync oe primary sv (fold (session_exec oe) ops h)"
proof (induction ops arbitrary: h)
  case (Cons op ops)
  then show ?case using in_sync_exec[of oe primary sv h op] by auto
qed simp


definition sample_permissions :: permission_env where
  "sample_permissions = \<lparr>desktop_flutter = True, access_mode = ''full'', option_on = (\<lambda>_. False),
     permission_index = (\<lambda>_. 0)\<rparr>"

definition sample_session :: "(unit, nat, topmost_impl) handler" where
  "sample_session = \<lparr>h_conn = (connection_new sample_permissions 7 0 \<lparr>h_salt = [], h_challenge = []\<rparr> False None)
       \<lparr>c_authorized := True, authed_conn_type := Some Remote, c_enable_file_transfer := True\<rparr>,
     h_server = sample_server, h_privacy = None, h_out = []\<rparr>"

definition sample_opt_env :: "(topmost_env, topmost_impl) opt_env" where
  "sample_opt_env = \<lparr>oe_platform = Linux, oe_file_copy = True, oe_one_way = False, oe_one_way_file = False,
     oe_iq = (3, 2, 4), oe_time = 0, oe_version = (\<lambda>_. 0), oe_win10 = True, oe_whiteboard = True,
     oe_ops = topmost_ops, oe_reg = sample_registry, oe_capturer = [], oe_on = sample_topmost, oe_off = sample_topmost\<rparr>"

text \<open>\<^bold>\<open>C38\<close> (revoking the clipboard leaves the file clipboard).  Switching the clipboard permission off makes the file
  clipboard forbidden too, but the session keeps its subscription to it.\<close>

theorem file_clipboard_not_revoked:
  assumes "server_inv (hub_after primary sv h)" and "contains_service file_clipboard_name (hub_after primary sv h)"
    and "h' = switch_permission oe ''clipboard'' False h"
  shows "\<not> can_sub_file_clipboard_service one_way_file (h_conn h')
    \<and> subscribed (hub_after primary sv h') file_clipboard_name (c_id (h_conn h'))
      = subscribed (hub_after primary sv h) file_clipboard_name (c_id (h_conn h))"
  using fold_apply_sub[OF assms(1), of "[SendPermission PermClipboard False,
      Subscribe clipboard_name (can_sub_clipboard_service (oe_one_way oe) ((h_conn h)\<lparr>c_clipboard := False\<rparr>))]" primary
      "c_id (h_conn h)" file_clipboard_name] assms(2)
  by (simp add: assms(3) switch_permission_def Let_def can_sub_file_clipboard_service_def clipboard_enabled_def
      sub_of_def)

abbreviation sample_hub :: server where "sample_hub \<equiv> server_new 1000 True False True False"

abbreviation sample_started :: "(unit, nat, topmost_impl) handler" where
  "sample_started \<equiv> try_sub_monitor_services sample_opt_env None sample_session"

theorem file_clipboard_not_revoked_witness:
  "subscribed (hub_after 0 sample_hub (switch_permission sample_opt_env ''clipboard'' False sample_started)) file_clipboard_name 7
   \<and> \<not> can_sub_file_clipboard_service False (h_conn (switch_permission sample_opt_env ''clipboard'' False sample_started))"
proof -
  have a: "server_inv (hub_after 0 sample_hub sample_started)"
    "contains_service file_clipboard_name (hub_after 0 sample_hub sample_started)"
    "subscribed (hub_after 0 sample_hub sample_started) file_clipboard_name 7" "c_id (h_conn sample_started) = 7"
    "c_id (h_conn (switch_permission sample_opt_env ''clipboard'' False sample_started)) = 7"
    by code_simp+
  from file_clipboard_not_revoked[OF a(1,2) refl, of False sample_opt_env] a(3-5) show ?thesis by simp
qed

lemma sample_hub_unsubscribed: "\<not> subscribed sample_hub k 7"
proof -
  have "list_all (\<lambda>(k, s). \<not> is_subed 7 s) (services sample_hub)" by code_simp
  then show ?thesis by (auto simp: subscribed_def list_all_iff split: option.split dest!: map_of_SomeD)
qed


end
