(* ===== verification/Conn_Login.thy ===== *)
theory Conn_Login
  imports Conn_Options
begin

text \<open>
  The login of a connection (\<^verbatim>\<open>client/src/server/connection.rs\<close>): the permit, the kind of session asked for, the
  operating-system login of a terminal, the password with its failure limits, and the answer that makes the
  connection authorised.  \<open>sign_in\<close> holds what \<^verbatim>\<open>nestlink_auth\<close> reads when the permit is checked and when the
  login is answered; \<open>host_env\<close> what the code asks of the machine, the configuration and the network.  One
  reading of the clock stands for those of one message.  A handler returns whether the connection is kept.
\<close>

record 'c sign_in =
  si_crypto :: crypto
  si_json :: "u8 list \<Rightarrow> permit_claims option"
  si_of_json :: "string \<Rightarrow> envelope option"
  si_own_key :: "u8 list"
  si_now_s :: u64
  si_now :: ms
  si_auth :: "'c auth_state"
  si_confirm :: "any_error + unit"
  si_now_end :: ms
  si_auth_end :: "'c auth_state"
  si_error_text :: "any_error \<Rightarrow> string"
  si_ready_now :: ms
  si_ready_auth :: "'c auth_state"

record host_env =
  he_permissions :: permission_env
  he_own_id :: string
  he_now :: ms
  he_abr :: bool
  he_in_privacy_mode :: bool
  he_installed :: bool
  he_prelogin :: bool
  he_locked :: bool
  he_logon_ui :: "bool option"
  he_logon_screen_password :: bool
  he_is_ip_str :: "string \<Rightarrow> bool"
  he_is_domain_port_str :: "string \<Rightarrow> bool"
  he_desktop_user :: string
  he_start_desktop :: "string \<Rightarrow> string \<Rightarrow> string"
  he_logon_admin :: "string \<Rightarrow> string \<Rightarrow> bool option option"
  he_session_id :: "nat option"
  he_user_token :: "nat option"
  he_primary_token :: "nat \<Rightarrow> nat option"
  he_gate_busy :: bool
  he_connect :: "string \<Rightarrow> bool"
  he_service_user :: "string \<Rightarrow> bool option"
  he_login_screen_wayland :: bool
  he_display_server :: string
  he_display_server_known :: "string \<Rightarrow> bool"
  he_inited :: bool
  he_displays_error :: "string option"
  he_dir_exists :: "string \<Rightarrow> bool"
  he_remove_wallpaper :: bool
  he_share_rdp :: bool
  he_sessions :: "nat list"
  he_current_sid :: "nat option"
  he_auto_disconnect :: bool
  he_auto_disconnect_timeout :: "nat option"
  he_new_service_id :: string
  he_report_session :: bool
  he_scope_alarm :: bool
  he_scope_close :: bool
  he_flutter :: bool

definition LOGIN_MSG_DESKTOP_SESSION_NOT_READY :: string where
  "LOGIN_MSG_DESKTOP_SESSION_NOT_READY = ''Desktop session not ready''"
definition LOGIN_MSG_DESKTOP_SESSION_NOT_READY_PASSWORD_EMPTY :: string where
  "LOGIN_MSG_DESKTOP_SESSION_NOT_READY_PASSWORD_EMPTY = ''Desktop session not ready, password empty''"
definition LOGIN_MSG_DESKTOP_SESSION_NOT_READY_PASSWORD_WRONG :: string where
  "LOGIN_MSG_DESKTOP_SESSION_NOT_READY_PASSWORD_WRONG = ''Desktop session not ready, password wrong''"
definition LOGIN_MSG_PASSWORD_WRONG :: string where "LOGIN_MSG_PASSWORD_WRONG = ''Wrong Password''"
definition LOGIN_MSG_NO_PASSWORD_ACCESS :: string where "LOGIN_MSG_NO_PASSWORD_ACCESS = ''No Password Access''"
definition LOGIN_MSG_OFFLINE :: string where "LOGIN_MSG_OFFLINE = ''Offline''"
definition LOGIN_SCREEN_WAYLAND :: string where "LOGIN_SCREEN_WAYLAND = ''Wayland login screen is not supported''"
definition TERMINAL_OS_LOGIN_FAILED_MSG :: string where
  "TERMINAL_OS_LOGIN_FAILED_MSG = ''Incorrect username or password.''"

section \<open>Helpers\<close>

text \<open>A step either ends the handler with its answer or goes on.\<close>

definition flow :: "bool option \<times> 'h \<Rightarrow> ('h \<Rightarrow> bool \<times> 'h) \<Rightarrow> bool \<times> 'h" where
  "flow r k = (case r of (Some b, h) \<Rightarrow> (b, h) | (None, h) \<Rightarrow> k h)"

definition should_check_linux_headless_os_auth_before_desktop_start :: "bool \<Rightarrow> string \<Rightarrow> string \<Rightarrow> bool" where
  "should_check_linux_headless_os_auth_before_desktop_start is_headless_allowed username desktop_user \<longleftrightarrow>
     is_headless_allowed \<and> trim username \<noteq> [] \<and> desktop_user = []"

definition should_record_linux_headless_os_auth_failure :: "bool \<Rightarrow> string \<Rightarrow> string \<Rightarrow> bool" where
  "should_record_linux_headless_os_auth_failure is_headless_allowed username err_msg \<longleftrightarrow>
     is_headless_allowed \<and> trim username \<noteq> [] \<and> err_msg = LOGIN_MSG_PASSWORD_WRONG"

definition should_use_terminal_os_login_scope :: "platform \<Rightarrow> bool \<Rightarrow> string \<Rightarrow> bool" where
  "should_use_terminal_os_login_scope pf is_terminal os_login_username \<longleftrightarrow>
     pf = Windows \<and> is_terminal \<and> trim os_login_username \<noteq> []"

definition is_direct_ip_access :: "host_env \<Rightarrow> string \<Rightarrow> bool" where
  "is_direct_ip_access he peer \<longleftrightarrow> he_is_ip_str he peer \<or> he_is_domain_port_str he peer"

definition try_start_cm_ipc :: "('d, 'p, 's) handler \<Rightarrow> ('d, 'p, 's) handler" where
  "try_start_cm_ipc h =
     (if c_cm_ipc_started (h_conn h) then h
      else emit [StartCmIpc] (upd_conn (\<lambda>c. c\<lparr>c_cm_ipc_started := True\<rparr>) h))"

text \<open>The failure check and update on this connection's address.\<close>

definition conn_check_failure ::
    "host_env \<Rightarrow> failure_scope \<Rightarrow> ('d, 'p, 's) handler \<Rightarrow> (failure \<times> int) \<times> bool \<times> ('d, 'p, 's) handler" where
  "conn_check_failure he scope h =
     (case check_failure_with_scope (c_ip (h_conn h)) 0 scope (he_now he) (he_now he) (sv_failures (h_server h)) of
        ((ft, res), es, fs) \<Rightarrow> (ft, res, emit es (upd_server (\<lambda>s. s\<lparr>sv_failures := fs\<rparr>) h)))"

definition conn_update_failure ::
    "host_env \<Rightarrow> failure \<times> int \<Rightarrow> bool \<Rightarrow> failure_scope \<Rightarrow> ('d, 'p, 's) handler \<Rightarrow> ('d, 'p, 's) handler" where
  "conn_update_failure he ft remove scope h =
     upd_server (\<lambda>s. s\<lparr>sv_failures :=
       update_failure_with_scope (c_ip (h_conn h)) ft remove 0 scope (he_now he) (sv_failures s)\<rparr>) h"

section \<open>Terminal and port forward\<close>

definition handle_administrator_check ::
    "host_env \<Rightarrow> string \<Rightarrow> string \<Rightarrow> 'd connection \<Rightarrow> string option \<times> 'd connection" where
  "handle_administrator_check he username password c =
     (case he_logon_admin he username password of
        Some (Some True) \<Rightarrow> (None, c\<lparr>c_terminal_user_token := Some SelfUser\<rparr>)
      | _ \<Rightarrow> (Some TERMINAL_OS_LOGIN_FAILED_MSG, c))"

definition handle_installed_user :: "host_env \<Rightarrow> 'd connection \<Rightarrow> string option \<times> 'd connection" where
  "handle_installed_user he c =
     (case he_session_id he of
        None \<Rightarrow> (Some ''Failed to get current session id.'', c)
      | Some _ \<Rightarrow>
          (case he_user_token he of
             Some token \<Rightarrow>
               (None, c\<lparr>c_terminal_user_token := Some (CurrentLogonUser
                          (case he_primary_token he token of Some t \<Rightarrow> t | None \<Rightarrow> token))\<rparr>)
           | None \<Rightarrow> (Some ''Failed to get user token.'', c)))"

definition fill_terminal_user_token ::
    "platform \<Rightarrow> host_env \<Rightarrow> string \<Rightarrow> string \<Rightarrow> 'd connection \<Rightarrow> string option \<times> 'd connection" where
  "fill_terminal_user_token pf he username password c =
     (if pf \<noteq> Windows then (None, c\<lparr>c_terminal_user_token := Some SelfUser\<rparr>)
      else if username \<noteq> [] then handle_administrator_check he username password c
      else if he_prelogin he
      then (Some ''No active console user logged on, please connect and logon first.'', c\<lparr>c_terminal_user_token := None\<rparr>)
      else if he_installed he then handle_installed_user he c
      else (None, c\<lparr>c_terminal_user_token := Some SelfUser\<rparr>))"

text \<open>The rest of \<^verbatim>\<open>prepare_terminal_login_for_authorization\<close> once the failure limits allow the attempt; \<open>os\<close> is
  the failure entry of an operating-system login.\<close>

definition terminal_service_mismatch :: "host_env \<Rightarrow> 'd connection \<Rightarrow> bool" where
  "terminal_service_mismatch he c =
     (case (he_service_user he (c_terminal_service_id c), c_terminal_user_token c) of
        (Some is_user, Some t) \<Rightarrow> is_user \<noteq> (to_terminal_service_token t \<noteq> None)
      | _ \<Rightarrow> False)"

definition terminal_login_attempt ::
    "platform \<Rightarrow> host_env \<Rightarrow> string \<Rightarrow> (failure \<times> int) option \<Rightarrow> ('d, 'p, 's) handler \<Rightarrow> bool option \<times> ('d, 'p, 's) handler" where
  "terminal_login_attempt pf he username os h =
     (if pf = Windows \<and> os \<noteq> None \<and> try_acquire_os_credential_login_gate (he_gate_busy he) = None
      then (Some False, emit [LoginError ''Please try 1 minute later'', Sleep, PostAlarm TerminalOsLoginConcurrency] h)
      else
        case fill_terminal_user_token pf he username (os_password (c_lr (h_conn h))) (h_conn h) of
          (Some msg, c) \<Rightarrow>
            let h = h\<lparr>h_conn := c\<rparr>;
                h = (case os of Some ft \<Rightarrow> conn_update_failure he ft False TerminalOsLogin h | None \<Rightarrow> h)
            in (Some False, emit [LoginError msg, Sleep] h)
        | (None, c) \<Rightarrow>
            let h = h\<lparr>h_conn := c\<rparr>;
                h = (case os of Some ft \<Rightarrow> conn_update_failure he ft True TerminalOsLogin h | None \<Rightarrow> h)
            in if terminal_service_mismatch he (h_conn h)
               then (Some False, emit [LoginError ''Terminal service user mismatch detected.'', Sleep] h)
               else (None, if os \<noteq> None then try_start_cm_ipc h else h))"

definition prepare_terminal_login_for_authorization ::
    "platform \<Rightarrow> host_env \<Rightarrow> ('d, 'p, 's) handler \<Rightarrow> bool option \<times> ('d, 'p, 's) handler" where
  "prepare_terminal_login_for_authorization pf he h =
     (if \<not> c_terminal (h_conn h) \<or> c_terminal_user_token (h_conn h) \<noteq> None then (None, h)
      else let username = trim (os_username (c_lr (h_conn h))) in
        if should_use_terminal_os_login_scope pf (c_terminal (h_conn h)) username
        then (case conn_check_failure he TerminalOsLogin h of
                (ft, res, h) \<Rightarrow>
                  if \<not> res then (Some False, h) else terminal_login_attempt pf he username (Some ft) h)
        else terminal_login_attempt pf he username None h)"

definition normalize_port_forward_target :: "string \<Rightarrow> int \<Rightarrow> string \<times> bool" where
  "normalize_port_forward_target host port =
     (let is_rdp = host = ''RDP'' \<and> port = 0;
          (host, port) = (if is_rdp then (''localhost'', 3389) else (host, port));
          host = (if host = [] then ''localhost'' else host)
      in (host @ '':'' @ show_int port, is_rdp))"

definition connect_port_forward_if_needed :: "host_env \<Rightarrow> ('d, 'p, 's) handler \<Rightarrow> bool \<times> ('d, 'p, 's) handler" where
  "connect_port_forward_if_needed he h =
     (if c_port_forward_socket (h_conn h) then (True, h)
      else case lr_union (c_lr (h_conn h)) of
             Some (LoginPortForward host port) \<Rightarrow>
               let (addr, is_rdp) = normalize_port_forward_target host port;
                   h = upd_conn (\<lambda>c. c\<lparr>c_port_forward_address := addr\<rparr>) h
               in if he_connect he addr then (True, upd_conn (\<lambda>c. c\<lparr>c_port_forward_socket := True\<rparr>) h)
                  else (False, emit [LoginError (''Failed to access remote '' @ (if is_rdp then ''RDP'' else addr)
                                @ ''. Please make sure it is reachable/open.'')] h)
           | _ \<Rightarrow> (True, h))"

section \<open>The answer to a login\<close>

definition logon_auth_type :: "('d, 'z) connection_scheme \<Rightarrow> nat \<times> auth_conn_type" where
  "logon_auth_type c =
     (if c_file_transfer c \<noteq> None then (1, FileTransfer)
      else if c_port_forward_socket c then (2, PortForward)
      else if c_view_camera c then (3, ViewCamera)
      else if c_terminal c then (4, Terminal)
      else (0, Remote))"

definition logon_audit :: "nat \<Rightarrow> ('d, 'z) connection_scheme \<Rightarrow> conn_effect" where
  "logon_audit t c =
     PostConnAudit t
       (if c_primary_auth c \<noteq> NoPrimaryAuth then Some (primary_auth_as_i64 (c_primary_auth c)) else None)
       (if c_two_factor c \<noteq> NoTwoFactor then Some (two_factor_as_i64 (c_two_factor c)) else None)"

definition logon_register :: "host_env \<Rightarrow> ('e, 's) opt_env \<Rightarrow> ('d, 'p, 's) handler \<Rightarrow> ('d, 'p, 's) handler" where
  "logon_register he oe h =
     (let h = upd_conn (\<lambda>c. c\<lparr>c_authorized := True\<rparr>) h; c = h_conn h;
          (conn_type, auth_conn_type) = logon_auth_type c;
          h = upd_server (authed_conn_id_new (oe_version oe) (he_abr he) (he_now he) (c_id c) auth_conn_type
                (session_key_of c) (lr_version (c_lr c)) (lr_my_platform (c_lr c))) h;
          h = upd_conn (\<lambda>c. normalize_conn_audit_auth_fields (c\<lparr>authed_conn_type := Some auth_conn_type\<rparr>)) h;
          h = emit [logon_audit conn_type (h_conn h)] h
      in if \<not> c_homedesk_session (h_conn h)
         then upd_conn (\<lambda>c. c\<lparr>c_homedesk_session := he_report_session he\<rparr>) h else h)"

definition handle_windows_specific_session :: "host_env \<Rightarrow> ('e, 's) opt_env \<Rightarrow> ('d, 'p, 's) handler \<Rightarrow> bool" where
  "handle_windows_specific_session he oe h =
     (case he_current_sid he of
        None \<Rightarrow> False
      | Some current_sid \<Rightarrow>
          he_installed he \<and> he_share_rdp he \<and> non_port_forward_conn_count (h_server h) = 1
          \<and> length (he_sessions he) > 1 \<and> list_ex (\<lambda>sid. sid = current_sid) (he_sessions he)
          \<and> oe_version oe (lr_version (c_lr (h_conn h))) \<ge> oe_version oe ''1.2.4'')"

definition update_codec_on_login :: "('d, 'p, 's) handler \<Rightarrow> ('d, 'p, 's) handler" where
  "update_codec_on_login h =
     emit [UpdateCodec (case lr_option (c_lr (h_conn h)) of
                          Some om \<Rightarrow> om_supported_decoding om \<noteq> None | None \<Rightarrow> False)] h"

definition on_remote_authorized :: "platform \<Rightarrow> host_env \<Rightarrow> ('d, 'p, 's) handler \<Rightarrow> ('d, 'p, 's) handler" where
  "on_remote_authorized pf he h =
     (let h = update_codec_on_login h in
      if pf \<noteq> MacOS \<and> he_remove_wallpaper he then upd_server (\<lambda>s. s\<lparr>sv_wallpaper_removed := True\<rparr>) h else h)"

text \<open>The peer info of each kind of session and whether the monitor services may be subscribed.\<close>

definition logon_peer_info :: "platform \<Rightarrow> host_env \<Rightarrow> ('d, 'p, 's) handler \<Rightarrow> conn_effect \<times> bool \<times> ('d, 'p, 's) handler" where
  "logon_peer_info pf he h =
     (let c = h_conn h in
      if c_file_transfer c \<noteq> None \<or> c_terminal c then (LoginPeerInfo, False, h)
      else if c_view_camera c then (LoginPeerInfo, False, update_codec_on_login h)
      else let h = (if he_inited he then emit [SendDisplayInited] h else h) in
        case he_displays_error he of
          Some err \<Rightarrow> (LoginResponseError err, False, on_remote_authorized pf he h)
        | None \<Rightarrow> (LoginPeerInfo, True, on_remote_authorized pf he h))"

definition init_terminal_service :: "host_env \<Rightarrow> ('d, 'p, 's) handler \<Rightarrow> ('d, 'p, 's) handler" where
  "init_terminal_service he h =
     (if c_terminal_user_token (h_conn h) = None then h
      else emit [InitTerminal]
             (upd_conn (\<lambda>c. if c_terminal_service_id c = [] then c\<lparr>c_terminal_service_id := he_new_service_id he\<rparr> else c) h))"

definition logon_start_session ::
    "host_env \<Rightarrow> ('e, 's) opt_env \<Rightarrow> bool \<Rightarrow> bool \<Rightarrow> ('d, 'p, 's) handler \<Rightarrow> ('d, 'p, 's) handler" where
  "logon_start_session he oe wait_session_id_confirm sub_service h =
     (case c_file_transfer (h_conn h) of
        Some (dir, show_hidden) \<Rightarrow>
          let h = upd_conn (\<lambda>c. c\<lparr>c_keyboard := False\<rparr>) h;
              dir = (if dir \<noteq> [] \<and> he_dir_exists he dir then dir else [])
          in if \<not> wait_session_id_confirm then emit [ReadDir dir show_hidden] h
             else upd_conn (\<lambda>c. c\<lparr>c_delayed_read_dir := Some (dir, show_hidden)\<rparr>) h
      | None \<Rightarrow>
          if c_terminal (h_conn h) then init_terminal_service he (upd_conn (\<lambda>c. c\<lparr>c_keyboard := False\<rparr>) h)
          else if c_view_camera (h_conn h)
          then let h = (if \<not> wait_session_id_confirm then try_sub_camera_displays h else h)
               in emit [SendPermission PermKeyboard False] (upd_conn (\<lambda>c. c\<lparr>c_keyboard := False\<rparr>) h)
          else if sub_service \<and> \<not> wait_session_id_confirm
          then try_sub_monitor_services oe
                 (get_auto_disconenct_timer (he_auto_disconnect he) (he_auto_disconnect_timeout he) (he_now he)) h
          else h)"

definition linux_display_error :: "host_env \<Rightarrow> string" where
  "linux_display_error he =
     (if he_login_screen_wayland he then LOGIN_SCREEN_WAYLAND
      else if \<not> he_display_server_known he (he_display_server he)
      then ''Unsupported display server type '' @ [CHR 0x22] @ he_display_server he @ [CHR 0x22]
             @ '', x11 or wayland expected''
      else [])"

text \<open>The connection becomes authorised here.\<close>

definition logon_answer :: "host_env \<Rightarrow> ('e, 's) opt_env \<Rightarrow> ('d, 'p, 's) handler \<Rightarrow> ('d, 'p, 's) handler" where
  "logon_answer he oe h =
     (let h = logon_register he oe h in
      if c_port_forward_socket (h_conn h) then emit [LoginPeerInfo] h
      else if oe_platform oe = Linux \<and> is_remote (h_conn h) \<and> linux_display_error he \<noteq> []
      then emit [LoginResponseError (linux_display_error he)] h
      else
        let wait_session_id_confirm =
              (oe_platform oe = Windows \<and> \<not> c_terminal (h_conn h) \<and> handle_windows_specific_session he oe h);
            (res, sub_service, h) = logon_peer_info (oe_platform oe) he h;
            h = update_scoped_login_options oe (emit [res] h)
        in logon_start_session he oe wait_session_id_confirm sub_service h)"

definition send_logon_response_and_keep_alive ::
    "host_env \<Rightarrow> ('e, 's) opt_env \<Rightarrow> 'c sign_in \<Rightarrow> ('d, 'p, 's) handler \<Rightarrow> bool \<times> ('d, 'p, 's) handler" where
  "send_logon_response_and_keep_alive he oe si h =
     (if \<not> ready (si_ready_now si) (si_ready_auth si) \<or> c_nestlink_permit (h_conn h) = None
      then (False, emit [LoginErrorLocal SignInForPermit] h)
      else if c_authorized (h_conn h) then (True, h)
      else flow (prepare_terminal_login_for_authorization (oe_platform oe) he h) (\<lambda>h.
        case connect_port_forward_if_needed he h of
          (False, h) \<Rightarrow> (False, h)
        | (True, h) \<Rightarrow> (True, logon_answer he oe h)))"

section \<open>The login request\<close>

definition reset_session_scope_for_login :: "('d, 'z) connection_scheme \<Rightarrow> ('d, 'z) connection_scheme" where
  "reset_session_scope_for_login c = c\<lparr>c_file_transfer := None, c_view_camera := False, c_terminal := False,
     c_port_forward_address := [], c_terminal_persistent := False\<rparr>"

definition handle_login_request_without_validation ::
    "'d login_request \<Rightarrow> ('d, 'z) connection_scheme \<Rightarrow> ('d, 'z) connection_scheme" where
  "handle_login_request_without_validation lr c =
     (let c = c\<lparr>c_lr := lr, c_peer_argb := str2color (lf_my_id lr @ lr_my_platform lr) 0xff\<rparr>;
          c = (case lr_option lr of Some om \<Rightarrow> c\<lparr>c_options_in_login := Some om\<rparr> | None \<Rightarrow> c)
      in c\<lparr>c_video_ack_required := lr_video_ack_required lr\<rparr>)"

definition login_permit :: "host_env \<Rightarrow> 'c sign_in \<Rightarrow> 'd login_request \<Rightarrow> any_error + session_guard" where
  "login_permit he si lr =
     accept (si_crypto si) (si_json si) (si_of_json si) (he_own_id he) (si_own_key si) (si_now_s si) (si_now si)
       (si_auth si) (login_fields.truncate lr) (si_confirm si) (si_now_end si) (si_auth_end si)"

definition permit_step ::
    "host_env \<Rightarrow> 'c sign_in \<Rightarrow> 'd login_request \<Rightarrow> ('d, 'p, 's) handler \<Rightarrow> bool option \<times> ('d, 'p, 's) handler" where
  "permit_step he si lr h =
     (if c_nestlink_permit (h_conn h) \<noteq> None then (None, h)
      else case login_permit he si lr of
             Inr g \<Rightarrow> (None, upd_conn (\<lambda>c. c\<lparr>c_nestlink_permit := Some g\<rparr>) h)
           | Inl e \<Rightarrow> (Some False, emit [LoginError (si_error_text si e)] h))"

definition refuse :: "string \<Rightarrow> ('d, 'p, 's) handler \<Rightarrow> bool option \<times> ('d, 'p, 's) handler" where
  "refuse msg h = (Some False, emit [LoginError msg, Sleep] h)"

definition kind_step ::
    "platform \<Rightarrow> host_env \<Rightarrow> 'd login_request \<Rightarrow> ('d, 'p, 's) handler \<Rightarrow> bool option \<times> ('d, 'p, 's) handler" where
  "kind_step pf he lr h =
     (let allowed = (\<lambda>opt. permission (he_permissions he) opt (c_control_permissions (h_conn h))) in
      case lr_union lr of
        Some (LoginFileTransfer dir show_hidden) \<Rightarrow>
          if \<not> allowed EnableFileTransfer then refuse ''No permission of file transfer'' h
          else (None, upd_conn (\<lambda>c. c\<lparr>c_file_transfer := Some (dir, show_hidden)\<rparr>) h)
      | Some LoginViewCamera \<Rightarrow>
          if \<not> allowed EnableCamera then refuse ''No permission of viewing camera'' h
          else (None, upd_conn (\<lambda>c. c\<lparr>c_view_camera := True\<rparr>) h)
      | Some (LoginTerminal service_id) \<Rightarrow>
          if \<not> allowed EnableTerminal then refuse ''No permission of terminal'' h
          else if pf = Windows \<and> os_username lr \<noteq> [] \<and> \<not> he_installed he
          then refuse ''Supported only in the installed version.'' h
          else (None, upd_conn (\<lambda>c.
                 let c = c\<lparr>c_terminal := True\<rparr>;
                     c = (case c_options_in_login c of
                            Some om \<Rightarrow> c\<lparr>c_terminal_persistent := om_terminal_persistent om = Known Yes\<rparr>
                          | None \<Rightarrow> c)
                 in c\<lparr>c_terminal_service_id := service_id\<rparr>) h)
      | Some (LoginPortForward host port) \<Rightarrow>
          if \<not> allowed EnableTunnel then refuse ''No permission of IP tunneling'' h
          else (None, upd_conn (\<lambda>c. c\<lparr>c_port_forward_address := fst (normalize_port_forward_target host port)\<rparr>) h)
      | None \<Rightarrow>
          (case check_privacy_mode_on (he_in_privacy_mode he) h of
             (False, h) \<Rightarrow> (Some False, h)
           | (True, h) \<Rightarrow> (None, h)))"

definition target_step ::
    "platform \<Rightarrow> host_env \<Rightarrow> 'd login_request \<Rightarrow> ('d, 'p, 's) handler \<Rightarrow> bool option \<times> ('d, 'p, 's) handler" where
  "target_step pf he lr h =
     (if \<not> is_direct_ip_access he (lr_username lr) \<and> lr_username lr \<noteq> he_own_id he
      then (Some False, emit [LoginError LOGIN_MSG_OFFLINE] h)
      else if pf = Windows \<and> c_terminal (h_conn h) \<and> trim (os_username lr) = [] \<and> he_prelogin he
      then refuse ''No active console user logged on, please connect and logon first.'' h
      else (None, if \<not> should_use_terminal_os_login_scope pf (c_terminal (h_conn h)) (os_username lr)
                  then try_start_cm_ipc h else h))"

text \<open>The desktop of a headless machine: the message of starting it.\<close>

definition try_start_desktop :: "host_env \<Rightarrow> bool \<Rightarrow> (string \<times> string) option \<Rightarrow> string" where
  "try_start_desktop he is_headless_allowed os_login =
     (if is_headless_allowed
      then (case os_login of Some (u, p) \<Rightarrow> he_start_desktop he u p | None \<Rightarrow> he_start_desktop he [] [])
      else [])"

definition desktop_error :: "platform \<Rightarrow> host_env \<Rightarrow> 'd login_request \<Rightarrow> ('d, 'z) connection_scheme \<Rightarrow> string" where
  "desktop_error pf he lr c = (if pf = Linux then try_start_desktop he (c_headless_allowed c) (lr_os_login lr) else [])"

definition desktop_check ::
    "platform \<Rightarrow> host_env \<Rightarrow> 'd login_request \<Rightarrow> ('d, 'p, 's) handler \<Rightarrow> bool option \<times> ('d, 'p, 's) handler" where
  "desktop_check pf he lr h =
     (if pf = Linux \<and> should_check_linux_headless_os_auth_before_desktop_start (c_headless_allowed (h_conn h))
           (os_username lr) (he_desktop_user he)
      then (case conn_check_failure he DefaultScope h of (_, res, h) \<Rightarrow> if \<not> res then (Some True, h) else (None, h))
      else (None, h))"

definition desktop_step ::
    "platform \<Rightarrow> host_env \<Rightarrow> 'd login_request \<Rightarrow> string \<Rightarrow> ('d, 'p, 's) handler \<Rightarrow> bool option \<times> ('d, 'p, 's) handler" where
  "desktop_step pf he lr err_msg h =
     (if err_msg \<noteq> [] \<and> err_msg \<noteq> LOGIN_MSG_DESKTOP_SESSION_NOT_READY
      then if pf = Linux \<and> should_record_linux_headless_os_auth_failure (c_headless_allowed (h_conn h)) (os_username lr) err_msg
           then (case conn_check_failure he DefaultScope h of
                   (ft, res, h) \<Rightarrow>
                     if \<not> res then (Some True, h)
                     else (Some True, emit [LoginError err_msg] (conn_update_failure he ft False DefaultScope h)))
           else (Some True, emit [LoginError err_msg] h)
      else (None, h))"

definition is_logon :: "platform \<Rightarrow> host_env \<Rightarrow> bool" where
  "is_logon pf he \<longleftrightarrow> he_prelogin he \<or> he_locked he \<or> pf = Windows \<and> he_logon_ui he = Some True"

definition allow_logon_screen_password :: "platform \<Rightarrow> host_env \<Rightarrow> bool" where
  "allow_logon_screen_password pf he \<longleftrightarrow> he_logon_screen_password he \<and> is_logon pf he"

text \<open>Whether the user of the controlled machine has to accept the connection.\<close>

definition click_required :: "'p password_api \<Rightarrow> bool \<Rightarrow> 'p \<Rightarrow> bool" where
  "click_required pw allow_logon p \<longleftrightarrow>
     approve_mode pw p = ApproveClick \<and> \<not> allow_logon \<or> approve_mode pw p = ApproveBoth \<and> \<not> has_valid_password pw p"

text \<open>The operating-system login of a terminal before the connection manager asks the user.\<close>

definition os_login_first ::
    "platform \<Rightarrow> host_env \<Rightarrow> 'd login_request \<Rightarrow> ('d, 'p, 's) handler \<Rightarrow> bool option \<times> ('d, 'p, 's) handler" where
  "os_login_first pf he lr h =
     (if should_use_terminal_os_login_scope pf (c_terminal (h_conn h)) (os_username lr)
      then prepare_terminal_login_for_authorization pf he h else (None, h))"

definition click_login ::
    "host_env \<Rightarrow> ('e, 's) opt_env \<Rightarrow> 'd login_request \<Rightarrow> ('d, 'p, 's) handler \<Rightarrow> bool \<times> ('d, 'p, 's) handler" where
  "click_login he oe lr h =
     flow (os_login_first (oe_platform oe) he lr h) (\<lambda>h.
       let h = try_start_cm (lf_my_id lr) (lr_my_name lr) False h
       in (True, if oe_version oe (lr_version lr) \<ge> oe_version oe ''1.2.0''
                 then emit [LoginError LOGIN_MSG_NO_PASSWORD_ACCESS] h else h))"

text \<open>Waiting for the desktop and its connection manager on a headless machine has no effect here.\<close>

definition admit ::
    "host_env \<Rightarrow> ('e, 's) opt_env \<Rightarrow> 'c sign_in \<Rightarrow> 'd login_request \<Rightarrow> string \<Rightarrow> ('d, 'p, 's) handler
       \<Rightarrow> bool \<times> ('d, 'p, 's) handler" where
  "admit he oe si lr err_msg h =
     (if err_msg = []
      then (case send_logon_response_and_keep_alive he oe si h of
              (False, h) \<Rightarrow> (False, h)
            | (True, h) \<Rightarrow> (True, try_start_cm (lf_my_id lr) (lr_my_name lr) (c_authorized (h_conn h)) h))
      else (True, emit [LoginError err_msg] h))"

definition empty_password_login ::
    "host_env \<Rightarrow> ('e, 's) opt_env \<Rightarrow> 'd login_request \<Rightarrow> string \<Rightarrow> ('d, 'p, 's) handler \<Rightarrow> bool \<times> ('d, 'p, 's) handler" where
  "empty_password_login he oe lr err_msg h =
     (if err_msg = []
      then flow (os_login_first (oe_platform oe) he lr h) (\<lambda>h. (True, try_start_cm (lf_my_id lr) (lr_my_name lr) False h))
      else (True, emit [LoginError LOGIN_MSG_DESKTOP_SESSION_NOT_READY_PASSWORD_EMPTY] h))"

definition conn_validate_password ::
    "host_env \<Rightarrow> 'p password_api \<Rightarrow> bool \<Rightarrow> ('d, 'p, 's) handler \<Rightarrow> bool \<times> ('d, 'p, 's) handler" where
  "conn_validate_password he pw allow_permanent_password h =
     (let c = h_conn h in
      case validate_password pw (c_hash c) (lr_password (c_lr c)) (he_now he) (session_key_of c)
             allow_permanent_password (h_server h) of
        (Some a, s) \<Rightarrow> (True, h\<lparr>h_server := s, h_conn := c\<lparr>c_primary_auth := a\<rparr>\<rparr>)
      | (None, s) \<Rightarrow> (False, h\<lparr>h_server := s\<rparr>))"

definition password_login ::
    "host_env \<Rightarrow> ('e, 's) opt_env \<Rightarrow> 'p password_api \<Rightarrow> 'c sign_in \<Rightarrow> 'd login_request \<Rightarrow> string
       \<Rightarrow> ('d, 'p, 's) handler \<Rightarrow> bool \<times> ('d, 'p, 's) handler" where
  "password_login he oe pw si lr err_msg h =
     (case conn_check_failure he DefaultScope h of
        (ft, res, h) \<Rightarrow>
          if \<not> res then (True, h)
          else case conn_validate_password he pw (allow_logon_screen_password (oe_platform oe) he) h of
                 (False, h) \<Rightarrow>
                   let h = conn_update_failure he ft False DefaultScope h;
                       h = upd_server (check_update_temporary_password pw False) h
                   in (True,
                       if err_msg = []
                       then try_start_cm (lf_my_id lr) (lr_my_name lr) False (emit [LoginError LOGIN_MSG_PASSWORD_WRONG] h)
                       else emit [LoginError LOGIN_MSG_DESKTOP_SESSION_NOT_READY_PASSWORD_WRONG] h)
               | (True, h) \<Rightarrow> admit he oe si lr err_msg (conn_update_failure he ft True DefaultScope h))"

definition conn_is_recent_session :: "host_env \<Rightarrow> 'p password_api \<Rightarrow> ('d, 'p, 's) handler \<Rightarrow> bool \<times> ('d, 'p, 's) handler" where
  "conn_is_recent_session he pw h =
     (let c = h_conn h in
      case is_recent_session pw (c_hash c) (lr_password (c_lr c)) (he_now he) (session_key_of c) False (h_server h) of
        (recent, s) \<Rightarrow>
          (recent, h\<lparr>h_server := s, h_conn := (if recent then c\<lparr>c_primary_auth := TemporaryPassword\<rparr> else c)\<rparr>))"

definition decide_login ::
    "host_env \<Rightarrow> ('e, 's) opt_env \<Rightarrow> 'p password_api \<Rightarrow> 'c sign_in \<Rightarrow> 'd login_request \<Rightarrow> string
       \<Rightarrow> ('d, 'p, 's) handler \<Rightarrow> bool \<times> ('d, 'p, 's) handler" where
  "decide_login he oe pw si lr err_msg h =
     (if click_required pw (allow_logon_screen_password (oe_platform oe) he) (sv_passwords (h_server h))
      then click_login he oe lr h
      else case conn_is_recent_session he pw h of
             (True, h) \<Rightarrow> admit he oe si lr err_msg h
           | (False, h) \<Rightarrow>
               if lr_password lr = [] then empty_password_login he oe lr err_msg h
               else password_login he oe pw si lr err_msg h)"

definition handle_login ::
    "host_env \<Rightarrow> ('e, 's) opt_env \<Rightarrow> 'p password_api \<Rightarrow> 'c sign_in \<Rightarrow> 'd login_request
       \<Rightarrow> ('d, 'p, 's) handler \<Rightarrow> bool \<times> ('d, 'p, 's) handler" where
  "handle_login he oe pw si lr h =
     flow (permit_step he si lr h) (\<lambda>h.
       let h = upd_conn (handle_login_request_without_validation lr) h in
       if c_authorized (h_conn h) then (True, h)
       else let h = upd_conn reset_session_scope_for_login h; pf = oe_platform oe in
         flow (kind_step pf he lr h) (\<lambda>h.
         flow (target_step pf he lr h) (\<lambda>h.
         flow (desktop_check pf he lr h) (\<lambda>h.
           let err_msg = desktop_error pf he lr (h_conn h) in
           flow (desktop_step pf he lr err_msg h) (\<lambda>h. decide_login he oe pw si lr err_msg h)))))"

section \<open>Messages\<close>

definition handle_authorized_scope_violation ::
    "host_env \<Rightarrow> string \<Rightarrow> ('d, 'p, 's) handler \<Rightarrow> bool \<times> ('d, 'p, 's) handler" where
  "handle_authorized_scope_violation he message h =
     (let conn_type = conn_type_name (h_conn h);
          is_first = message \<notin> scope_violation_messages (h_conn h);
          h = upd_conn (\<lambda>c. c\<lparr>scope_violation_messages := insert message (scope_violation_messages c)\<rparr>) h;
          h = (if is_first \<and> he_scope_alarm he then emit [PostScopeAlarm conn_type message] h else h)
      in if he_scope_close he
         then (False, on_close (he_flutter he) True
                        (send_close_reason_no_retry (close_reason ''Connection not allowed'') h))
         else (True, h))"

text \<open>The answer to a delay probe.  The arithmetic of the quality control can panic, which is \<open>None\<close>.\<close>

definition test_delay_step ::
    "host_env \<Rightarrow> ('e, 's) opt_env \<Rightarrow> bool \<Rightarrow> ('d, 'p, 's) handler \<Rightarrow> (bool \<times> ('d, 'p, 's) handler) option" where
  "test_delay_step he oe from_client h =
     (if from_client then Some (True, emit [SendTestDelayReply] h)
      else case c_last_test_delay (h_conn h) of
             None \<Rightarrow> Some (True, h)
           | Some tm \<Rightarrow>
               let new_delay = nat (he_now he - tm) mod 2 ^ 32 in
               map_option (\<lambda>q.
                   (True, upd_conn (\<lambda>c. c\<lparr>c_last_test_delay := None, c_network_delay := int new_delay\<rparr>)
                            (upd_server (\<lambda>s. s\<lparr>sv_qos := q\<rparr>) h)))
                 (user_network_delay (oe_platform oe = Linux) (c_id (h_conn h)) new_delay (he_now he) (sv_qos (h_server h))))"

definition is_login_request :: "('l, 'd) Conn_Types.message \<Rightarrow> bool" where
  "is_login_request msg = (case msg of Some (LoginRequest _) \<Rightarrow> True | _ \<Rightarrow> False)"

text \<open>\<open>dispatch\<close> handles the messages of an authorised session.\<close>

definition on_message ::
    "host_env \<Rightarrow> ('e, 's) opt_env \<Rightarrow> 'p password_api \<Rightarrow> 'c sign_in
       \<Rightarrow> (('d login_request, 'd) Conn_Types.message \<Rightarrow> ('d, 'p, 's) handler \<Rightarrow> (bool \<times> ('d, 'p, 's) handler) option)
       \<Rightarrow> ('d login_request, 'd) Conn_Types.message \<Rightarrow> ('d, 'p, 's) handler \<Rightarrow> (bool \<times> ('d, 'p, 's) handler) option" where
  "on_message he oe pw si dispatch msg h =
     (case msg of
        Some (Misc (Some (CloseReason _))) \<Rightarrow>
          Some (False, upd_server (check_remove_session (c_id (h_conn h)) (session_key_of (h_conn h)))
                         (on_close (he_flutter he) True h))
      | _ \<Rightarrow>
        if c_authorized (h_conn h) \<and> is_login_request msg then Some (True, h)
        else
          case (if c_authorized (h_conn h) then authorized_scope_violation (oe_platform oe = Windows) (h_conn h) msg else None) of
            Some message \<Rightarrow> Some (handle_authorized_scope_violation he message h)
          | None \<Rightarrow>
              (case msg of
                 Some (LoginRequest lr) \<Rightarrow> Some (handle_login he oe pw si lr h)
               | Some (TestDelay from_client) \<Rightarrow> test_delay_step he oe from_client h
               | Some SwitchSidesResponse \<Rightarrow> Some (False, emit [LoginErrorLocal SwitchNeedsPermit] h)
               | _ \<Rightarrow> if c_authorized (h_conn h) \<and> \<not> c_port_forward_socket (h_conn h) then dispatch msg h
                      else Some (True, h)))"

section \<open>Properties\<close>

subsection \<open>What the steps leave alone\<close>

lemma flow_cases:
  assumes "flow r k = (b, h')"
  obtains (stop) "r = (Some b, h')" | (go) h1 where "r = (None, h1)" and "k h1 = (b, h')"
  using assms by (auto simp: flow_def split: prod.splits option.splits)

text \<open>What the decision about a login depends on.\<close>

definition login_view :: "('d, 'p, 's) handler \<Rightarrow> _" where
  "login_view h = (let c = h_conn h; s = h_server h in
     ((c_lr c, c_hash c, c_ip c, c_authorized c, c_nestlink_permit c, c_port_forward_socket c),
      (c_file_transfer c, c_view_camera c, c_terminal c), (sv_sessions s, sv_passwords s, sv_failures s)))"

definition core :: "('d, 'z) connection_scheme \<Rightarrow> _" where
  "core c = (authed_conn_type c, c_authorized c, c_nestlink_permit c, c_id c, c_lr c)"

lemma emit_view [simp]: "login_view (emit es h) = login_view h"
  by (simp add: login_view_def emit_def)

lemma cm_view [simp]: "login_view (try_start_cm_ipc h) = login_view h" "login_view (try_start_cm p n a h) = login_view h"
  by (simp_all add: login_view_def try_start_cm_ipc_def try_start_cm_def emit_def upd_conn_def Let_def)

lemma check_default_view:
  "conn_check_failure he DefaultScope h = (ft, res, h1) \<Longrightarrow> login_view h1 = login_view h"
  by (auto simp: conn_check_failure_def check_failure_with_scope_def Let_def upd_server_def emit_def login_view_def
      split: prod.splits)

lemma check_default_result:
  "conn_check_failure he DefaultScope h = (ft, res, h1) \<Longrightarrow>
     fst (check_failure_with_scope (c_ip (h_conn h)) 0 DefaultScope (he_now he) (he_now he) (sv_failures (h_server h))) = (ft, res)"
  by (auto simp: conn_check_failure_def split: prod.splits)

lemma target_step_view: "target_step pf he lr h = (None, h1) \<Longrightarrow> login_view h1 = login_view h"
  by (auto simp: target_step_def refuse_def split: if_splits)

lemma desktop_check_view: "desktop_check pf he lr h = (None, h1) \<Longrightarrow> login_view h1 = login_view h"
  by (auto simp: desktop_check_def dest: check_default_view split: if_splits prod.splits)

lemma desktop_step_view: "desktop_step pf he lr m h = (None, h1) \<Longrightarrow> login_view h1 = login_view h"
  by (auto simp: desktop_step_def split: if_splits prod.splits)

text \<open>A step that ends the handler leaves the connection unauthorised.\<close>

lemmas conn_simps = emit_def upd_conn_def upd_server_def

lemma steps_authorized [simp]:
  "c_authorized (h_conn (try_start_cm_ipc h)) = c_authorized (h_conn h)"
  "c_authorized (h_conn (try_start_cm p n a h)) = c_authorized (h_conn h)"
  "c_authorized (h_conn (conn_update_failure he ft rm sc h)) = c_authorized (h_conn h)"
  by (simp_all add: try_start_cm_ipc_def try_start_cm_def conn_update_failure_def conn_simps Let_def)

lemma check_authorized: "conn_check_failure he sc h = (ft, res, h1) \<Longrightarrow> h_conn h1 = h_conn h"
  by (auto simp: conn_check_failure_def conn_simps split: prod.splits)

lemma fill_token_authorized:
  "fill_terminal_user_token pf he u p c = (r, c1) \<Longrightarrow> c1 = c\<lparr>c_terminal_user_token := c_terminal_user_token c1\<rparr>"
  by (auto simp: fill_terminal_user_token_def handle_administrator_check_def handle_installed_user_def
      split: if_splits option.splits bool.splits)

lemma prepare_conn:
  "prepare_terminal_login_for_authorization pf he h = (r, h1) \<Longrightarrow>
     h_conn h1 = (h_conn h)\<lparr>c_terminal_user_token := c_terminal_user_token (h_conn h1),
                            c_cm_ipc_started := c_cm_ipc_started (h_conn h1)\<rparr>"
  by (auto simp: prepare_terminal_login_for_authorization_def terminal_login_attempt_def Let_def try_start_cm_ipc_def
      conn_update_failure_def dest!: fill_token_authorized check_authorized
      split: if_splits prod.splits option.splits)

lemma prepare_core:
  assumes "prepare_terminal_login_for_authorization pf he h = (r, h1)"
  shows "core (h_conn h1) = core (h_conn h)" "c_port_forward_socket (h_conn h1) = c_port_forward_socket (h_conn h)"
    "c_file_transfer (h_conn h1) = c_file_transfer (h_conn h)" "c_view_camera (h_conn h1) = c_view_camera (h_conn h)"
    "c_terminal (h_conn h1) = c_terminal (h_conn h)"
  by (subst prepare_conn[OF assms], simp add: core_def)+

lemma connect_conn:
  assumes "connect_port_forward_if_needed he h = (b, h1)"
  shows "h_conn h1 = (h_conn h)\<lparr>c_port_forward_address := c_port_forward_address (h_conn h1),
                                c_port_forward_socket := c_port_forward_socket (h_conn h1)\<rparr>"
    and "b \<Longrightarrow> \<not> c_port_forward_socket (h_conn h) \<Longrightarrow>
           c_port_forward_socket (h_conn h1) \<longleftrightarrow> (\<exists>host port. lr_union (c_lr (h_conn h)) = Some (LoginPortForward host port))"
  using assms
  by (auto simp: connect_port_forward_if_needed_def Let_def split: if_splits prod.splits option.splits login_union.splits)

lemma core_upd [simp]:
  "core (c\<lparr>c_lock_after_session_end := x0\<rparr>) = core c" "core (c\<lparr>c_show_remote_cursor := x1\<rparr>) = core c"
  "core (c\<lparr>c_follow_remote_cursor := x2\<rparr>) = core c" "core (c\<lparr>c_follow_remote_window := x3\<rparr>) = core c"
  "core (c\<lparr>c_disable_audio := x4\<rparr>) = core c" "core (c\<lparr>c_enable_file_transfer := x5\<rparr>) = core c"
  "core (c\<lparr>c_disable_clipboard := x6\<rparr>) = core c" "core (c\<lparr>c_disable_keyboard := x7\<rparr>) = core c"
  "core (c\<lparr>c_terminal_persistent := x8\<rparr>) = core c" "core (c\<lparr>c_show_my_cursor := x9\<rparr>) = core c"
  "core (c\<lparr>c_options_in_login := x10\<rparr>) = core c" "core (c\<lparr>c_keyboard := x11\<rparr>) = core c"
  "core (c\<lparr>c_delayed_read_dir := x12\<rparr>) = core c" "core (c\<lparr>c_terminal_service_id := x13\<rparr>) = core c"
  "core (c\<lparr>c_services_subed := x14\<rparr>) = core c" "core (c\<lparr>c_auto_disconnect := x15\<rparr>) = core c"
  "core (c\<lparr>c_homedesk_session := x16\<rparr>) = core c" "core (c\<lparr>c_two_factor := x17\<rparr>) = core c"
  by (simp_all add: core_def)

lemma on_set_core: "(\<And>b. core (h_conn (f b h)) = core (h_conn h)) \<Longrightarrow> core (h_conn (on_set q f h)) = core (h_conn h)"
  by (simp add: on_set_def split: option.split)

lemma privacy_core:
  "core (h_conn (turn_on_privacy oe k h)) = core (h_conn h)" "core (h_conn (conn_turn_off oe h)) = core (h_conn h)"
  by (simp_all add: turn_on_privacy_def conn_turn_off_def Let_def split_beta)

lemma options_core:
  "core (h_conn (opt_quality oe om h)) = core (h_conn h)" "core (h_conn (opt_fps om h)) = core (h_conn h)"
  "core (h_conn (opt_codec om h)) = core (h_conn h)" "core (h_conn (opt_lock om h)) = core (h_conn h)"
  "core (h_conn (opt_cursor om h)) = core (h_conn h)" "core (h_conn (opt_follow_cursor om h)) = core (h_conn h)"
  "core (h_conn (opt_follow_window om h)) = core (h_conn h)" "core (h_conn (opt_audio om h)) = core (h_conn h)"
  "core (h_conn (opt_file oe om h)) = core (h_conn h)" "core (h_conn (opt_clipboard oe om h)) = core (h_conn h)"
  "core (h_conn (opt_keyboard oe om h)) = core (h_conn h)" "core (h_conn (opt_privacy oe om h)) = core (h_conn h)"
  "core (h_conn (opt_block_input om h)) = core (h_conn h)" "core (h_conn (opt_terminal om h)) = core (h_conn h)"
  "core (h_conn (opt_my_cursor oe om h)) = core (h_conn h)"
  by (simp_all add: opt_quality_def opt_fps_def opt_codec_def opt_lock_def opt_cursor_def opt_follow_cursor_def
      opt_follow_window_def opt_audio_def opt_file_def opt_clipboard_def opt_keyboard_def opt_privacy_def
      opt_block_input_def opt_terminal_def opt_my_cursor_def upd_qos_def update_terminal_persistence_def
      on_set_core privacy_core Let_def split: enum_or_unknown.split image_quality.split option.split)

lemma update_options_core: "core (h_conn (update_options oe om h)) = core (h_conn h)"
  by (simp add: update_options_def options_core)

lemma session_core:
  "core (h_conn (update_scoped_login_options oe h)) = core (h_conn h)"
  "core (h_conn (logon_start_session he oe w sub h)) = core (h_conn h)"
  "core (h_conn (snd (snd (logon_peer_info pf he h)))) = core (h_conn h)"
  by (simp_all add: update_scoped_login_options_def update_options_core logon_start_session_def
      init_terminal_service_def try_sub_camera_displays_def try_sub_monitor_services_def logon_peer_info_def
      update_codec_on_login_def on_remote_authorized_def Let_def split: option.split prod.split)

lemma logon_register_core:
  "core (h_conn (logon_register he oe h)) =
     (Some (snd (logon_auth_type (h_conn h))), True, c_nestlink_permit (h_conn h), c_id (h_conn h), c_lr (h_conn h))"
  by (simp add: logon_register_def Let_def split_beta normalize_conn_audit_auth_fields_def logon_auth_type_def core_def)

text \<open>The kind of session a request asks for and the option that permits it.\<close>

definition requested_type :: "('d, 'z) login_request_scheme \<Rightarrow> auth_conn_type" where
  "requested_type lr =
     (case lr_union lr of
        Some (LoginFileTransfer _ _) \<Rightarrow> FileTransfer | Some LoginViewCamera \<Rightarrow> ViewCamera
      | Some (LoginTerminal _) \<Rightarrow> Terminal | Some (LoginPortForward _ _) \<Rightarrow> PortForward | None \<Rightarrow> Remote)"

fun kind_option :: "auth_conn_type \<Rightarrow> enable_option option" where
  "kind_option Remote = None"
| "kind_option FileTransfer = Some EnableFileTransfer"
| "kind_option PortForward = Some EnableTunnel"
| "kind_option ViewCamera = Some EnableCamera"
| "kind_option Terminal = Some EnableTerminal"

definition kind_permitted :: "host_env \<Rightarrow> u64 option \<Rightarrow> auth_conn_type \<Rightarrow> bool" where
  "kind_permitted he control t \<longleftrightarrow>
     (case kind_option t of Some opt \<Rightarrow> permission (he_permissions he) opt control | None \<Rightarrow> \<not> he_in_privacy_mode he)"

definition kind_set :: "'d login_request \<Rightarrow> ('d, 'z) connection_scheme \<Rightarrow> bool" where
  "kind_set lr c \<longleftrightarrow> c_lr c = lr \<and> (c_file_transfer c \<noteq> None \<longleftrightarrow> requested_type lr = FileTransfer)
     \<and> (c_view_camera c \<longleftrightarrow> requested_type lr = ViewCamera) \<and> (c_terminal c \<longleftrightarrow> requested_type lr = Terminal)"

lemma requested_port_forward:
  "requested_type lr = PortForward \<longleftrightarrow> (\<exists>host port. lr_union lr = Some (LoginPortForward host port))"
  by (auto simp: requested_type_def split: option.splits login_union.splits)

lemma kind_set_type:
  assumes "kind_set lr c" and "c_port_forward_socket c \<longleftrightarrow> requested_type lr = PortForward"
  shows "snd (logon_auth_type c) = requested_type lr"
  using assms by (cases "requested_type lr") (simp_all add: kind_set_def logon_auth_type_def)

lemma logon_answer_core: "core (h_conn (logon_answer he oe h)) = core (h_conn (logon_register he oe h))"
  by (simp add: logon_answer_def Let_def split_beta session_core)

lemma send_logon_authorizes:
  assumes run: "send_logon_response_and_keep_alive he oe si h = (k, h')"
    and fresh: "\<not> c_authorized (h_conn h)" "\<not> c_port_forward_socket (h_conn h)" and auth: "c_authorized (h_conn h')"
    and kind: "kind_set lr (h_conn h)"
  shows "ready (si_ready_now si) (si_ready_auth si) \<and> c_nestlink_permit (h_conn h) \<noteq> None
    \<and> authed_conn_type (h_conn h') = Some (requested_type lr)"
proof -
  have ok: "ready (si_ready_now si) (si_ready_auth si)" "c_nestlink_permit (h_conn h) \<noteq> None"
    using run fresh auth by (auto simp: send_logon_response_and_keep_alive_def split: if_splits)
  from run fresh ok obtain h1 where p: "prepare_terminal_login_for_authorization (oe_platform oe) he h = (None, h1)"
      and rest: "(case connect_port_forward_if_needed he h1 of (False, h) \<Rightarrow> (False, h)
        | (True, h) \<Rightarrow> (True, logon_answer he oe h)) = (k, h')"
    using auth prepare_core(1)[of "oe_platform oe" he h "Some k" h']
    by (auto simp: send_logon_response_and_keep_alive_def core_def elim!: flow_cases)
  note prep = prepare_core[OF p, unfolded core_def]
  obtain b h2 where c: "connect_port_forward_if_needed he h1 = (b, h2)" by force
  note conn = connect_conn(1)[OF c]
  have "c_authorized (h_conn h2) = c_authorized (h_conn h1)" by (subst conn) simp
  then have b: "b" using rest c auth fresh prep(1) by (cases b) auto
  have sock: "c_port_forward_socket (h_conn h2) \<longleftrightarrow> requested_type lr = PortForward"
    using connect_conn(2)[OF c b] fresh prep kind by (simp add: requested_port_forward kind_set_def)
  have "kind_set lr (h_conn h2)"
    using kind prep by (subst conn) (simp add: kind_set_def)
  then have "core (h_conn (logon_register he oe h2)) = (Some (requested_type lr), True, c_nestlink_permit (h_conn h2),
      c_id (h_conn h2), c_lr (h_conn h2))"
    by (simp add: logon_register_core kind_set_type sock)
  moreover have "h' = logon_answer he oe h2" using rest c b by simp
  ultimately show ?thesis using ok logon_answer_core[of he oe h2] by (simp add: core_def)
qed

text \<open>The password was answered for: by the password of a recent session of the same peer, or by a valid password
  from an address that is not blocked.\<close>

definition login_key :: "('d, 'z) login_request_scheme \<Rightarrow> session_key" where
  "login_key lr = \<lparr>sk_peer_id = lf_my_id lr, sk_name = lr_my_name lr, sk_session_id = lf_session_id lr\<rparr>"

definition resumes_session :: "'p password_api \<Rightarrow> ms \<Rightarrow> 'd login_request \<Rightarrow> ('d, 'p, 's) handler \<Rightarrow> bool" where
  "resumes_session pw now lr h \<longleftrightarrow>
     (case sv_sessions (h_server h) (login_key lr) of
        Some x \<Rightarrow> now - last_recv_time x < SESSION_TIMEOUT
                  \<and> validate_password_plain pw (c_hash (h_conn h)) (lr_password lr) (random_password x)
      | None \<Rightarrow> False)"

definition address_open :: "ms \<Rightarrow> ('d, 'p, 's) handler \<Rightarrow> bool" where
  "address_open now h \<longleftrightarrow>
     snd (fst (check_failure (c_ip (h_conn h)) 0 now (sv_failures (h_server h))))"

definition valid_password :: "'p password_api \<Rightarrow> bool \<Rightarrow> ms \<Rightarrow> 'd login_request \<Rightarrow> ('d, 'p, 's) handler \<Rightarrow> bool" where
  "valid_password pw allow now lr h \<longleftrightarrow>
     fst (validate_password pw (c_hash (h_conn h)) (lr_password lr) now (login_key lr) allow (h_server h)) \<noteq> None"

definition password_view :: "('d, 'p, 's) handler \<Rightarrow> _" where
  "password_view h = (c_hash (h_conn h), c_ip (h_conn h), sv_sessions (h_server h), sv_passwords (h_server h), sv_failures (h_server h))"

lemma validate_password_passwords:
  "sv_passwords s1 = sv_passwords s2 \<Longrightarrow>
     fst (validate_password pw hs an now key al s1) = fst (validate_password pw hs an now key al s2)"
  by (simp add: validate_password_def Let_def split_beta)

lemma password_view_eq:
  assumes "password_view h1 = password_view h"
  shows "resumes_session pw now lr h1 = resumes_session pw now lr h" "address_open now h1 = address_open now h"
    "valid_password pw allow now lr h1 = valid_password pw allow now lr h"
  using assms validate_password_passwords[of "h_server h1" "h_server h"]
  by (simp_all add: password_view_def resumes_session_def address_open_def valid_password_def split: option.split)

lemma login_view_password: "login_view h1 = login_view h \<Longrightarrow> password_view h1 = password_view h"
  by (simp add: login_view_def password_view_def Let_def)

lemma login_view_conn:
  assumes "login_view h1 = login_view h"
  shows "c_authorized (h_conn h1) = c_authorized (h_conn h)"
    "c_port_forward_socket (h_conn h1) = c_port_forward_socket (h_conn h)"
    "c_nestlink_permit (h_conn h1) = c_nestlink_permit (h_conn h)"
    "kind_set lr (h_conn h1) = kind_set lr (h_conn h)"
  using assms by (simp_all add: login_view_def kind_set_def Let_def)

lemma recent_session:
  assumes "conn_is_recent_session he pw h = (r, h1)" and "c_lr (h_conn h) = lr"
  shows "r \<longleftrightarrow> lr_password lr \<noteq> [] \<and> resumes_session pw (he_now he) lr h"
    and "h_conn h1 = (if r then (h_conn h)\<lparr>c_primary_auth := TemporaryPassword\<rparr> else h_conn h)"
    and "sv_passwords (h_server h1) = sv_passwords (h_server h)" "sv_failures (h_server h1) = sv_failures (h_server h)"
  using assms
  by (auto simp: conn_is_recent_session_def is_recent_session_def resumes_session_def Let_def session_key_of_def
      login_key_def retain_recent_def split: option.splits if_splits prod.splits)

lemma admit_authorizes:
  assumes "admit he oe si lr m h = (k, h')" and "c_authorized (h_conn h')"
    and "\<not> c_authorized (h_conn h)" "\<not> c_port_forward_socket (h_conn h)" "kind_set lr (h_conn h)"
  shows "ready (si_ready_now si) (si_ready_auth si) \<and> c_nestlink_permit (h_conn h) \<noteq> None
    \<and> authed_conn_type (h_conn h') = Some (requested_type lr)"
proof -
  obtain b h1 where s: "send_logon_response_and_keep_alive he oe si h = (b, h1)" by force
  have e: "h_conn h' = h_conn h1"
    using assms s by (cases b) (auto simp: admit_def try_start_cm_def Let_def split: if_splits)
  show ?thesis using send_logon_authorizes[OF s _ _ _ assms(5)] assms(2-4) by (simp add: e)
qed

lemma os_login_first_authorized: "os_login_first pf he lr h = (r, h1) \<Longrightarrow> c_authorized (h_conn h1) = c_authorized (h_conn h)"
  using prepare_core(1)[of pf he h r h1] by (auto simp: os_login_first_def core_def split: if_splits)

lemma unauthorized_logins:
  "click_login he oe lr h = (k, h') \<Longrightarrow> c_authorized (h_conn h') = c_authorized (h_conn h)"
  "empty_password_login he oe lr m h = (k, h') \<Longrightarrow> c_authorized (h_conn h') = c_authorized (h_conn h)"
  by (auto simp: click_login_def empty_password_login_def Let_def split: if_splits
      elim!: flow_cases dest!: os_login_first_authorized)

lemma validate_handler:
  assumes "conn_validate_password he pw al h = (b, h1)" and "c_lr (h_conn h) = lr"
  shows "b \<longleftrightarrow> valid_password pw al (he_now he) lr h"
    and "core (h_conn h1) = core (h_conn h)" "kind_set lr (h_conn h1) = kind_set lr (h_conn h)"
      "c_port_forward_socket (h_conn h1) = c_port_forward_socket (h_conn h)"
  using assms
  by (auto simp: core_def kind_set_def conn_validate_password_def valid_password_def session_key_of_def login_key_def Let_def
      split: prod.splits option.splits)

lemma update_failure_conn [simp]: "h_conn (conn_update_failure he ft rm sc h) = h_conn h"
  by (simp add: conn_update_failure_def)

lemma password_login_authorizes:
  assumes run: "password_login he oe pw si lr m h = (k, h')" and auth: "c_authorized (h_conn h')"
    and fresh: "\<not> c_authorized (h_conn h)" "\<not> c_port_forward_socket (h_conn h)" "kind_set lr (h_conn h)"
  shows "address_open (he_now he) h \<and> valid_password pw (allow_logon_screen_password (oe_platform oe) he) (he_now he) lr h
    \<and> ready (si_ready_now si) (si_ready_auth si) \<and> c_nestlink_permit (h_conn h) \<noteq> None
    \<and> authed_conn_type (h_conn h') = Some (requested_type lr)"
proof -
  obtain ft res h1 where c: "conn_check_failure he DefaultScope h = (ft, res, h1)" using prod_cases3 by blast
  obtain b h2 where v: "conn_validate_password he pw (allow_logon_screen_password (oe_platform oe) he) h1 = (b, h2)" by force
  note same = check_authorized[OF c] login_view_password[OF check_default_view[OF c]]
  have "c_lr (h_conn h1) = lr" using fresh same by (simp add: kind_set_def)
  note valid = validate_handler[OF v this, unfolded core_def]
  have b: "res" "b"
    using run c v auth fresh same valid(2) by (cases res; cases b; auto simp: password_login_def Let_def try_start_cm_def split: if_splits)+
  then have "admit he oe si lr m (conn_update_failure he ft True DefaultScope h2) = (k, h')"
    using run c v by (simp add: password_login_def)
  then show ?thesis
    using admit_authorizes[of he oe si lr m "conn_update_failure he ft True DefaultScope h2" k h'] auth fresh b valid same
      check_default_result[OF c] password_view_eq(2,3)[OF same(2)]
    by (simp add: address_open_def check_failure_def)
qed

lemma decide_authorizes:
  assumes run: "decide_login he oe pw si lr m h = (k, h')" and auth: "c_authorized (h_conn h')"
    and fresh: "\<not> c_authorized (h_conn h)" "\<not> c_port_forward_socket (h_conn h)" "kind_set lr (h_conn h)"
  shows "(resumes_session pw (he_now he) lr h
      \<or> address_open (he_now he) h \<and> valid_password pw (allow_logon_screen_password (oe_platform oe) he) (he_now he) lr h)
    \<and> lr_password lr \<noteq> []
    \<and> \<not> click_required pw (allow_logon_screen_password (oe_platform oe) he) (sv_passwords (h_server h))
    \<and> ready (si_ready_now si) (si_ready_auth si) \<and> c_nestlink_permit (h_conn h) \<noteq> None
    \<and> authed_conn_type (h_conn h') = Some (requested_type lr)"
proof -
  have lr: "c_lr (h_conn h) = lr" using fresh by (simp add: kind_set_def)
  have click: "\<not> click_required pw (allow_logon_screen_password (oe_platform oe) he) (sv_passwords (h_server h))"
    using run auth fresh unauthorized_logins(1)[of he oe lr h k h'] by (auto simp: decide_login_def)
  obtain r h1 where r: "conn_is_recent_session he pw h = (r, h1)" by force
  note recent = recent_session[OF r lr]
  show ?thesis
  proof (cases r)
    case True
    then have "admit he oe si lr m h1 = (k, h')" using run r click by (simp add: decide_login_def)
    from admit_authorizes[OF this auth] show ?thesis using fresh recent(1,2) True click by (simp add: kind_set_def)
  next
    case False
    have pw: "lr_password lr \<noteq> []"
      using run r click False auth fresh recent(2) unauthorized_logins(2)[of he oe lr m h1 k h'] by (auto simp: decide_login_def)
    then have "password_login he oe pw si lr m h1 = (k, h')" using run r click False by (simp add: decide_login_def)
    from password_login_authorizes[OF this auth] show ?thesis
      using fresh recent(2-4) False click pw validate_password_passwords[OF recent(3)]
      by (simp add: address_open_def valid_password_def)
  qed
qed

text \<open>The first steps of a login.\<close>

lemma kind_step_sets:
  assumes "kind_step pf he lr h = (None, h1)" and "c_lr (h_conn h) = lr"
    and "c_file_transfer (h_conn h) = None" "\<not> c_view_camera (h_conn h)" "\<not> c_terminal (h_conn h)"
  shows "kind_set lr (h_conn h1)" and "kind_permitted he (c_control_permissions (h_conn h)) (requested_type lr)"
    and "core (h_conn h1) = core (h_conn h)" "password_view h1 = password_view h"
      "c_port_forward_socket (h_conn h1) = c_port_forward_socket (h_conn h)"
  using assms
  by (auto simp: kind_step_def refuse_def kind_set_def requested_type_def kind_permitted_def core_def password_view_def
      check_privacy_mode_on_def Let_def upd_conn_def
      split: option.splits login_union.splits if_splits bool.splits)

lemma steps_unauthorized:
  "permit_step he si lr h = (r, h1) \<Longrightarrow> c_authorized (h_conn h1) = c_authorized (h_conn h)"
  "kind_step pf he lr h = (r, h1) \<Longrightarrow> c_authorized (h_conn h1) = c_authorized (h_conn h)"
  "target_step pf he lr h = (r, h1) \<Longrightarrow> c_authorized (h_conn h1) = c_authorized (h_conn h)"
  "desktop_check pf he lr h = (r, h1) \<Longrightarrow> c_authorized (h_conn h1) = c_authorized (h_conn h)"
  "desktop_step pf he lr m h = (r, h1) \<Longrightarrow> c_authorized (h_conn h1) = c_authorized (h_conn h)"
  by (auto simp: permit_step_def kind_step_def target_step_def desktop_check_def desktop_step_def refuse_def
      check_privacy_mode_on_def Let_def dest!: check_authorized
      split: if_splits option.splits sum.splits login_union.splits prod.splits bool.splits)

text \<open>What the request does to the connection before its kind is looked at.\<close>

definition login_start :: "'d login_request \<Rightarrow> ('d, 'p, 's) handler \<Rightarrow> ('d, 'p, 's) handler" where
  "login_start lr h = upd_conn reset_session_scope_for_login (upd_conn (handle_login_request_without_validation lr) h)"

lemma login_start_simps [simp]:
  "c_lr (h_conn (login_start lr h)) = lr" "c_file_transfer (h_conn (login_start lr h)) = None"
  "\<not> c_view_camera (h_conn (login_start lr h))" "\<not> c_terminal (h_conn (login_start lr h))"
  "c_authorized (h_conn (login_start lr h)) = c_authorized (h_conn h)"
  "c_nestlink_permit (h_conn (login_start lr h)) = c_nestlink_permit (h_conn h)"
  "c_control_permissions (h_conn (login_start lr h)) = c_control_permissions (h_conn h)"
  "c_port_forward_socket (h_conn (login_start lr h)) = c_port_forward_socket (h_conn h)"
  "password_view (login_start lr h) = password_view h" "h_out (login_start lr h) = h_out h"
  by (simp_all add: login_start_def reset_session_scope_for_login_def handle_login_request_without_validation_def
      password_view_def upd_conn_def Let_def split: option.split)

lemma permit_step_go:
  assumes "permit_step he si lr h = (None, h1)"
  shows "c_nestlink_permit (h_conn h) = None \<longrightarrow> (\<exists>g. login_permit he si lr = Inr g)"
    and "password_view h1 = password_view h" "c_control_permissions (h_conn h1) = c_control_permissions (h_conn h)"
    "c_port_forward_socket (h_conn h1) = c_port_forward_socket (h_conn h)"
  using assms by (auto simp: permit_step_def password_view_def upd_conn_def split: if_splits sum.splits)

lemma target_step_go:
  "target_step pf he lr h = (None, h1) \<Longrightarrow> is_direct_ip_access he (lr_username lr) \<or> lr_username lr = he_own_id he"
  by (auto simp: target_step_def refuse_def split: if_splits)

lemma flow_authorized:
  assumes "flow r k = (b, h')" and "c_authorized (h_conn h')" and "\<And>x h1. r = (x, h1) \<Longrightarrow> \<not> c_authorized (h_conn h1)"
  obtains h1 where "r = (None, h1)" and "k h1 = (b, h')" and "\<not> c_authorized (h_conn h1)"
  using assms by (elim flow_cases) auto

text \<open>An authorised login has gone through every step.\<close>

lemma handle_login_path:
  assumes run: "handle_login he oe pw si lr h = (k, h')" and "\<not> c_authorized (h_conn h)" and "c_authorized (h_conn h')"
  obtains h1 h2 h3 h4 h5 where "permit_step he si lr h = (None, h1)"
    and "kind_step (oe_platform oe) he lr (login_start lr h1) = (None, h2)"
    and "target_step (oe_platform oe) he lr h2 = (None, h3)"
    and "desktop_check (oe_platform oe) he lr h3 = (None, h4)"
    and "desktop_step (oe_platform oe) he lr (desktop_error (oe_platform oe) he lr (h_conn h4)) h4 = (None, h5)"
    and "decide_login he oe pw si lr (desktop_error (oe_platform oe) he lr (h_conn h4)) h5 = (k, h')"
proof -
  have *: "c_authorized (handle_login_request_without_validation lr c) = c_authorized c" for c
    by (simp add: handle_login_request_without_validation_def Let_def split: option.split)
  note run' = run[unfolded handle_login_def Let_def, folded login_start_def]
  obtain h1 where 1: "permit_step he si lr h = (None, h1)" "\<not> c_authorized (h_conn h1)"
    and k1: "flow (kind_step (oe_platform oe) he lr (login_start lr h1)) (\<lambda>h.
         flow (target_step (oe_platform oe) he lr h) (\<lambda>h. flow (desktop_check (oe_platform oe) he lr h) (\<lambda>h.
         flow (desktop_step (oe_platform oe) he lr (desktop_error (oe_platform oe) he lr (h_conn h)) h)
           (decide_login he oe pw si lr (desktop_error (oe_platform oe) he lr (h_conn h)))))) = (k, h')"
    using run' assms(2,3) by (elim flow_authorized) (auto simp: * dest: steps_unauthorized(1) split: if_splits)
  show thesis
    using k1 1(2) assms(3)
    by (elim flow_authorized) (auto dest: steps_unauthorized(2) steps_unauthorized(3) steps_unauthorized(4)
        steps_unauthorized(5) intro: that[OF 1(1)])
qed

text \<open>\<^bold>\<open>C1\<close> (who is let in).  A login that makes a connection authorised comes from a signed-in machine: the
  peer's permit was accepted, for this request or for an earlier one on the same connection, and the sign-in
  still stands when the answer is sent.  The request names this machine, the kind of session it asks for is
  permitted (a desktop session only while nobody uses privacy mode), no click of the user is required, and a
  non-empty password was answered for, either of a session of the same peer seen within 30 seconds, or a valid
  one from an address that is not blocked.  The connection is registered with exactly the kind asked for.\<close>

theorem login_authorizes:
  assumes run: "handle_login he oe pw si lr h = (k, h')"
    and fresh: "\<not> c_authorized (h_conn h)" "\<not> c_port_forward_socket (h_conn h)" and auth: "c_authorized (h_conn h')"
  shows "ready (si_ready_now si) (si_ready_auth si)
    \<and> (c_nestlink_permit (h_conn h) = None \<longrightarrow> (\<exists>g. login_permit he si lr = Inr g))
    \<and> (is_direct_ip_access he (lr_username lr) \<or> lr_username lr = he_own_id he)
    \<and> kind_permitted he (c_control_permissions (h_conn h)) (requested_type lr)
    \<and> \<not> click_required pw (allow_logon_screen_password (oe_platform oe) he) (sv_passwords (h_server h))
    \<and> lr_password lr \<noteq> []
    \<and> (resumes_session pw (he_now he) lr h
       \<or> address_open (he_now he) h
         \<and> valid_password pw (allow_logon_screen_password (oe_platform oe) he) (he_now he) lr h)
    \<and> authed_conn_type (h_conn h') = Some (requested_type lr)"
proof -
  obtain h1 h2 h3 h4 h5 where steps: "permit_step he si lr h = (None, h1)"
      "kind_step (oe_platform oe) he lr (login_start lr h1) = (None, h2)"
      "target_step (oe_platform oe) he lr h2 = (None, h3)" "desktop_check (oe_platform oe) he lr h3 = (None, h4)"
      "desktop_step (oe_platform oe) he lr (desktop_error (oe_platform oe) he lr (h_conn h4)) h4 = (None, h5)"
    and decide: "decide_login he oe pw si lr (desktop_error (oe_platform oe) he lr (h_conn h4)) h5 = (k, h')"
    by (rule handle_login_path[OF run fresh(1) auth])
  note permit = permit_step_go[OF steps(1)]
  note kind = kind_step_sets[OF steps(2)]
  have view: "login_view h5 = login_view h2"
    using target_step_view[OF steps(3)] desktop_check_view[OF steps(4)] desktop_step_view[OF steps(5)] by simp
  have pview: "password_view h5 = password_view h"
    using login_view_password[OF view] kind(4) permit(2) by simp
  then have "sv_passwords (h_server h5) = sv_passwords (h_server h)" by (simp add: password_view_def)
  moreover have "\<not> c_authorized (h_conn h5)" "\<not> c_port_forward_socket (h_conn h5)" "kind_set lr (h_conn h5)"
    using login_view_conn[OF view] kind permit(4) fresh steps_unauthorized(1)[OF steps(1)] by (simp_all add: core_def)
  ultimately show ?thesis
    using decide_authorizes[OF decide auth] password_view_eq[OF pview] permit(1,3) kind(2) target_step_go[OF steps(3)]
    by simp
qed

definition sample_host :: host_env where
  "sample_host = \<lparr>he_permissions = sample_permissions, he_own_id = ''h1'', he_now = 0, he_abr = False,
     he_in_privacy_mode = False, he_installed = False, he_prelogin = False, he_locked = False, he_logon_ui = None,
     he_logon_screen_password = False, he_is_ip_str = (\<lambda>_. False), he_is_domain_port_str = (\<lambda>_. False),
     he_desktop_user = [], he_start_desktop = (\<lambda>_ _. []), he_logon_admin = (\<lambda>_ _. None), he_session_id = None,
     he_user_token = None, he_primary_token = (\<lambda>_. None), he_gate_busy = False, he_connect = (\<lambda>_. False),
     he_service_user = (\<lambda>_. None), he_login_screen_wayland = False, he_display_server = ''x11'',
     he_display_server_known = (\<lambda>d. d = ''x11''), he_inited = False, he_displays_error = None,
     he_dir_exists = (\<lambda>_. False), he_remove_wallpaper = False, he_share_rdp = False, he_sessions = [],
     he_current_sid = None, he_auto_disconnect = False, he_auto_disconnect_timeout = None, he_new_service_id = [],
     he_report_session = True, he_scope_alarm = True, he_scope_close = False, he_flutter = True\<rparr>"

definition sample_sign_in :: "mem_store sign_in" where
  "sample_sign_in = \<lparr>si_crypto = plain_crypto, si_json = sample_json, si_of_json = sample_of_json,
     si_own_key = plain_bytes ''q'', si_now_s = 100, si_now = 0, si_auth = signed_in, si_confirm = Inr (),
     si_now_end = 0, si_auth_end = signed_in, si_error_text = (\<lambda>_. []), si_ready_now = 0, si_ready_auth = signed_in\<rparr>"

definition sample_login :: "string \<Rightarrow> unit login_request" where
  "sample_login answer = login_request_default\<lparr>lr_username := ''h1'', lr_password := bytes_of answer,
     lr_union := Some (LoginFileTransfer ''d'' False)\<rparr>"

definition sample_peer :: "unit connection" where
  "sample_peer = (connection_new sample_permissions 7 0 \<lparr>h_salt = [], h_challenge = []\<rparr> False None)
     \<lparr>c_ip := ''1.2.3.4'', c_nestlink_permit := Some (guard_start ''j'' 0)\<rparr>"

definition sample_fresh :: "(unit, nat, topmost_impl) handler" where
  "sample_fresh = \<lparr>h_conn = sample_peer, h_server = sample_server, h_privacy = None, h_out = []\<rparr>"

theorem login_authorizes_witness:
  "authed_conn_type (h_conn (snd (handle_login sample_host sample_opt_env count_passwords sample_sign_in
     (sample_login ''a'') sample_fresh))) = Some FileTransfer
   \<and> valid_password count_passwords False 0 (sample_login ''a'') sample_fresh"
proof -
  let ?r = "handle_login sample_host sample_opt_env count_passwords sample_sign_in (sample_login ''a'') sample_fresh"
  have "\<not> c_authorized (h_conn sample_fresh)" "\<not> c_port_forward_socket (h_conn sample_fresh)" "c_authorized (h_conn (snd ?r))"
    by code_simp+
  from login_authorizes[OF surjective_pairing this]
  have "resumes_session count_passwords (he_now sample_host) (sample_login ''a'') sample_fresh
      \<or> valid_password count_passwords (allow_logon_screen_password (oe_platform sample_opt_env) sample_host)
          (he_now sample_host) (sample_login ''a'') sample_fresh"
    and "authed_conn_type (h_conn (snd ?r)) = Some (requested_type (sample_login ''a''))" by blast+
  moreover have "\<not> resumes_session count_passwords (he_now sample_host) (sample_login ''a'') sample_fresh"
    and "requested_type (sample_login ''a'') = FileTransfer"
    and "allow_logon_screen_password (oe_platform sample_opt_env) sample_host = False" "he_now sample_host = 0"
    by code_simp+
  ultimately show ?thesis by metis
qed

end
