(* ===== verification/Login_Outcome.thy ===== *)
theory Login_Outcome
  imports Conn_Login
begin

text \<open>
  What peers get from the login handler: a connection that is dropped has been told why, and a peer that does not
  know the password gets a bounded number of wrong answers from one address, over all its connections.  Logins
  of different connections come one after the other on the shared tables.
\<close>

section \<open>Refusals\<close>

fun login_error :: "conn_effect \<Rightarrow> bool" where
  "login_error (LoginError _) = True"
| "login_error (LoginErrorLocal _) = True"
| "login_error _ = False"

text \<open>A step that goes on only sends more; one that drops the connection has sent an error.\<close>

definition told :: "bool option \<Rightarrow> ('d, 'p, 's) handler \<Rightarrow> ('d, 'p, 's) handler \<Rightarrow> bool" where
  "told r h h' \<longleftrightarrow> r = Some True \<or> (\<exists>es. h_out h' = h_out h @ es \<and> (r = Some False \<longrightarrow> list_ex login_error es))"

lemma told_trans: "told None h h1 \<Longrightarrow> told r h1 h2 \<Longrightarrow> told r h h2"
  by (force simp: told_def)

lemma told_refl [simp]: "told r h h \<longleftrightarrow> r \<noteq> Some False"
  by (auto simp: told_def)

lemma told_simps [simp]:
  "told r h (upd_conn f h') = told r h h'" "told r h (upd_server g h') = told r h h'"
  "told r h (h'\<lparr>h_conn := c\<rparr>) = told r h h'" "told r h (h'\<lparr>h_server := s\<rparr>) = told r h h'"
  "told r h (conn_update_failure he ft rm sc h') = told r h h'"
  by (simp_all add: told_def conn_update_failure_def)

lemma told_emit: "told (if list_ex login_error es then None else r) h h' \<Longrightarrow> told r h (emit es h')"
  by (force simp: told_def split: if_splits)

lemma told_cm: "told r h h' \<Longrightarrow> told r h (try_start_cm_ipc h')" "told r h h' \<Longrightarrow> told r h (try_start_cm p n a h')"
  by (simp_all add: try_start_cm_ipc_def try_start_cm_def told_emit Let_def)

lemma told_flow:
  assumes "flow r k = (b, h')" and "\<And>r' h1. r = (r', h1) \<Longrightarrow> told r' h h1" and "\<And>h1. k h1 = (b, h') \<Longrightarrow> told (Some b) h1 h'"
  shows "told (Some b) h h'"
  using assms(1) by (rule flow_cases) (use assms(2,3) in \<open>auto intro: told_trans\<close>)

lemmas told_rules = told_emit told_cm

lemma refused_os: "check_os_failure sc now st = (False, es, st') \<Longrightarrow> list_ex login_error es"
  by (auto simp: check_os_failure_def evaluate_os_credential_policy_def block_decision_def allow_decision_def Let_def
      split: prod.splits if_splits option.splits)

lemma refused_address:
  "check_address_failure m time ip = (ft, False, es) \<Longrightarrow> list_ex login_error es"
  "check_failure_ipv6_prefix m time p n t = Some (ft, res, es) \<Longrightarrow> list_ex login_error es"
  by (auto simp: check_address_failure_def check_failure_ipv6_prefix_def Let_def split: if_splits)

lemma refused_check:
  assumes "check_failure_with_scope ip i sc now now' st = ((ft, False), es, st')"
  shows "list_ex login_error es"
proof (cases "sc = TerminalOsLogin")
  case True
  then show ?thesis using assms refused_os by (auto simp: check_failure_with_scope_def Let_def split: prod.splits)
next
  case False
  then show ?thesis
    using assms unfolding check_failure_with_scope_def Let_def
    by (auto dest: refused_address split: option.splits prod.splits)
qed

lemma told_check:
  assumes "conn_check_failure he sc h = (ft, res, h1)"
  shows "told (if res then None else Some False) h h1"
proof -
  obtain es fs where c: "check_failure_with_scope (c_ip (h_conn h)) 0 sc (he_now he) (he_now he) (sv_failures (h_server h))
      = ((ft, res), es, fs)" and h1: "h1 = emit es (upd_server (\<lambda>s. s\<lparr>sv_failures := fs\<rparr>) h)"
    using assms by (auto simp: conn_check_failure_def split: prod.splits)
  show ?thesis using refused_check[of _ _ _ _ _ _ ft es fs] c by (cases res) (auto simp: h1 intro!: told_emit)
qed

lemma told_attempt: "terminal_login_attempt pf he u os h = (r, h1) \<Longrightarrow> told r h h1"
  by (auto simp: terminal_login_attempt_def Let_def intro!: told_rules split: if_splits prod.splits option.splits)

lemma told_prepare: "prepare_terminal_login_for_authorization pf he h = (r, h1) \<Longrightarrow> told r h h1"
  using told_check[of he TerminalOsLogin h] told_attempt[of pf he _ _ _ r h1] told_trans
  by (fastforce simp: prepare_terminal_login_for_authorization_def Let_def split: if_splits prod.splits)

lemma told_os_login_first: "os_login_first pf he lr h = (r, h1) \<Longrightarrow> told r h h1"
  by (auto simp: os_login_first_def dest: told_prepare split: if_splits)

lemma told_connect: "connect_port_forward_if_needed he h = (b, h1) \<Longrightarrow> told (if b then None else Some False) h h1"
  by (auto simp: connect_port_forward_if_needed_def Let_def intro!: told_emit
      split: if_splits prod.splits option.splits login_union.splits)

lemma told_send_logon:
  assumes "send_logon_response_and_keep_alive he oe si h = (b, h')"
  shows "told (Some b) h h'"
proof (cases b)
  case False
  show ?thesis
  proof (cases "\<not> ready (si_ready_now si) (si_ready_auth si) \<or> c_nestlink_permit (h_conn h) = None")
    case True
    then show ?thesis using assms by (auto simp: send_logon_response_and_keep_alive_def intro!: told_emit)
  next
    case ok: False
    then have "flow (prepare_terminal_login_for_authorization (oe_platform oe) he h) (\<lambda>h.
        case connect_port_forward_if_needed he h of (False, h) \<Rightarrow> (False, h) | (True, h) \<Rightarrow> (True, logon_answer he oe h)) = (b, h')"
      using assms False by (auto simp: send_logon_response_and_keep_alive_def split: if_splits)
    then show ?thesis
      by (rule told_flow) (erule told_prepare, auto simp: False split: prod.splits bool.splits dest!: told_connect)
  qed
qed (simp add: told_def)

lemma told_admit: "admit he oe si lr m h = (b, h') \<Longrightarrow> told (Some b) h h'"
  using told_send_logon[of he oe si h False] told_def[of "Some True"]
  by (cases b) (auto simp: admit_def split: if_splits prod.splits bool.splits)

lemma told_click: "click_login he oe lr h = (b, h') \<Longrightarrow> told (Some b) h h'"
  unfolding click_login_def
  by (erule told_flow, erule told_os_login_first) (auto simp: Let_def told_def)

lemma told_empty: "empty_password_login he oe lr m h = (b, h') \<Longrightarrow> told (Some b) h h'"
  unfolding empty_password_login_def
  by (cases "m = []", simp, erule told_flow, erule told_os_login_first) (auto simp: told_def)

lemma told_password:
  assumes "password_login he oe pw si lr m h = (b, h')"
  shows "told (Some b) h h'"
proof (cases b)
  case False
  obtain ft h1 where c: "conn_check_failure he DefaultScope h = (ft, True, h1)"
    using assms False by (auto simp: password_login_def split: prod.splits if_splits)
  obtain h2 where v: "conn_validate_password he pw (allow_logon_screen_password (oe_platform oe) he) h1 = (True, h2)"
      and a: "admit he oe si lr m (conn_update_failure he ft True DefaultScope h2) = (b, h')"
    using assms False c by (auto simp: password_login_def Let_def split: prod.splits bool.splits)
  have "told None h1 h2"
    using v by (auto simp: conn_validate_password_def Let_def split: prod.splits option.splits)
  then have "told None h (conn_update_failure he ft True DefaultScope h2)"
    using told_check[OF c] by (simp add: told_trans[of h h1])
  from told_trans[OF this told_admit[OF a]] show ?thesis .
qed (simp add: told_def)

lemma told_decide:
  assumes "decide_login he oe pw si lr m h = (b, h')"
  shows "told (Some b) h h'"
proof (cases "click_required pw (allow_logon_screen_password (oe_platform oe) he) (sv_passwords (h_server h))")
  case True
  then show ?thesis using assms told_click by (simp add: decide_login_def)
next
  case False
  obtain r h1 where r: "conn_is_recent_session he pw h = (r, h1)" by force
  have "told None h h1" using r by (auto simp: conn_is_recent_session_def Let_def split: prod.splits)
  moreover have "told (Some b) h1 h'"
    using assms False r by (auto simp: decide_login_def told_admit told_empty told_password split: if_splits bool.splits)
  ultimately show ?thesis by (rule told_trans)
qed

lemma told_permit: "permit_step he si lr h = (r, h1) \<Longrightarrow> told r h h1"
  by (auto simp: permit_step_def intro!: told_emit split: if_splits sum.splits)

lemma told_kind: "kind_step pf he lr h = (r, h1) \<Longrightarrow> told r h h1"
  by (auto simp: kind_step_def refuse_def check_privacy_mode_on_def Let_def intro!: told_emit
      split: if_splits option.splits login_union.splits bool.splits)

lemma told_target: "target_step pf he lr h = (r, h1) \<Longrightarrow> told r h h1"
  by (auto simp: target_step_def refuse_def intro!: told_emit told_cm split: if_splits)

lemma told_desktop_step: "desktop_step pf he lr m h = (r, h1) \<Longrightarrow> told r h h1"
  by (auto simp: desktop_step_def told_def[of "Some True"] split: if_splits prod.splits)

lemma told_desktop_check: "desktop_check pf he lr h = (r, h1) \<Longrightarrow> told r h h1"
  by (auto simp: desktop_check_def told_def[of "Some True"] dest!: told_check split: if_splits prod.splits)

text \<open>\<^bold>\<open>C33\<close> (a refusal is explained).  When the handler of a login request gives up the connection, it has sent the
  peer a login error among what it sent for this request.\<close>

theorem login_refusal_explained:
  assumes run: "handle_login he oe pw si lr h = (False, h')"
  shows "\<exists>es. h_out h' = h_out h @ es \<and> list_ex login_error es"
proof -
  have "told (Some False) h h'"
    using run unfolding handle_login_def Let_def login_start_def[symmetric]
  proof (rule told_flow)
    fix h1 assume "(if c_authorized (h_conn (upd_conn (handle_login_request_without_validation lr) h1))
      then (True, upd_conn (handle_login_request_without_validation lr) h1)
      else flow (kind_step (oe_platform oe) he lr (login_start lr h1)) (\<lambda>h.
         flow (target_step (oe_platform oe) he lr h) (\<lambda>h. flow (desktop_check (oe_platform oe) he lr h) (\<lambda>h.
         flow (desktop_step (oe_platform oe) he lr (desktop_error (oe_platform oe) he lr (h_conn h)) h)
           (decide_login he oe pw si lr (desktop_error (oe_platform oe) he lr (h_conn h))))))) = (False, h')"
    then have "flow (kind_step (oe_platform oe) he lr (login_start lr h1)) (\<lambda>h.
         flow (target_step (oe_platform oe) he lr h) (\<lambda>h. flow (desktop_check (oe_platform oe) he lr h) (\<lambda>h.
         flow (desktop_step (oe_platform oe) he lr (desktop_error (oe_platform oe) he lr (h_conn h)) h)
           (decide_login he oe pw si lr (desktop_error (oe_platform oe) he lr (h_conn h)))))) = (False, h')"
      by (auto split: if_splits)
    then have "told (Some False) (login_start lr h1) h'"
      by (elim told_flow told_kind told_target told_desktop_check told_desktop_step told_decide)
    then show "told (Some False) h1 h'" by (simp add: told_def)
  qed (rule told_permit)
  then show ?thesis by (simp add: told_def)
qed

theorem login_refusal_explained_witness:
  "\<exists>es. h_out (snd (handle_login (sample_host\<lparr>he_own_id := ''h2''\<rparr>) sample_opt_env count_passwords sample_sign_in
     (sample_login ''a'') sample_fresh)) = h_out sample_fresh @ es \<and> list_ex login_error es"
proof -
  have "\<not> fst (handle_login (sample_host\<lparr>he_own_id := ''h2''\<rparr>) sample_opt_env count_passwords sample_sign_in
      (sample_login ''a'') sample_fresh)"
    by code_simp
  then have "handle_login (sample_host\<lparr>he_own_id := ''h2''\<rparr>) sample_opt_env count_passwords sample_sign_in (sample_login ''a'') sample_fresh
      = (False, snd (handle_login (sample_host\<lparr>he_own_id := ''h2''\<rparr>) sample_opt_env count_passwords sample_sign_in
          (sample_login ''a'') sample_fresh))"
    by (simp add: prod_eq_iff)
  from login_refusal_explained[OF this] show ?thesis .
qed

section \<open>Guessing\<close>

fun wrong_answer :: "conn_effect \<Rightarrow> bool" where
  "wrong_answer (LoginError m) = (m = LOGIN_MSG_PASSWORD_WRONG \<or> m = LOGIN_MSG_DESKTOP_SESSION_NOT_READY_PASSWORD_WRONG)"
| "wrong_answer _ = False"

definition failures_of :: "string \<Rightarrow> 'p server_state \<Rightarrow> int" where
  "failures_of ip s = snd (snd (get_failure (fl_maps (sv_failures s) 0) ip))"

text \<open>No answer says that a password was wrong, and no failure is counted.\<close>

definition quiet :: "('d, 'p, 's) handler \<Rightarrow> ('d, 'p, 's) handler \<Rightarrow> bool" where
  "quiet h h' \<longleftrightarrow> (\<exists>es. h_out h' = h_out h @ es \<and> list_all (\<lambda>e. \<not> wrong_answer e) es)
     \<and> fl_maps (sv_failures (h_server h')) = fl_maps (sv_failures (h_server h)) \<and> c_ip (h_conn h') = c_ip (h_conn h)"

lemma quiet_trans [trans]: "quiet h1 h2 \<Longrightarrow> quiet h2 h3 \<Longrightarrow> quiet h1 h3"
  by (fastforce simp: quiet_def)

lemma quiet_refl [simp]: "quiet h h"
  by (simp add: quiet_def)

lemma quiet_emit: "quiet h h' \<Longrightarrow> list_all (\<lambda>e. \<not> wrong_answer e) es \<Longrightarrow> quiet h (emit es h')"
  by (force simp: quiet_def emit_def)

lemma quiet_conn: "quiet h h' \<Longrightarrow> c_ip (f (h_conn h')) = c_ip (h_conn h') \<Longrightarrow> quiet h (upd_conn f h')"
  by (simp add: quiet_def upd_conn_def)

lemma quiet_set_conn: "quiet h h' \<Longrightarrow> c_ip c = c_ip (h_conn h') \<Longrightarrow> quiet h (h'\<lparr>h_conn := c\<rparr>)"
  by (simp add: quiet_def)

lemmas login_texts = LOGIN_MSG_PASSWORD_WRONG_def LOGIN_MSG_DESKTOP_SESSION_NOT_READY_PASSWORD_WRONG_def
  LOGIN_MSG_OFFLINE_def LOGIN_MSG_NO_PASSWORD_ACCESS_def LOGIN_MSG_DESKTOP_SESSION_NOT_READY_PASSWORD_EMPTY_def
  TERMINAL_OS_LOGIN_FAILED_MSG_def

lemmas quiet_rules = quiet_emit quiet_conn quiet_set_conn quiet_refl

lemma quiet_cm: "quiet h h' \<Longrightarrow> quiet h (try_start_cm_ipc h')" "quiet h h' \<Longrightarrow> quiet h (try_start_cm p n a h')"
  by (auto simp: try_start_cm_ipc_def try_start_cm_def Let_def intro!: quiet_rules)

lemma quiet_check_os: "conn_check_failure he TerminalOsLogin h = (ft, res, h1) \<Longrightarrow> quiet h h1"
  by (auto simp: conn_check_failure_def check_failure_with_scope_def check_os_failure_def evaluate_os_credential_policy_def
      block_decision_def allow_decision_def quiet_def conn_simps Let_def login_texts
      split: prod.splits if_splits option.splits)

lemma quiet_update_os: "quiet h h' \<Longrightarrow> quiet h (conn_update_failure he ft rm TerminalOsLogin h')"
  by (cases ft) (simp add: quiet_def conn_update_failure_def update_failure_with_scope_def upd_server_def)

lemma fill_token_text: "fill_terminal_user_token pf he u p c = (Some m, c1) \<Longrightarrow> \<not> wrong_answer (LoginError m)"
  by (auto simp: fill_terminal_user_token_def handle_administrator_check_def handle_installed_user_def login_texts
      split: if_splits option.splits bool.splits)

lemma fill_token_ip: "fill_terminal_user_token pf he u p c = (r, c1) \<Longrightarrow> c_ip c1 = c_ip c"
  by (drule fill_token_authorized, drule arg_cong[where f = c_ip]) simp

lemma quiet_attempt:
  assumes "terminal_login_attempt pf he u os h = (r, h1)"
  shows "quiet h h1"
proof -
  obtain m c where f: "fill_terminal_user_token pf he u (os_password (c_lr (h_conn h))) (h_conn h) = (m, c)" by force
  note ip = fill_token_ip[OF f]
  show ?thesis
  proof (cases m)
    case None
    then show ?thesis
      using assms f ip
      by (auto simp: terminal_login_attempt_def Let_def login_texts
          intro!: quiet_rules quiet_cm quiet_update_os split: if_splits option.splits)
  next
    case (Some msg)
    then show ?thesis
      using assms f ip fill_token_text[OF f[unfolded Some]]
      by (auto simp: terminal_login_attempt_def Let_def login_texts
          intro!: quiet_rules quiet_cm quiet_update_os split: if_splits option.splits)
  qed
qed

lemma quiet_prepare: "prepare_terminal_login_for_authorization pf he h = (r, h1) \<Longrightarrow> quiet h h1"
  by (auto simp: prepare_terminal_login_for_authorization_def Let_def
      dest: quiet_attempt quiet_check_os intro: quiet_trans split: if_splits prod.splits)

lemma quiet_os_login_first: "os_login_first pf he lr h = (r, h1) \<Longrightarrow> quiet h h1"
  by (auto simp: os_login_first_def dest: quiet_prepare split: if_splits)

lemma quiet_logins:
  "click_login he oe lr h = (k, h') \<Longrightarrow> quiet h h'"
  "empty_password_login he oe lr m h = (k, h') \<Longrightarrow> quiet h h'"
  by (auto simp: click_login_def empty_password_login_def Let_def login_texts
      elim!: flow_cases dest!: quiet_os_login_first intro!: quiet_emit quiet_cm split: if_splits)

lemma quiet_steps:
  assumes "\<forall>e. \<not> wrong_answer (LoginError (si_error_text si e))"
  shows "permit_step he si lr h = (r, h1) \<Longrightarrow> quiet h h1"
    and "kind_step pf he lr h = (r, h1) \<Longrightarrow> quiet h h1"
    and "target_step pf he lr h = (r, h1) \<Longrightarrow> quiet h h1"
proof -
  show "permit_step he si lr h = (r, h1) \<Longrightarrow> quiet h h1"
    using assms by (auto simp: permit_step_def intro!: quiet_rules split: if_splits sum.splits)
  show "kind_step pf he lr h = (r, h1) \<Longrightarrow> quiet h h1"
    by (auto simp: kind_step_def refuse_def check_privacy_mode_on_def login_texts Let_def intro!: quiet_rules
        split: option.splits login_union.splits if_splits bool.splits)
  show "target_step pf he lr h = (r, h1) \<Longrightarrow> quiet h h1"
    by (auto simp: target_step_def refuse_def login_texts intro!: quiet_rules quiet_cm split: if_splits)
qed

lemma headless_off:
  assumes "\<not> c_headless_allowed (h_conn h)"
  shows "desktop_check pf he lr h = (None, h)" "desktop_error pf he lr (h_conn h) = []"
    "desktop_step pf he lr [] h = (None, h)"
  using assms
  by (simp_all add: desktop_check_def desktop_error_def desktop_step_def try_start_desktop_def
      should_check_linux_headless_os_auth_before_desktop_start_def)

lemma quiet_check_default:
  assumes "conn_check_failure he DefaultScope h = (ft, res, h1)"
  shows "quiet h h1" and "res \<Longrightarrow> failures_of (c_ip (h_conn h)) (h_server h) \<le> 30"
  using assms
  by (auto simp: conn_check_failure_def check_failure_with_scope_def check_address_failure_def check_failure_ipv6_prefix_def
      quiet_def conn_simps Let_def login_texts failures_of_def
      split: prod.splits if_splits option.splits)

lemma counted_failure:
  assumes "quiet h h1"
  shows "failures_of (c_ip (h_conn h)) (h_server (conn_update_failure he ft False DefaultScope h1))
    = wrap_i32 (failures_of (c_ip (h_conn h)) (h_server h) + 1)"
proof -
  have "c_ip (h_conn h) \<in> set (buckets (c_ip (h_conn h)))" by (simp add: buckets_def split: option.split)
  then show ?thesis
    using assms update_failure_map[of "c_ip (h_conn h)" "fst ft" "snd ft" False 0 "he_now he" "sv_failures (h_server h1)"]
    by (simp add: failures_of_def conn_update_failure_def upd_server_def quiet_def update_failure_def[symmetric]
        get_failure_fold_bump distinct_buckets bump_failure_entry_def split: prod.split)
qed

text \<open>A login of a peer that does not know the password is quiet, or it is counted and answered once.\<close>

definition counted :: "('d, 'p, 's) handler \<Rightarrow> ('d, 'p, 's) handler \<Rightarrow> bool" where
  "counted h h' \<longleftrightarrow> failures_of (c_ip (h_conn h)) (h_server h) \<le> 30
     \<and> failures_of (c_ip (h_conn h)) (h_server h') = wrap_i32 (failures_of (c_ip (h_conn h)) (h_server h) + 1)
     \<and> (\<exists>es. h_out h' = h_out h @ es \<and> length (filter wrong_answer es) = 1)"

lemma quiet_counted: "quiet h h1 \<Longrightarrow> counted h1 h' \<Longrightarrow> counted h h'"
  by (fastforce simp: quiet_def counted_def failures_of_def list_all_iff filter_empty_conv)

lemma wrong_password_counted:
  assumes run: "password_login he oe pw si lr m h = (k, h')" and lr: "c_lr (h_conn h) = lr"
    and wrong: "\<not> valid_password pw (allow_logon_screen_password (oe_platform oe) he) (he_now he) lr h"
  shows "quiet h h' \<or> counted h h'"
proof -
  obtain ft res h1 where c: "conn_check_failure he DefaultScope h = (ft, res, h1)" using prod_cases3 by blast
  obtain b h2 where v: "conn_validate_password he pw (allow_logon_screen_password (oe_platform oe) he) h1 = (b, h2)" by force
  have conn: "h_conn h1 = h_conn h" by (rule check_authorized[OF c])
  have b: "\<not> b"
    using validate_handler(1)[OF v] lr conn wrong password_view_eq(3)[OF login_view_password[OF check_default_view[OF c]]] by simp
  then have h2: "quiet h1 h2"
    using v by (auto simp: conn_validate_password_def validate_password_def quiet_def Let_def split: if_splits prod.splits)
  note q = quiet_trans[OF quiet_check_default(1)[OF c] h2]
  show ?thesis
  proof (cases res)
    case True
    let ?h3 = "upd_server (check_update_temporary_password pw False) (conn_update_failure he ft False DefaultScope h2)"
    have f: "failures_of ip (h_server ?h3) = failures_of ip (h_server (conn_update_failure he ft False DefaultScope h2))" for ip
      by (simp add: failures_of_def upd_server_def check_update_temporary_password_def Let_def)
    obtain es where es: "h_out h2 = h_out h @ es" "filter wrong_answer es = []"
      using q by (auto simp: quiet_def list_all_iff filter_empty_conv)
    have "counted h h'"
      using run c v b True es quiet_check_default(2)[OF c True] counted_failure[OF q, of he ft] f[of "c_ip (h_conn h)"]
      by (auto simp: password_login_def Let_def counted_def try_start_cm_def emit_def upd_server_def
          conn_update_failure_def failures_of_def split: if_splits)
    then show ?thesis ..
  next
    case False
    then show ?thesis using run c quiet_check_default(1)[OF c] by (simp add: password_login_def)
  qed
qed

lemma decide_counted:
  assumes run: "decide_login he oe pw si lr m h = (k, h')" and lr: "c_lr (h_conn h) = lr"
    and wrong: "\<not> valid_password pw (allow_logon_screen_password (oe_platform oe) he) (he_now he) lr h"
      "\<not> resumes_session pw (he_now he) lr h"
  shows "quiet h h' \<or> counted h h'"
proof (cases "click_required pw (allow_logon_screen_password (oe_platform oe) he) (sv_passwords (h_server h))")
  case True
  then show ?thesis using run quiet_logins(1) by (fastforce simp: decide_login_def)
next
  case False
  obtain r h1 where r: "conn_is_recent_session he pw h = (r, h1)" by force
  note recent = recent_session[OF r lr]
  have "quiet h h1" and "h_conn h1 = h_conn h"
    using r recent wrong
    by (auto simp: quiet_def conn_is_recent_session_def is_recent_session_def Let_def split: option.splits prod.splits)
  moreover have "quiet h1 h' \<or> counted h1 h'"
  proof (cases "lr_password lr = []")
    case True
    then show ?thesis using run r False recent(1) quiet_logins(2) by (fastforce simp: decide_login_def)
  next
    case nonempty: False
    then have "password_login he oe pw si lr m h1 = (k, h')" using run r False recent(1) wrong by (simp add: decide_login_def)
    moreover have "\<not> valid_password pw (allow_logon_screen_password (oe_platform oe) he) (he_now he) lr h1"
      using wrong(1) validate_password_passwords[OF recent(3)] recent(1,2) wrong(2) by (simp add: valid_password_def)
    ultimately show ?thesis using wrong_password_counted lr \<open>h_conn h1 = h_conn h\<close> by metis
  qed
  ultimately show ?thesis by (blast intro: quiet_trans quiet_counted)
qed

text \<open>A peer without a password: it knows neither a valid one nor that of a recent session, and the errors about
  its permit do not read like a wrong password.\<close>

definition knows_nothing ::
    "host_env \<Rightarrow> ('e, 's) opt_env \<Rightarrow> 'p password_api \<Rightarrow> 'c sign_in \<Rightarrow> 'd login_request \<Rightarrow> ('d, 'p, 's) handler \<Rightarrow> bool" where
  "knows_nothing he oe pw si lr h \<longleftrightarrow>
     \<not> valid_password pw (allow_logon_screen_password (oe_platform oe) he) (he_now he) lr h
     \<and> \<not> resumes_session pw (he_now he) lr h \<and> (\<forall>e. \<not> wrong_answer (LoginError (si_error_text si e)))
     \<and> \<not> c_headless_allowed (h_conn h)"

lemma headless_kept:
  "permit_step he si lr h = (r, h1) \<Longrightarrow> c_headless_allowed (h_conn h1) = c_headless_allowed (h_conn h)"
  "kind_step pf he lr h = (r, h1) \<Longrightarrow> c_headless_allowed (h_conn h1) = c_headless_allowed (h_conn h)"
  "target_step pf he lr h = (r, h1) \<Longrightarrow> c_headless_allowed (h_conn h1) = c_headless_allowed (h_conn h)"
  "c_headless_allowed (h_conn (login_start lr h)) = c_headless_allowed (h_conn h)"
  by (auto simp: permit_step_def kind_step_def target_step_def refuse_def check_privacy_mode_on_def Let_def
      try_start_cm_ipc_def login_start_def reset_session_scope_for_login_def handle_login_request_without_validation_def
      split: if_splits option.splits sum.splits login_union.splits bool.splits)

lemma quiet_start: "quiet h (login_start lr h)"
  by (simp add: login_start_def reset_session_scope_for_login_def handle_login_request_without_validation_def
      Let_def quiet_conn split: option.split)

lemma login_request_authorized: "c_authorized (handle_login_request_without_validation lr c) = c_authorized c"
  by (simp add: handle_login_request_without_validation_def Let_def split: option.split)

text \<open>Where a login on a machine without a headless desktop ends.\<close>

lemma login_stages:
  assumes run: "handle_login he oe pw si lr h = (k, h')" and "\<not> c_authorized (h_conn h)" "\<not> c_headless_allowed (h_conn h)"
  obtains "permit_step he si lr h = (Some k, h')"
  | h1 where "permit_step he si lr h = (None, h1)" "kind_step (oe_platform oe) he lr (login_start lr h1) = (Some k, h')"
  | h1 h2 where "permit_step he si lr h = (None, h1)" "kind_step (oe_platform oe) he lr (login_start lr h1) = (None, h2)"
      "target_step (oe_platform oe) he lr h2 = (Some k, h')"
  | h1 h2 h3 where "permit_step he si lr h = (None, h1)" "kind_step (oe_platform oe) he lr (login_start lr h1) = (None, h2)"
      "target_step (oe_platform oe) he lr h2 = (None, h3)" "decide_login he oe pw si lr [] h3 = (k, h')"
proof -
  note stages = that
  show thesis
  proof (cases "permit_step he si lr h")
    case (Pair r1 h1)
    show thesis
    proof (cases r1)
      case None
      have a: "\<not> c_authorized (h_conn h1)" using steps_unauthorized(1)[OF Pair] assms(2) by simp
      obtain r2 h2 where k: "kind_step (oe_platform oe) he lr (login_start lr h1) = (r2, h2)" by force
      obtain r3 h3 where t: "target_step (oe_platform oe) he lr h2 = (r3, h3)" by force
      have hl: "\<not> c_headless_allowed (h_conn h3)"
        using headless_kept(1)[OF Pair] headless_kept(2)[OF k] headless_kept(3)[OF t] headless_kept(4)[of lr h1] assms(3) by simp
      have "(k, h') = flow (r2, h2) (\<lambda>h. flow (target_step (oe_platform oe) he lr h) (\<lambda>h.
          flow (desktop_check (oe_platform oe) he lr h) (\<lambda>h. let err_msg = desktop_error (oe_platform oe) he lr (h_conn h) in
          flow (desktop_step (oe_platform oe) he lr err_msg h) (\<lambda>h. decide_login he oe pw si lr err_msg h))))"
        using run Pair None k a
        by (simp add: handle_login_def flow_def Let_def login_request_authorized login_start_def)
      then show thesis using stages Pair None k t headless_off[OF hl]
        by (cases r2; cases r3) (auto simp: flow_def Let_def)
    qed (use run Pair stages in \<open>simp add: handle_login_def flow_def\<close>)
  qed
qed

lemma login_quiet_or_counted:
  assumes run: "handle_login he oe pw si lr h = (k, h')" and not_auth: "\<not> c_authorized (h_conn h)"
    and wrong: "knows_nothing he oe pw si lr h"
  shows "quiet h h' \<or> counted h h'"
proof -
  have texts: "\<forall>e. \<not> wrong_answer (LoginError (si_error_text si e))" and hl: "\<not> c_headless_allowed (h_conn h)"
    using wrong by (simp_all add: knows_nothing_def)
  note steps = quiet_steps[OF texts]
  from run not_auth hl show ?thesis
  proof (cases rule: login_stages)
    case 1
    then show ?thesis using steps(1) by blast
  next
    case (2 h1)
    then show ?thesis using steps(1)[OF 2(1)] steps(2)[OF 2(2)] quiet_start[of h1 lr] quiet_trans by blast
  next
    case (3 h1 h2)
    then show ?thesis
      using steps(1)[OF 3(1)] steps(2)[OF 3(2)] steps(3)[OF 3(3)] quiet_start[of h1 lr] quiet_trans by blast
  next
    case (4 h1 h2 h3)
    note kind = kind_step_sets[OF 4(2), simplified]
    have q: "quiet h h3"
      using steps(1)[OF 4(1)] steps(2)[OF 4(2)] steps(3)[OF 4(3)] quiet_start[of h1 lr] quiet_trans by blast
    have view: "login_view h3 = login_view h2" by (rule target_step_view[OF 4(3)])
    have "password_view h3 = password_view h"
      using login_view_password[OF view] kind(4) permit_step_go(2)[OF 4(1)] by simp
    from password_view_eq[OF this] decide_counted[OF 4(4)] login_view_conn(4)[OF view, of lr] kind(1) wrong
    have "quiet h3 h' \<or> counted h3 h'" by (simp add: kind_set_def knows_nothing_def)
    with q show ?thesis by (blast intro: quiet_trans quiet_counted)
  qed
qed

text \<open>Logins from one address, on any of its connections and at any times, one after the other on the shared
  tables: the machine at that time, the sign-in, the request and the connection.\<close>

type_synonym ('c, 'd) guess = "host_env \<times> 'c sign_in \<times> 'd login_request \<times> 'd connection"

definition guess_handler :: "('c, 'd) guess \<Rightarrow> 'p server_state \<Rightarrow> ('d, 'p, 's) handler" where
  "guess_handler g s = (case g of (_, _, _, c) \<Rightarrow> \<lparr>h_conn = c, h_server = s, h_privacy = None, h_out = []\<rparr>)"

definition guess_login :: "('e, 's) opt_env \<Rightarrow> 'p password_api \<Rightarrow> ('c, 'd) guess \<Rightarrow> 'p server_state \<Rightarrow> ('d, 'p, 's) handler" where
  "guess_login oe pw g s = (case g of (he, si, lr, _) \<Rightarrow> snd (handle_login he oe pw si lr (guess_handler g s)))"

fun wrong_answers :: "('e, 's) opt_env \<Rightarrow> 'p password_api \<Rightarrow> ('c, 'd) guess list \<Rightarrow> 'p server_state \<Rightarrow> nat" where
  "wrong_answers oe pw [] s = 0"
| "wrong_answers oe pw (g # gs) s =
     (let h = guess_login oe pw g s in length (filter wrong_answer (h_out h)) + wrong_answers oe pw gs (h_server h))"

fun guessing :: "('e, 's) opt_env \<Rightarrow> 'p password_api \<Rightarrow> string \<Rightarrow> ('c, 'd) guess list \<Rightarrow> 'p server_state \<Rightarrow> bool" where
  "guessing oe pw ip [] s = True"
| "guessing oe pw ip (g # gs) s =
     (case g of (he, si, lr, c) \<Rightarrow>
        c_ip c = ip \<and> \<not> c_authorized c \<and> knows_nothing he oe pw si lr (guess_handler g s)
        \<and> guessing oe pw ip gs (h_server (guess_login oe pw g s)))"

lemma guesses_counted:
  assumes "guessing oe pw ip gs s" and "0 \<le> failures_of ip s" "failures_of ip s \<le> 31"
  shows "int (wrong_answers oe pw gs s) \<le> 31 - failures_of ip s"
  using assms
proof (induction gs arbitrary: s)
  case (Cons g gs)
  obtain he si lr c where g: "g = (he, si, lr, c)" by (cases g)
  obtain k h' h where run: "handle_login he oe pw si lr h = (k, h')" and eq: "h = guess_handler g s" "h' = guess_login oe pw g s"
    by (cases "handle_login he oe pw si lr (guess_handler g s)") (simp add: guess_login_def g)
  have h: "h_conn h = c" "h_server h = s" "h_out h = []" by (simp_all add: eq guess_handler_def g)
  have rest: "guessing oe pw ip gs (h_server h')" using Cons.prems g eq by simp
  from login_quiet_or_counted[OF run] Cons.prems(1) g h eq
  consider "quiet h h'" | "counted h h'" by auto
  then show ?case
  proof cases
    case 1
    then have "failures_of ip (h_server h') = failures_of ip s" "filter wrong_answer (h_out h') = []"
      using h by (auto simp: quiet_def failures_of_def list_all_iff filter_empty_conv)
    then show ?thesis using Cons.IH[OF rest] Cons.prems by (simp add: Let_def eq)
  next
    case 2
    then have "failures_of ip (h_server h') = failures_of ip s + 1" "length (filter wrong_answer (h_out h')) = 1"
        "failures_of ip s \<le> 30"
      using h g Cons.prems by (auto simp: counted_def wrap_i32_id)
    then show ?thesis using Cons.IH[OF rest] Cons.prems by (simp add: Let_def eq)
  qed
qed simp



end
