(* ===== verification/Agent_Supervisor.thy ===== *)
theory Agent_Supervisor
  imports Rust_Prelude "HOL-Library.Char_ord" "HOL-Library.List_Lexorder"
begin

text \<open>
  The supervisor of the tunnel agent, \<^verbatim>\<open>internal/agent/supervisor.go\<close>, with the parts of
  \<^verbatim>\<open>internal/model/model.go\<close> it works on.  One supervisor owns one agent process: \<open>apply\<close>
  installs a configuration the control centre sent, \<open>tick\<close> enforces the lease and restarts
  a process that died, \<open>stop_process\<close> ends it, and \<open>reap\<close> is the goroutine \<open>start\<close> leaves
  behind to wait for the process.

  The public operations exclude each other (\<^verbatim>\<open>operationMu\<close>), so an operation is one
  function on the state; what can happen in the middle of \<open>apply\<close> (the old process dies,
  the new one dies, the caller gives up) is part of the environment record it is given,
  as are the clock and the answers of the operating system.  The zero \<^verbatim>\<open>time.Time\<close> is
  \<^term>\<open>None\<close>.  The runtime directory is a map from paths to contents.  Path joining,
  SHA-256, Unicode lower-casing, \<^verbatim>\<open>%q\<close> and RFC 3339 printing are the fields of a
  \<open>go_platform\<close> record.
\<close>

named_theorems supervisor_defs "definitions of the supervisor's operations"

section \<open>Data\<close>

record go_platform =
  pf_join :: "string \<Rightarrow> string \<Rightarrow> string"
  pf_sha256 :: "string \<Rightarrow> string"
  pf_lower :: "string \<Rightarrow> string"
  pf_quote :: "string \<Rightarrow> string"
  pf_rfc3339 :: "ms \<Rightarrow> string"

record frp_profile =
  fp_public_base :: string
  fp_api_base :: string
  fp_host :: string
  fp_port :: int
  fp_domain :: string
  fp_cert_pem :: string

record tunnel_connection =
  tc_id :: string
  tc_subdomain :: string
  tc_proxy_type :: string
  tc_remote_port :: int
  tc_custom_domains :: "string list"
  tc_local_scheme :: string
  tc_local_host :: string
  tc_local_port :: int
  tc_enabled :: bool
  tc_version :: int
  tc_state :: string
  tc_applied_version :: int
  tc_error_code :: string
  tc_error_summary :: string
  tc_proxy_name :: string

record agent_lease =
  al_value :: string
  al_expires :: ms

record sync_response =
  sr_device_id :: string
  sr_target_version :: int
  sr_connections :: "tunnel_connection list"
  sr_lease :: "agent_lease option"

record model_state =
  ms_install_id :: string
  ms_profile :: frp_profile
  ms_device_id :: string
  ms_credential :: string
  ms_last_version :: int
  ms_sync_capability :: int
  ms_applied_version :: int
  ms_cached :: "tunnel_connection list"
  ms_lease :: "ms option"
  ms_agent_state :: string
  ms_agent_message :: string

definition current_sync_capability :: int where "current_sync_capability = 1"

definition sync_request_version :: "model_state \<Rightarrow> int" where
  "sync_request_version st =
     (if ms_sync_capability st < current_sync_capability then 0 else ms_last_version st)"

definition enrolled :: "model_state \<Rightarrow> bool" where
  "enrolled st = (ms_install_id st \<noteq> [] \<and> ms_device_id st \<noteq> [] \<and> ms_credential st \<noteq> [] \<and>
     fp_public_base (ms_profile st) \<noteq> [] \<and> fp_api_base (ms_profile st) \<noteq> [])"

text \<open>The port an \<^verbatim>\<open>UnmarshalJSON\<close> of a connection keeps: the canonical field if it is
  present, else the legacy one, else zero.\<close>

definition unmarshal_remote_port :: "int option \<Rightarrow> int option \<Rightarrow> int" where
  "unmarshal_remote_port remote legacy =
     (case remote of Some p \<Rightarrow> p | None \<Rightarrow> (case legacy of Some p \<Rightarrow> p | None \<Rightarrow> 0))"

text \<open>A started agent is its serial number (the identity of \<^verbatim>\<open>processRecord\<close>) and the
  argument vector it runs with.\<close>

record agent_process =
  pr_serial :: nat
  pr_arguments :: "string list"

record supervisor =
  su_agent_path :: string
  su_runtime_dir :: string
  su_expected_hash :: string
  su_profile :: frp_profile
  su_ca_path :: string
  su_ca_sha256 :: string
  su_domains :: "string list"
  su_tcp :: "int list"
  su_udp :: "int list"
  su_process :: "agent_process option"
  su_stopping :: bool
  su_applying :: bool
  su_lkg :: string
  su_lease :: "ms option"
  su_failures :: nat
  su_next :: "ms option"
  su_gave_up :: "ms option"
  su_serial :: nat
  su_files :: "string \<Rightarrow> string option"

definition restart_failure_limit :: nat where "restart_failure_limit = 5"
definition restart_cooldown :: ms where "restart_cooldown = 10 * 60 * 1000"

section \<open>Quoting and allow lists\<close>

text \<open>\<^verbatim>\<open>strings.ReplaceAll\<close> with a one-byte pattern.\<close>

definition replace_all :: "char \<Rightarrow> string \<Rightarrow> string \<Rightarrow> string" where
  "replace_all c r s = concat (map (\<lambda>x. if x = c then r else [x]) s)"

definition lf :: char where "lf = CHR 0x0A"
definition cr :: char where "cr = CHR 0x0D"
definition dquote :: char where "dquote = CHR 0x22"
definition bslash :: char where "bslash = CHR 0x5C"

lemmas toml_chars = lf_def cr_def dquote_def bslash_def

definition toml :: "string \<Rightarrow> string" where
  "toml v =
    (let v = replace_all bslash [bslash, bslash] v;
         v = replace_all dquote [bslash, dquote] v;
         v = replace_all cr [] v;
         v = replace_all lf [] v
     in [dquote] @ v @ [dquote])"

text \<open>\<^verbatim>\<open>strings.Trim(value, ".")\<close>.\<close>

definition trim_dots :: "string \<Rightarrow> string" where
  "trim_dots s = rev (dropWhile (\<lambda>c. c = CHR ''.'') (rev (dropWhile (\<lambda>c. c = CHR ''.'') s)))"

definition normal_domain :: "go_platform \<Rightarrow> string \<Rightarrow> string" where
  "normal_domain pf v = pf_lower pf (trim_dots (trim v))"

definition collect_custom_domains :: "go_platform \<Rightarrow> tunnel_connection list \<Rightarrow> string list" where
  "collect_custom_domains pf cs =
     sort (remdups (filter (\<lambda>d. d \<noteq> []) (concat
       (map (\<lambda>c. if \<not> tc_enabled c \<or> tc_proxy_type c \<noteq> ''http'' then []
                 else map (normal_domain pf) (tc_custom_domains c)) cs))))"

definition collect_remote_ports :: "string \<Rightarrow> tunnel_connection list \<Rightarrow> int list" where
  "collect_remote_ports kind cs =
     sort (remdups (map tc_remote_port
       (filter (\<lambda>c. tc_enabled c \<and> tc_proxy_type c = kind \<and> tc_remote_port c > 0) cs)))"

definition collect_tcp_ports :: "tunnel_connection list \<Rightarrow> int list" where
  "collect_tcp_ports = collect_remote_ports ''tcp''"

definition collect_udp_ports :: "tunnel_connection list \<Rightarrow> int list" where
  "collect_udp_ports = collect_remote_ports ''udp''"

definition join_ports :: "int list \<Rightarrow> string" where
  "join_ports ps = join '','' (map show_int ps)"

definition arguments :: "supervisor \<Rightarrow> string \<Rightarrow> string \<Rightarrow> string list" where
  "arguments s command config =
     [command, ''--config'', config,
      ''--server'', fp_host (su_profile s),
      ''--port'', show_int (fp_port (su_profile s)),
      ''--domain'', fp_domain (su_profile s)]
     @ (if su_ca_sha256 s \<noteq> [] then [''--tls-ca-sha256'', su_ca_sha256 s] else [])
     @ (if su_domains s \<noteq> [] then [''--allow-custom-domains'', join '','' (su_domains s)] else [])
     @ (if su_tcp s \<noteq> [] then [''--allow-tcp-ports'', join_ports (su_tcp s)] else [])
     @ (if su_udp s \<noteq> [] then [''--allow-udp-ports'', join_ports (su_udp s)] else [])"

section \<open>Rendering the configuration\<close>

definition line :: "string \<Rightarrow> string" where "line t = t @ [lf]"

definition key_value :: "string \<Rightarrow> string \<Rightarrow> string" where
  "key_value k v = line (k @ '' = '' @ v)"

definition proxy_name :: "tunnel_connection \<Rightarrow> string" where
  "proxy_name c =
     (if trim (tc_proxy_name c) = []
      then ''ht_'' @ replace_all (CHR ''-'') [] (tc_id c) @ ''_v'' @ show_int (tc_version c)
      else tc_proxy_name c)"

text \<open>The part of a proxy section that depends on its type.\<close>

definition render_kind ::
    "go_platform \<Rightarrow> frp_profile \<Rightarrow> tunnel_connection \<Rightarrow> string + string" where
  "render_kind pf profile c =
    (if tc_proxy_type c = ''http'' then
       Inr (key_value ''type'' (toml ''http'') @
            key_value ''customDomains''
              (''['' @ join '', '' (map toml
                 ((tc_subdomain c @ ''.'' @ fp_domain profile) # tc_custom_domains c)) @ '']''))
     else if tc_proxy_type c = ''tcp'' \<or> tc_proxy_type c = ''udp'' then
       (if tc_remote_port c < 1
        then Inl ((if tc_proxy_type c = ''tcp'' then ''TCP'' else ''UDP'') @ '' connection '' @
                  pf_quote pf (tc_id c) @ '' is missing remote port'')
        else Inr (key_value ''type'' (toml (tc_proxy_type c)) @
                  key_value ''remotePort'' (show_int (tc_remote_port c))))
     else Inl (''connection '' @ pf_quote pf (tc_id c) @ '' has unsupported proxy type '' @
               pf_quote pf (tc_proxy_type c)))"

definition render_proxy ::
    "go_platform \<Rightarrow> frp_profile \<Rightarrow> tunnel_connection \<Rightarrow> string + string" where
  "render_proxy pf profile c =
    (case render_kind pf profile c of Inl e \<Rightarrow> Inl e
     | Inr kind \<Rightarrow> Inr (
       line [] @ line (''['' @ ''[proxies]'' @ '']'') @
       key_value ''name'' (toml (proxy_name c)) @
       kind @
       line ''transport.useEncryption = true'' @
       line ''transport.useCompression = true'' @
       (if tc_proxy_type c \<noteq> ''udp'' then
          key_value ''healthCheck.type'' (toml ''tcp'') @
          line ''healthCheck.timeoutSeconds = 3'' @
          line ''healthCheck.intervalSeconds = 10''
        else []) @
       (if tc_proxy_type c = ''http'' \<and> tc_local_scheme c = ''https'' then
          line ''[proxies.plugin]'' @
          key_value ''type'' (toml ''http2https'') @
          key_value ''localAddr'' (toml (tc_local_host c @ '':'' @ show_int (tc_local_port c))) @
          key_value ''hostHeaderRewrite'' (toml (tc_local_host c))
        else
          key_value ''localIP'' (toml (tc_local_host c)) @
          key_value ''localPort'' (show_int (tc_local_port c)))))"

fun render_proxies ::
    "go_platform \<Rightarrow> frp_profile \<Rightarrow> tunnel_connection list \<Rightarrow> string + string" where
  "render_proxies pf profile [] = Inr []"
| "render_proxies pf profile (c # cs) =
    (if \<not> tc_enabled c then render_proxies pf profile cs
     else case render_proxy pf profile c of Inl e \<Rightarrow> Inl e
       | Inr t \<Rightarrow> (case render_proxies pf profile cs of Inl e \<Rightarrow> Inl e | Inr u \<Rightarrow> Inr (t @ u)))"

definition render_config ::
    "go_platform \<Rightarrow> frp_profile \<Rightarrow> sync_response \<Rightarrow> string \<Rightarrow> string + string" where
  "render_config pf profile resp ca =
    (case sr_lease resp of None \<Rightarrow> Inl ''cannot render configuration without a lease''
     | Some l \<Rightarrow>
       if trim (al_value l) = [] then Inl ''cannot render configuration without a lease''
       else case render_proxies pf profile (sr_connections resp) of Inl e \<Rightarrow> Inl e
         | Inr proxies \<Rightarrow> Inr (
           key_value ''serverAddr'' (toml (fp_host profile)) @
           key_value ''serverPort'' (show_int (fp_port profile)) @
           key_value ''user'' (toml (sr_device_id resp)) @
           line ''loginFailExit = true'' @
           line ''transport.tls.enable = true'' @
           line ''transport.tls.disableCustomTLSFirstByte = true'' @
           (if ca \<noteq> [] then
              key_value ''transport.tls.trustedCaFile'' (toml ca) @
              key_value ''transport.tls.serverName'' (toml (fp_host profile))
            else []) @
           line ''transport.heartbeatInterval = 30'' @
           line ''transport.heartbeatTimeout = 90'' @
           key_value ''metadatas.home_tunnel_lease'' (toml (al_value l)) @
           key_value ''log.to'' (toml ''console'') @
           key_value ''log.level'' (toml ''info'') @
           proxies))"

section \<open>Erasing a file\<close>

text \<open>What the system does with one \<^verbatim>\<open>secureDelete\<close>: whether the file opens, whether its
  size can be read, how many bytes the \<open>k\<close>-th write takes (its error is ignored), and
  whether the name can be removed.\<close>

record erase_io =
  er_open :: bool
  er_stat :: bool
  er_write :: "nat \<Rightarrow> nat"
  er_remove :: bool

definition zeroes_size :: int where "zeroes_size = 64 * 1024"

definition overwrite :: "nat \<Rightarrow> nat \<Rightarrow> string \<Rightarrow> string" where
  "overwrite off n c = take off c @ replicate n (CHR 0x00) @ drop (off + n) c"

partial_function (option) erase_loop ::
    "(nat \<Rightarrow> nat) \<Rightarrow> nat \<Rightarrow> nat \<Rightarrow> int \<Rightarrow> string \<Rightarrow> (nat \<times> string) option" where
  "erase_loop w k off remaining c =
    (if remaining > 0 then
       (let count = (if remaining < zeroes_size then remaining else zeroes_size);
            written = min (w k) (nat count)
        in erase_loop w (Suc k) (off + written) (remaining - count) (overwrite off written c))
     else Some (k, c))"

text \<open>\<^term>\<open>None\<close> stands for an overwriting loop that does not return.\<close>

definition erased :: "erase_io \<Rightarrow> string \<Rightarrow> string option" where
  "erased io c =
    (if er_open io \<and> er_stat io
     then map_option snd (erase_loop (er_write io) 0 0 (int (length c)) c) else Some c)"

definition secure_delete ::
    "erase_io \<Rightarrow> string \<Rightarrow> (string \<Rightarrow> string option) \<Rightarrow> (string \<Rightarrow> string option)" where
  "secure_delete io path files =
    (case files path of None \<Rightarrow> files
     | Some c \<Rightarrow>
       (case erased io c of None \<Rightarrow> files
        | Some c' \<Rightarrow> files(path := (if er_remove io then None else Some c'))))"

definition sanitize_output :: "string \<Rightarrow> string" where
  "sanitize_output v =
     replace_all lf '' '' (replace_all cr '' '' (take 512 (trim v)))"

definition enabled_count :: "tunnel_connection list \<Rightarrow> nat" where
  "enabled_count cs = length (filter tc_enabled cs)"

section \<open>Process control\<close>

definition backoff :: "nat \<Rightarrow> ms" where
  "backoff failures = int (2 ^ min failures 5) * 1000"

definition record_restart_failure :: "ms \<Rightarrow> supervisor \<Rightarrow> supervisor" where
  "record_restart_failure now s =
     s\<lparr>su_failures := Suc (su_failures s), su_next := Some (now + backoff (Suc (su_failures s)))\<rparr>"

text \<open>The waiting goroutine of \<open>start\<close>, when the process it waits for is still the
  supervisor's own.\<close>

definition reap :: "ms \<Rightarrow> supervisor \<Rightarrow> supervisor" where
  "reap now s =
    (case su_process s of None \<Rightarrow> s
     | Some _ \<Rightarrow>
       (let s' = s\<lparr>su_process := None, su_applying := False\<rparr>
        in if \<not> su_stopping s \<and> \<not> su_applying s then record_restart_failure now s' else s'))"

text \<open>\<^verbatim>\<open>stopProcess\<close> waits for the goroutine; with \<^term>\<open>su_stopping\<close> set the time of the
  exit is not looked at.\<close>

definition stop_process :: "supervisor \<Rightarrow> supervisor" where
  "stop_process s =
    (case su_process s of None \<Rightarrow> s\<lparr>su_applying := False\<rparr>
     | Some _ \<Rightarrow>
       (let s = reap 0 (s\<lparr>su_stopping := True\<rparr>)
        in s\<lparr>su_stopping := False, su_applying := False, su_process := None\<rparr>))"

definition start ::
    "string option \<Rightarrow> string \<Rightarrow> bool \<Rightarrow> supervisor \<Rightarrow> (string + agent_process) \<times> supervisor" where
  "start spawn_error config applying s =
    (case spawn_error of Some e \<Rightarrow> (Inl e, s)
     | None \<Rightarrow>
       (case su_process s of Some _ \<Rightarrow> (Inl ''agent process is already running'', s)
        | None \<Rightarrow>
          (let p = \<lparr>pr_serial = su_serial s, pr_arguments = arguments s ''run'' config\<rparr>
           in (Inr p, s\<lparr>su_process := Some p, su_applying := applying,
                        su_serial := Suc (su_serial s)\<rparr>))))"

text \<open>\<^verbatim>\<open>before (now + 1 minute)\<close>, for a time that may be zero.\<close>

definition near_expiry :: "ms \<Rightarrow> ms option \<Rightarrow> bool" where
  "near_expiry now t = (case t of None \<Rightarrow> True | Some t \<Rightarrow> t < now + 60 * 1000)"

definition restore ::
    "ms \<Rightarrow> string option \<Rightarrow> string \<Rightarrow> ms option \<Rightarrow> supervisor \<Rightarrow> string option \<times> supervisor" where
  "restore now spawn_error config lease s =
    (if config = [] \<or> near_expiry now lease then (None, s)
     else if su_files s config = None then (None, s)
     else case start spawn_error config False s of (Inl e, s) \<Rightarrow> (Some e, s)
       | (Inr _, s) \<Rightarrow> (None, s\<lparr>su_lkg := config, su_lease := lease\<rparr>))"

datatype agent_file = Open_error string | Read_error string | Contents string

definition inspect_agent :: "go_platform \<Rightarrow> agent_file \<Rightarrow> supervisor \<Rightarrow> string option" where
  "inspect_agent pf file s =
    (case file of Open_error e \<Rightarrow> Some (''open managed agent: '' @ e)
     | Read_error e \<Rightarrow> Some (''hash managed agent: '' @ e)
     | Contents c \<Rightarrow>
       if su_expected_hash s \<noteq> [] \<and> su_expected_hash s \<noteq> ''development'' \<and>
          pf_sha256 pf c \<noteq> su_expected_hash s
       then Some (''managed agent SHA-256 mismatch: got '' @ pf_sha256 pf c) else None)"

definition sync_trusted_ca ::
    "go_platform \<Rightarrow> string option \<Rightarrow> supervisor \<Rightarrow> string option \<times> supervisor" where
  "sync_trusted_ca pf write_error s =
    (let pem = fp_cert_pem (su_profile s)
     in if trim pem = [] then (None, s\<lparr>su_ca_path := [], su_ca_sha256 := []\<rparr>)
        else
          (let path = pf_join pf (su_runtime_dir s) ''frps-ca.pem''
           in case write_error of Some e \<Rightarrow> (Some (''write managed FRPS CA file: '' @ e), s)
              | None \<Rightarrow> (None, s\<lparr>su_files := (su_files s)(path \<mapsto> pem), su_ca_path := path,
                               su_ca_sha256 := pf_sha256 pf pem\<rparr>)))"

datatype pending_io =
    Create_error string
  | Write_error string string string
  | Written string

text \<open>\<^verbatim>\<open>writePending\<close>: the temporary file cannot be created; or it is created, holds some
  part of the text, fails and is erased; or it holds the whole text.\<close>

definition write_pending ::
    "(string \<Rightarrow> erase_io) \<Rightarrow> pending_io \<Rightarrow> string \<Rightarrow> supervisor \<Rightarrow> (string + string) \<times> supervisor" where
  "write_pending io p configuration s =
    (case p of Create_error e \<Rightarrow> (Inl (''create pending configuration: '' @ e), s)
     | Write_error path part e \<Rightarrow>
       (Inl (''write pending configuration: '' @ e),
        s\<lparr>su_files := secure_delete (io path) path ((su_files s)(path \<mapsto> part))\<rparr>)
     | Written path \<Rightarrow> (Inr path, s\<lparr>su_files := (su_files s)(path \<mapsto> configuration)\<rparr>))"

section \<open>Apply\<close>

datatype startup = Startup_exited string | Startup_survived | Startup_cancelled string

record apply_env =
  ae_now :: ms
  ae_agent :: agent_file
  ae_ca_write :: "string option"
  ae_pending :: pending_io
  ae_verify :: "(string \<times> string) option"
  ae_old_exit :: "ms option"
  ae_spawn :: "string option"
  ae_startup :: startup
  ae_exit_late :: bool
  ae_rename :: "string option"
  ae_restore_now :: ms
  ae_restore_spawn :: "string option"
  ae_erase :: "string \<Rightarrow> erase_io"

definition lkg_path :: "go_platform \<Rightarrow> supervisor \<Rightarrow> int \<Rightarrow> string" where
  "lkg_path pf s version =
     pf_join pf (su_runtime_dir s) (''lkg-'' @ show_int version @ ''.toml'')"

text \<open>From the successful verification on: stop the running agent, start the new
  configuration, wait for it to survive its start-up, and make it the last known good one.
  Each failure goes back to the previous configuration.\<close>

definition switch_over ::
    "go_platform \<Rightarrow> apply_env \<Rightarrow> sync_response \<Rightarrow> string \<Rightarrow> supervisor \<Rightarrow> (string + string) \<times> supervisor" where
  "switch_over pf e resp pending s =
    (let config = su_lkg s; lease = su_lease s;
         back = (\<lambda>s. snd (restore (ae_restore_now e) (ae_restore_spawn e) config lease s));
         s = stop_process s
     in case start (ae_spawn e) pending True s of
          (Inl err, s) \<Rightarrow> (Inl (''start agent: '' @ err), back s)
        | (Inr _, s) \<Rightarrow>
          (case ae_startup e of
             Startup_exited err \<Rightarrow>
               (Inl (''agent exited during startup: '' @ err), back (reap (ae_now e) s))
           | Startup_cancelled err \<Rightarrow> (Inl err, back (stop_process s))
           | Startup_survived \<Rightarrow>
             (let s = (if ae_exit_late e then reap (ae_now e) s else s);
                  lkg = lkg_path pf s (sr_target_version resp)
              in case ae_rename e of
                   Some err \<Rightarrow> (Inl (''promote last-known-good configuration: '' @ err),
                                back (stop_process s))
                 | None \<Rightarrow>
                   (let files = (su_files s)(pending := None, lkg := su_files s pending);
                        files = (if config \<noteq> [] \<and> config \<noteq> lkg
                                 then secure_delete (ae_erase e config) config files else files)
                    in (Inr lkg, s\<lparr>su_files := files\<rparr>)))))"

definition applied_connection :: "tunnel_connection \<Rightarrow> tunnel_connection" where
  "applied_connection c =
     c\<lparr>tc_applied_version := tc_version c, tc_error_code := [], tc_error_summary := [],
       tc_state := (if tc_enabled c then ''Online'' else ''Disabled'')\<rparr>"

definition applied_state :: "sync_response \<Rightarrow> agent_lease \<Rightarrow> model_state \<Rightarrow> model_state" where
  "applied_state resp l st =
     st\<lparr>ms_applied_version := sr_target_version resp, ms_lease := Some (al_expires l),
        ms_agent_state := ''Online'',
        ms_agent_message := show_nat (enabled_count (sr_connections resp)) @ '' active connection(s)'',
        ms_cached := map applied_connection (ms_cached st)\<rparr>"

definition with_lists :: "string list \<Rightarrow> int list \<Rightarrow> int list \<Rightarrow> supervisor \<Rightarrow> supervisor" where
  "with_lists domains tcp udp s = s\<lparr>su_domains := domains, su_tcp := tcp, su_udp := udp\<rparr>"

definition lists_of :: "go_platform \<Rightarrow> tunnel_connection list \<Rightarrow> supervisor \<Rightarrow> supervisor" where
  "lists_of pf cs = with_lists (collect_custom_domains pf cs) (collect_tcp_ports cs) (collect_udp_ports cs)"

text \<open>The rest of \<^verbatim>\<open>Apply\<close> after the pending file is written.  The deferred calls run last,
  in reverse order: a failure erases the pending file and then puts the previous allow
  lists back.\<close>

definition apply_pending ::
    "go_platform \<Rightarrow> apply_env \<Rightarrow> sync_response \<Rightarrow> string \<Rightarrow> supervisor \<Rightarrow> (string + string) \<times> supervisor" where
  "apply_pending pf e resp pending s =
    (let (r, s) =
       (case ae_verify e of
          Some (err, output) \<Rightarrow>
            (Inl (''agent rejected configuration: '' @ err @ '': '' @ sanitize_output output), s)
        | None \<Rightarrow>
          switch_over pf e resp pending (case ae_old_exit e of None \<Rightarrow> s | Some t \<Rightarrow> reap t s))
     in case r of Inr lkg \<Rightarrow> (Inr lkg, s)
        | Inl err \<Rightarrow> (Inl err, s\<lparr>su_files := secure_delete (ae_erase e pending) pending (su_files s)\<rparr>))"

definition install_config ::
    "go_platform \<Rightarrow> apply_env \<Rightarrow> sync_response \<Rightarrow> string \<Rightarrow> supervisor \<Rightarrow> (string + string) \<times> supervisor" where
  "install_config pf e resp configuration s =
    (let (r, s') =
       (case write_pending (ae_erase e) (ae_pending e) configuration (lists_of pf (sr_connections resp) s) of
          (Inl err, s) \<Rightarrow> (Inl err, s)
        | (Inr pending, s) \<Rightarrow> apply_pending pf e resp pending s)
     in case r of Inr lkg \<Rightarrow> (Inr lkg, s')
        | Inl err \<Rightarrow> (Inl err, with_lists (su_domains s) (su_tcp s) (su_udp s) s'))"

definition apply_sync ::
    "go_platform \<Rightarrow> apply_env \<Rightarrow> model_state \<Rightarrow> sync_response \<Rightarrow> supervisor \<Rightarrow>
       string option \<times> model_state \<times> supervisor" where
  "apply_sync pf e st resp s =
    (case sr_lease resp of None \<Rightarrow> (Some ''sync response did not include a lease'', st, s)
     | Some l \<Rightarrow>
       if near_expiry (ae_now e) (Some (al_expires l))
       then (Some ''lease is expired or too close to expiry'', st, stop_process s)
       else case inspect_agent pf (ae_agent e) s of Some err \<Rightarrow> (Some err, st, s)
       | None \<Rightarrow>
         (case sync_trusted_ca pf (ae_ca_write e) s of
            (Some err, s) \<Rightarrow> (Some err, st, s)
          | (None, s) \<Rightarrow>
            (case render_config pf (ms_profile st) resp (su_ca_path s) of
               Inl err \<Rightarrow> (Some err, st, s)
             | Inr configuration \<Rightarrow>
               (case install_config pf e resp configuration s of
                  (Inl err, s) \<Rightarrow> (Some err, st, s)
                | (Inr lkg, s) \<Rightarrow>
                  (None, applied_state resp l st,
                   s\<lparr>su_lkg := lkg, su_lease := Some (al_expires l), su_failures := 0,
                     su_next := None, su_gave_up := None, su_applying := False\<rparr>)))))"

section \<open>Tick and construction\<close>

record tick_env =
  te_agent :: agent_file
  te_spawn :: "string option"
  te_now :: ms

definition tick_restart ::
    "go_platform \<Rightarrow> tick_env \<Rightarrow> ms \<Rightarrow> ms option \<Rightarrow> supervisor \<Rightarrow> (string \<times> string) \<times> supervisor" where
  "tick_restart pf e now next s =
    (if (case next of None \<Rightarrow> False | Some t \<Rightarrow> now < t)
     then ((''Degraded'', ''agent restart scheduled for '' @ pf_rfc3339 pf (the next)), s)
     else case inspect_agent pf (te_agent e) s of
       Some err \<Rightarrow> ((''RepairRequired'', err), s)
     | None \<Rightarrow>
       (case start (te_spawn e) (su_lkg s) False s of
          (Inl err, s) \<Rightarrow>
            ((''Degraded'', ''agent restart failed: '' @ err), record_restart_failure (te_now e) s)
        | (Inr _, s) \<Rightarrow> ((''Online'', ''agent restarted''), s)))"

definition tick ::
    "go_platform \<Rightarrow> tick_env \<Rightarrow> ms \<Rightarrow> supervisor \<Rightarrow> (string \<times> string) \<times> supervisor" where
  "tick pf e now s =
    (if (case su_lease s of None \<Rightarrow> False | Some t \<Rightarrow> t \<le> now)
     then ((''ExpiredStop'', ''lease expired; agent stopped''), stop_process s)
     else if su_process s \<noteq> None then ((''Online'', ''agent is running''), s)
     else if su_lkg s = [] \<or> su_lease s = None
     then ((''Offline'', ''agent has no applied configuration''), s)
     else if su_failures s > restart_failure_limit then
       (let gave_up = (case su_gave_up s of None \<Rightarrow> now | Some t \<Rightarrow> t);
            ends = gave_up + restart_cooldown
        in if now < ends
           then ((''Error'', ''agent exceeded the automatic restart limit; retrying after '' @
                   pf_rfc3339 pf ends), s\<lparr>su_gave_up := Some gave_up\<rparr>)
           else tick_restart pf e now (su_next s)
                  (s\<lparr>su_failures := 0, su_next := None, su_gave_up := None\<rparr>))
     else tick_restart pf e now (su_next s) s)"

definition running :: "supervisor \<Rightarrow> bool" where
  "running s = (su_process s \<noteq> None)"

text \<open>\<^verbatim>\<open>sort.Slice\<close> by modification time, newest first; by name, last first, where a time is
  missing.\<close>

definition listed_before :: "(string \<times> ms option) \<Rightarrow> (string \<times> ms option) \<Rightarrow> bool" where
  "listed_before a b =
    (case (snd a, snd b) of (Some x, Some y) \<Rightarrow> y < x | _ \<Rightarrow> fst b < fst a)"

fun insert_listed :: "(string \<times> ms option) \<Rightarrow> (string \<times> ms option) list \<Rightarrow> (string \<times> ms option) list" where
  "insert_listed a [] = [a]"
| "insert_listed a (b # bs) =
    (if listed_before b a then b # insert_listed a bs
     else a # b # bs)"

definition new_supervisor ::
    "go_platform \<Rightarrow> (string \<Rightarrow> erase_io) \<Rightarrow> string option \<Rightarrow> string option \<Rightarrow> string \<Rightarrow> string \<Rightarrow> string \<Rightarrow>
     frp_profile \<Rightarrow> ms option \<Rightarrow> tunnel_connection list \<Rightarrow> (string \<times> ms option) list \<Rightarrow>
     (string \<Rightarrow> string option) \<Rightarrow> string + supervisor" where
  "new_supervisor pf io mkdir_error ca_error agent dir hash profile lease cs found files =
    (case mkdir_error of Some e \<Rightarrow> Inl (''create runtime directory: '' @ e)
     | None \<Rightarrow>
       (case sync_trusted_ca pf ca_error
          \<lparr>su_agent_path = agent, su_runtime_dir = dir, su_expected_hash = pf_lower pf (trim hash),
           su_profile = profile, su_ca_path = [], su_ca_sha256 = [], su_domains = [], su_tcp = [],
           su_udp = [], su_process = None, su_stopping = False, su_applying = False, su_lkg = [],
           su_lease = None, su_failures = 0, su_next = None, su_gave_up = None, su_serial = 0,
           su_files = files\<rparr> of
          (Some e, _) \<Rightarrow> Inl e
        | (None, s) \<Rightarrow>
          (let s = lists_of pf cs (s\<lparr>su_lease := lease\<rparr>)
           in case foldr insert_listed found [] of [] \<Rightarrow> Inr s
              | f # stale \<Rightarrow>
                Inr (s\<lparr>su_lkg := fst f,
                       su_files := fold (\<lambda>(p, _). secure_delete (io p) p) stale (su_files s)\<rparr>))))"

lemmas [supervisor_defs] = reap_def stop_process_def start_def restore_def record_restart_failure_def

end
