(* ===== verification/Agent_Lifecycle.thy ===== *)
theory Agent_Lifecycle
  imports Agent_Supervisor
begin

text \<open>
  What the agent supervisor guarantees over its life: every sequence of operations and
  process exits keeps the invariant that a running agent has a lease; a failed \<open>apply_sync\<close>
  leaves the settled configuration alone.
\<close>

section \<open>Runs\<close>

datatype sup_op =
    Op_apply apply_env model_state sync_response
  | Op_tick tick_env ms
  | Op_stop
  | Op_exit ms

fun sup_step :: "go_platform \<Rightarrow> sup_op \<Rightarrow> supervisor \<Rightarrow> supervisor" where
  "sup_step pf (Op_apply e st resp) s = snd (snd (apply_sync pf e st resp s))"
| "sup_step pf (Op_tick e now) s = snd (tick pf e now s)"
| "sup_step pf Op_stop s = stop_process s"
| "sup_step pf (Op_exit now) s = reap now s"

definition sup_run :: "go_platform \<Rightarrow> sup_op list \<Rightarrow> supervisor \<Rightarrow> supervisor" where
  "sup_run pf ops s = fold (sup_step pf) ops s"

text \<open>Between operations a running agent has a lease, and no operation is half done.\<close>

definition sup_ok :: "supervisor \<Rightarrow> bool" where
  "sup_ok s = (\<not> su_stopping s \<and> \<not> su_applying s \<and>
     (su_process s \<noteq> None \<longrightarrow> su_lease s \<noteq> None))"

section \<open>Process control keeps the invariant\<close>

lemma stop_process_simps [simp]:
  "su_process (stop_process s) = None"
  "su_applying (stop_process s) = False"
  "su_stopping (stop_process s) = (su_process s = None \<and> su_stopping s)"
  "su_lease (stop_process s) = su_lease s"
  "su_lkg (stop_process s) = su_lkg s"
  "su_files (stop_process s) = su_files s"
  "su_failures (stop_process s) = su_failures s"
  "su_runtime_dir (stop_process s) = su_runtime_dir s"
  by (auto simp: supervisor_defs split: option.splits)

lemma reap_simps [simp]:
  "su_process (reap t s) = None"
  "su_stopping (reap t s) = su_stopping s"
  "su_lease (reap t s) = su_lease s"
  "su_lkg (reap t s) = su_lkg s"
  "su_files (reap t s) = su_files s"
  "su_runtime_dir (reap t s) = su_runtime_dir s"
  by (auto simp: supervisor_defs Let_def split: option.splits)

definition allow_lists :: "supervisor \<Rightarrow> string list \<times> int list \<times> int list" where
  "allow_lists s = (su_domains s, su_tcp s, su_udp s)"

definition agent_trust :: "supervisor \<Rightarrow> frp_profile \<times> string \<times> string" where
  "agent_trust s = (su_profile s, su_ca_path s, su_ca_sha256 s)"

lemma lists_kept [simp]:
  "agent_trust (stop_process s) = agent_trust s" "agent_trust (reap t s) = agent_trust s" "agent_trust (s\<lparr>su_files := fs\<rparr>) = agent_trust s"
  "allow_lists (stop_process s) = allow_lists s" "allow_lists (reap t s) = allow_lists s"
  "arguments (stop_process s) = arguments s" "arguments (reap t s) = arguments s"
  "arguments (s\<lparr>su_files := fs\<rparr>) = arguments s" "allow_lists (s\<lparr>su_files := fs\<rparr>) = allow_lists s"
  by (auto simp: agent_trust_def allow_lists_def arguments_def fun_eq_iff supervisor_defs Let_def split: option.splits)

lemma reap_applying: "\<not> su_applying s \<Longrightarrow> \<not> su_applying (reap t s)"
  by (auto simp: supervisor_defs Let_def split: option.splits)

lemma reap_started: "su_process s \<noteq> None \<Longrightarrow> \<not> su_applying (reap t s)"
  by (auto simp: supervisor_defs Let_def split: option.splits)

lemma sup_ok_stop [simp]: "sup_ok (stop_process s) = (su_process s \<noteq> None \<or> \<not> su_stopping s)"
  by (auto simp: sup_ok_def)

lemma sup_ok_stopping: "sup_ok s \<Longrightarrow> \<not> su_stopping s"
  by (simp add: sup_ok_def)

lemma sup_ok_reap [simp]: "sup_ok s \<Longrightarrow> sup_ok (reap t s)"
  by (simp add: sup_ok_def reap_applying)

lemma sup_ok_frame:
  "sup_ok s \<Longrightarrow> su_stopping s' = su_stopping s \<Longrightarrow> su_applying s' = su_applying s \<Longrightarrow>
   su_process s' = su_process s \<Longrightarrow> su_lease s' = su_lease s \<Longrightarrow> sup_ok s'"
  by (simp add: sup_ok_def)

text \<open>The view of a state the configuration rests on.\<close>

definition settled :: "supervisor \<Rightarrow> string \<times> ms option \<times> (string \<Rightarrow> string option)" where
  "settled s = (su_lkg s, su_lease s, su_files s)"

lemma settled_simps [simp]:
  "settled (stop_process s) = settled s" "settled (reap t s) = settled s"
  by (simp_all add: settled_def)

lemma start_cases:
  "start sp config ap s = (Inl e, s') \<Longrightarrow> s' = s"
  "start sp config ap s = (Inr p, s') \<Longrightarrow>
     s' = s\<lparr>su_process := Some p, su_applying := ap, su_serial := Suc (su_serial s)\<rparr> \<and>
     su_process s = None \<and> pr_arguments p = arguments s ''run'' config"
  by (auto simp: start_def Let_def split: option.splits)

lemma restore_ok:
  assumes "sup_ok s" "settled s = (config, lease, files)"
  shows "sup_ok (snd (restore now sp config lease s))"
    and "settled (snd (restore now sp config lease s)) = settled s"
  using assms start_cases
  by (auto simp: restore_def sup_ok_def settled_def near_expiry_def
      split: prod.splits sum.splits option.splits dest!: start_cases)

lemma switch_over_fails:
  assumes "sup_ok s" "switch_over pf e resp p s = (Inl err, s')"
  shows "sup_ok s' \<and> settled s' = settled s"
proof -
  obtain r s1 where start: "start (ae_spawn e) p True (stop_process s) = (r, s1)" by force
  have ok: "sup_ok (stop_process s)" using assms(1) by (simp add: sup_ok_def)
  have restored: "sup_ok s2 \<Longrightarrow> settled s2 = settled s \<Longrightarrow>
      s' = snd (restore n sp (su_lkg s) (su_lease s) s2) \<Longrightarrow> sup_ok s' \<and> settled s' = settled s"
    for s2 n sp
    using restore_ok[of s2 "su_lkg s" "su_lease s" "su_files s"] by (simp add: settled_def)
  show ?thesis
  proof (cases r)
    case (Inl x)
    then have "s1 = stop_process s" using start start_cases(1) by blast
    then show ?thesis using assms(2) start Inl ok restored by (auto simp: switch_over_def Let_def)
  next
    case (Inr q)
    let ?s = "stop_process s"
    have s1: "s1 = ?s\<lparr>su_process := Some q, su_applying := True, su_serial := Suc (su_serial ?s)\<rparr>"
      using start start_cases(2) Inr by blast
    have set1: "settled s1 = settled s" using settled_simps(1)[of s] by (simp add: s1 settled_def)
    have st1: "\<not> su_stopping s1" using assms(1) by (simp add: s1 sup_ok_def)
    have "sup_ok (reap t s1)" for t
      using st1 reap_started[of s1] by (simp add: sup_ok_def s1)
    moreover have "sup_ok (stop_process s1)" "sup_ok (stop_process (reap t s1))" for t
      using st1 by auto
    ultimately show ?thesis
      using assms(2) start Inr set1 restored
      by (auto simp: switch_over_def Let_def split: startup.splits option.splits if_splits)
  qed
qed

lemma switch_over_succeeds:
  assumes "sup_ok s" "switch_over pf e resp p s = (Inr lkg, s')"
  shows "\<not> su_stopping s' \<and> lkg = lkg_path pf s (sr_target_version resp) \<and>
    su_files s' = (let files = (su_files s)(p := None, lkg := su_files s p)
       in if su_lkg s \<noteq> [] \<and> su_lkg s \<noteq> lkg
          then secure_delete (ae_erase e (su_lkg s)) (su_lkg s) files else files) \<and>
    (\<exists>q. pr_arguments q = arguments (stop_process s) ''run'' p \<and>
         su_process s' = (if ae_exit_late e then None else Some q))"
proof -
  obtain q s1 where start: "start (ae_spawn e) p True (stop_process s) = (Inr q, s1)"
    using assms(2) by (cases "start (ae_spawn e) p True (stop_process s)")
      (auto simp: switch_over_def Let_def split: sum.splits)
  note q = start_cases(2)[OF start]
  have "su_files s1 = su_files s" "su_runtime_dir s1 = su_runtime_dir s" "su_stopping s1 = su_stopping s"
    using q assms(1) by (simp_all add: sup_ok_def)
  then show ?thesis
    using assms start q
    by (auto simp: switch_over_def Let_def lkg_path_def sup_ok_def
        split: startup.splits option.splits if_splits)
qed

text \<open>Apply either fails and leaves the settled configuration alone, or ends with the new one.\<close>

lemma secure_delete_other [simp]: "q \<noteq> p \<Longrightarrow> secure_delete io p files q = files q"
  by (simp add: secure_delete_def split: option.splits)

lemma sup_ok_lists [simp]:
  "sup_ok (with_lists d t u s) = sup_ok s" "sup_ok (lists_of pf cs s) = sup_ok s"
  by (simp_all add: with_lists_def lists_of_def sup_ok_def)

lemma lists_simps [simp]:
  "su_lkg (with_lists d t u s) = su_lkg s" "su_lease (with_lists d t u s) = su_lease s"
  "su_files (with_lists d t u s) = su_files s" "su_process (with_lists d t u s) = su_process s"
  "su_lkg (lists_of pf cs s) = su_lkg s" "su_lease (lists_of pf cs s) = su_lease s"
  "su_files (lists_of pf cs s) = su_files s" "su_process (lists_of pf cs s) = su_process s"
  "su_stopping (lists_of pf cs s) = su_stopping s" "agent_trust (lists_of pf cs s) = agent_trust s"
  "su_runtime_dir (lists_of pf cs s) = su_runtime_dir s"
  by (simp_all add: with_lists_def lists_of_def agent_trust_def)

fun pending_path :: "pending_io \<Rightarrow> string option" where
  "pending_path (Create_error e) = None"
| "pending_path (Write_error p part e) = Some p"
| "pending_path (Written p) = Some p"

lemma write_pending_ok:
  assumes "sup_ok s" "write_pending io p conf s = (r, s')"
  shows "sup_ok s' \<and> su_lkg s' = su_lkg s \<and> su_lease s' = su_lease s \<and>
    (\<forall>q. Some q \<noteq> pending_path p \<longrightarrow> su_files s' q = su_files s q)"
  using assms
  by (auto simp: write_pending_def sup_ok_def split: pending_io.splits)

lemma apply_pending_fails:
  assumes "sup_ok s" "apply_pending pf e resp p s = (Inl err, s')"
  shows "sup_ok s' \<and> su_lkg s' = su_lkg s \<and> su_lease s' = su_lease s \<and>
    su_files s' = secure_delete (ae_erase e p) p (su_files s)"
proof (cases "ae_verify e")
  case (Some x)
  then show ?thesis using assms
    by (auto simp: apply_pending_def sup_ok_def split: prod.splits)
next
  case None
  let ?s = "case ae_old_exit e of None \<Rightarrow> s | Some t \<Rightarrow> reap t s"
  have ok: "sup_ok ?s" "settled ?s = settled s" using assms(1) by (auto split: option.splits)
  obtain r s1 where sw: "switch_over pf e resp p ?s = (r, s1)" by force
  with assms(2) None have r: "r = Inl err"
    and s': "s' = s1\<lparr>su_files := secure_delete (ae_erase e p) p (su_files s1)\<rparr>"
    by (auto simp: apply_pending_def split: sum.splits)
  have s1: "sup_ok s1" "settled s1 = settled s"
    using switch_over_fails[OF ok(1), of pf e resp p err s1] sw ok(2) r by simp_all
  then show ?thesis using sup_ok_frame[OF s1(1), of s'] by (simp add: s' settled_def)
qed

lemma install_config_fails:
  assumes "sup_ok s" "install_config pf e resp conf s = (Inl err, s')"
  shows "sup_ok s'" "su_lkg s' = su_lkg s" "su_lease s' = su_lease s"
    "Some q \<noteq> pending_path (ae_pending e) \<Longrightarrow> su_files s' q = su_files s q"
    "allow_lists s' = allow_lists s"
proof -
  let ?l = "lists_of pf (sr_connections resp) s"
  obtain r1 s1 where wp: "write_pending (ae_erase e) (ae_pending e) conf ?l = (r1, s1)" by force
  have ok: "sup_ok s1 \<and> su_lkg s1 = su_lkg s \<and> su_lease s1 = su_lease s \<and>
      (\<forall>q. Some q \<noteq> pending_path (ae_pending e) \<longrightarrow> su_files s1 q = su_files s q)"
    using write_pending_ok[OF _ wp] assms(1) by simp
  have path: "r1 = Inr p \<Longrightarrow> pending_path (ae_pending e) = Some p" for p
    using wp by (auto simp: write_pending_def split: pending_io.splits)
  obtain r2 s2 where r2: "(case r1 of Inl err \<Rightarrow> (Inl err, s1) | Inr p \<Rightarrow> apply_pending pf e resp p s1) = (r2, s2)"
    by force
  have eqs: "r2 = Inl err" "s' = with_lists (su_domains s) (su_tcp s) (su_udp s) s2"
    using assms(2) wp r2 by (auto simp: install_config_def split: sum.splits)
  have s2: "sup_ok s2 \<and> su_lkg s2 = su_lkg s \<and> su_lease s2 = su_lease s \<and>
      (\<forall>q. Some q \<noteq> pending_path (ae_pending e) \<longrightarrow> su_files s2 q = su_files s q)"
  proof (cases r1)
    case (Inl x) then show ?thesis using ok r2 by simp
  next
    case (Inr p)
    with r2 eqs(1) have "apply_pending pf e resp p s1 = (Inl err, s2)" by simp
    then show ?thesis using apply_pending_fails[of s1 pf e resp p err s2] ok path[OF Inr] by auto
  qed
  then show "sup_ok s'" "su_lkg s' = su_lkg s" "su_lease s' = su_lease s"
    "Some q \<noteq> pending_path (ae_pending e) \<Longrightarrow> su_files s' q = su_files s q"
    by (simp_all add: eqs(2))
  show "allow_lists s' = allow_lists s"
    by (simp add: eqs(2) with_lists_def allow_lists_def)
qed

lemma switch_over_lists:
  "switch_over pf e resp p s = (Inr lkg, s') \<Longrightarrow> allow_lists s' = allow_lists s \<and> agent_trust s' = agent_trust s"
proof -
  assume sw: "switch_over pf e resp p s = (Inr lkg, s')"
  obtain q s1 where start: "start (ae_spawn e) p True (stop_process s) = (Inr q, s1)"
    using sw by (cases "start (ae_spawn e) p True (stop_process s)")
      (auto simp: switch_over_def Let_def split: sum.splits)
  have "allow_lists s1 = allow_lists s \<and> agent_trust s1 = agent_trust s"
    using start_cases(2)[OF start] lists_kept(1,4)[of s] by (simp add: allow_lists_def agent_trust_def)
  then show ?thesis using sw start
    by (auto simp: switch_over_def Let_def split: startup.splits option.splits if_splits)
qed

lemma install_config_succeeds:
  assumes "sup_ok s" "install_config pf e resp conf s = (Inr lkg, s')"
  obtains p q where "ae_pending e = Written p" "\<not> su_stopping s'"
    "lkg = lkg_path pf s (sr_target_version resp)"
    "su_files s' = (let files = (su_files s)(p := None, lkg := Some conf)
       in if su_lkg s \<noteq> [] \<and> su_lkg s \<noteq> lkg
          then secure_delete (ae_erase e (su_lkg s)) (su_lkg s) files else files)"
    "pr_arguments q = arguments (lists_of pf (sr_connections resp) s) ''run'' p"
    "su_process s' = (if ae_exit_late e then None else Some q)"
    "allow_lists s' = allow_lists (lists_of pf (sr_connections resp) s)" "agent_trust s' = agent_trust s"
proof -
  let ?l = "lists_of pf (sr_connections resp) s"
  have "\<exists>p. ae_pending e = Written p"
    using assms(2) by (auto simp: install_config_def write_pending_def split: pending_io.splits)
  then obtain p where p: "ae_pending e = Written p" by blast
  let ?w = "?l\<lparr>su_files := (su_files ?l)(p \<mapsto> conf)\<rparr>"
  let ?o = "case ae_old_exit e of None \<Rightarrow> ?w | Some t \<Rightarrow> reap t ?w"
  have ok: "sup_ok ?w" using assms(1) by (auto intro: sup_ok_frame[of ?l])
  have o: "sup_ok ?o" "arguments ?o = arguments ?l" "su_files ?o = (su_files s)(p \<mapsto> conf)"
    "su_lkg ?o = su_lkg s" "su_runtime_dir ?o = su_runtime_dir s" "allow_lists ?o = allow_lists ?l" "agent_trust ?o = agent_trust s"
    using ok by (auto split: option.splits)
  have "ae_verify e = None \<and> switch_over pf e resp p ?o = (Inr lkg, s')"
    using assms(2) p
    by (auto simp: install_config_def write_pending_def apply_pending_def
        split: prod.splits sum.splits option.splits)
  then have sw: "switch_over pf e resp p ?o = (Inr lkg, s')" by blast
  from switch_over_succeeds[OF o(1) sw] obtain q where
    "pr_arguments q = arguments ?l ''run'' p" "su_process s' = (if ae_exit_late e then None else Some q)"
    by (auto simp: o)
  with switch_over_succeeds[OF o(1) sw] switch_over_lists[OF sw] show thesis
    by (intro that[OF p]) (auto simp: o lkg_path_def Let_def)
qed

lemma sync_trusted_ca_ok:
  assumes "sync_trusted_ca pf w s = (r, s')"
  shows "sup_ok s' = sup_ok s" "su_lkg s' = su_lkg s" "su_lease s' = su_lease s" "allow_lists s' = allow_lists s"
    "su_process s' = su_process s" "su_runtime_dir s' = su_runtime_dir s"
    "q \<noteq> pf_join pf (su_runtime_dir s) ''frps-ca.pem'' \<Longrightarrow> su_files s' q = su_files s q"
  using assms
  by (auto simp: sync_trusted_ca_def Let_def sup_ok_def allow_lists_def split: if_splits option.splits)

lemma apply_sync_failure:
  assumes "apply_sync pf e st resp s = (Some err, st', s')"
    "sync_trusted_ca pf (ae_ca_write e) s = (r1, s1)"
  shows "st' = st \<and> (s' = s \<or> s' = stop_process s \<or> s' = s1 \<or>
      (\<exists>conf. install_config pf e resp conf s1 = (Inl err, s')))"
proof -
  obtain l where l: "sr_lease resp = Some l \<or> (s' = s \<and> st' = st)"
    using assms(1) by (cases "sr_lease resp") (auto simp: apply_sync_def)
  show ?thesis
    using assms l
    by (auto simp: apply_sync_def simp del: split_paired_Ex
        split: option.split_asm if_split_asm prod.split_asm sum.split_asm)
qed

lemma apply_sync_fails:
  assumes ok: "sup_ok s" and ap: "apply_sync pf e st resp s = (Some err, st', s')"
  shows "st' = st" "sup_ok s'" "su_lkg s' = su_lkg s" "su_lease s' = su_lease s" "allow_lists s' = allow_lists s"
    "Some q \<noteq> pending_path (ae_pending e) \<Longrightarrow> q \<noteq> pf_join pf (su_runtime_dir s) ''frps-ca.pem'' \<Longrightarrow>
       su_files s' q = su_files s q"
proof -
  obtain r1 s1 where ca: "sync_trusted_ca pf (ae_ca_write e) s = (r1, s1)" by force
  note kept = sync_trusted_ca_ok[OF ca]
  have s1: "sup_ok s1" using kept(1) ok by simp
  show "st' = st" using apply_sync_failure[OF ap ca] ..
  have "s' = s \<or> s' = stop_process s \<or> s' = s1 \<or> (\<exists>conf. install_config pf e resp conf s1 = (Inl err, s'))"
    using apply_sync_failure[OF ap ca] ..
  then consider (same) "s' = s" | (stopped) "s' = stop_process s" | (ca) "s' = s1"
    | (undone) conf where "install_config pf e resp conf s1 = (Inl err, s')" by metis
  then have "sup_ok s' \<and> su_lkg s' = su_lkg s \<and> su_lease s' = su_lease s \<and> allow_lists s' = allow_lists s \<and>
    (Some q \<noteq> pending_path (ae_pending e) \<longrightarrow> q \<noteq> pf_join pf (su_runtime_dir s) ''frps-ca.pem'' \<longrightarrow>
       su_files s' q = su_files s q)"
  proof cases
    case same then show ?thesis using ok by simp
  next
    case stopped then show ?thesis using sup_ok_stopping[OF ok] by simp
  next
    case ca then show ?thesis using kept s1 by simp
  next
    case undone
    note f = install_config_fails[OF s1 undone]
    show ?thesis using f(1,2,3,5) f(4)[of q] kept(2,3,4) kept(7)[of q] by simp
  qed
  then show "sup_ok s'" "su_lkg s' = su_lkg s" "su_lease s' = su_lease s" "allow_lists s' = allow_lists s"
    "Some q \<noteq> pending_path (ae_pending e) \<Longrightarrow> q \<noteq> pf_join pf (su_runtime_dir s) ''frps-ca.pem'' \<Longrightarrow>
       su_files s' q = su_files s q" by blast+
qed

lemma apply_sync_succeeds:
  assumes "sup_ok s" "apply_sync pf e st resp s = (None, st', s')"
  obtains l conf s1 s2 lkg where "sr_lease resp = Some l" "ae_now e + 60 * 1000 \<le> al_expires l"
    "inspect_agent pf (ae_agent e) s = None" "sync_trusted_ca pf (ae_ca_write e) s = (None, s1)"
    "sup_ok s1" "render_config pf (ms_profile st) resp (su_ca_path s1) = Inr conf"
    "install_config pf e resp conf s1 = (Inr lkg, s2)" "st' = applied_state resp l st"
    "s' = s2\<lparr>su_lkg := lkg, su_lease := Some (al_expires l), su_failures := 0,
       su_next := None, su_gave_up := None, su_applying := False\<rparr>"
proof -
  obtain r1 s1 where ca: "sync_trusted_ca pf (ae_ca_write e) s = (r1, s1)" by force
  have "sup_ok s1" using sync_trusted_ca_ok(1)[OF ca] assms(1) by simp
  with assms(2) ca show thesis
    by (auto simp: apply_sync_def near_expiry_def intro: that
        split: option.split_asm if_split_asm prod.split_asm sum.split_asm)
qed

lemma apply_sync_ok:
  assumes "sup_ok s" shows "sup_ok (snd (snd (apply_sync pf e st resp s)))"
proof -
  obtain r st' s' where ap: "apply_sync pf e st resp s = (r, st', s')" by (metis surj_pair)
  show ?thesis
  proof (cases r)
    case (Some err) then show ?thesis using apply_sync_fails(2)[OF assms] ap by simp
  next
    case None
    show ?thesis
    proof (rule apply_sync_succeeds[OF assms ap[unfolded None]], goal_cases)
      case (1 l conf s1 s2 lkg)
      then have "\<not> su_stopping s2" by (elim install_config_succeeds)
      then show ?case using 1 by (simp add: ap sup_ok_def)
    qed
  qed
qed

section \<open>Tick\<close>

lemma start_ok:
  "sup_ok s \<Longrightarrow> su_lease s \<noteq> None \<Longrightarrow> start sp c False s = (r, s') \<Longrightarrow>
     sup_ok s' \<and> su_lease s' = su_lease s"
  by (auto simp: start_def sup_ok_def Let_def split: option.splits)

lemma record_restart_failure_simps [simp]:
  "su_process (record_restart_failure t s) = su_process s"
  "su_lease (record_restart_failure t s) = su_lease s"
  "su_gave_up (record_restart_failure t s) = su_gave_up s"
  "su_failures (record_restart_failure t s) = Suc (su_failures s)"
  "sup_ok (record_restart_failure t s) = sup_ok s"
  by (simp_all add: record_restart_failure_def sup_ok_def)

lemma tick_restart_cases:
  obtains (waits) "snd (tick_restart pf e now nx s) = s"
  | (fails) "snd (tick_restart pf e now nx s) = record_restart_failure (te_now e) s"
  | (starts) p where "start (te_spawn e) (su_lkg s) False s = (Inr p, snd (tick_restart pf e now nx s))"
      "inspect_agent pf (te_agent e) s = None"
proof -
  obtain r s1 where st: "start (te_spawn e) (su_lkg s) False s = (r, s1)" by force
  show thesis
  proof (cases r)
    case (Inl x)
    then have "s1 = s" using st start_cases(1) by blast
    then show thesis using st Inl waits fails
      by (cases "case nx of None \<Rightarrow> False | Some t \<Rightarrow> now < t"; cases "inspect_agent pf (te_agent e) s")
        (simp_all add: tick_restart_def)
  next
    case (Inr p)
    then show thesis using st waits starts
      by (cases "case nx of None \<Rightarrow> False | Some t \<Rightarrow> now < t"; cases "inspect_agent pf (te_agent e) s")
        (simp_all add: tick_restart_def)
  qed
qed

lemma tick_restart_ok:
  assumes "sup_ok s" "su_lease s \<noteq> None"
  shows "sup_ok (snd (tick_restart pf e now nx s)) \<and> su_lease (snd (tick_restart pf e now nx s)) = su_lease s"
proof (cases rule: tick_restart_cases[of pf e now nx s])
  case waits then show ?thesis using assms by simp
next
  case fails then show ?thesis using assms by simp
next
  case starts then show ?thesis using start_ok[OF assms] by blast
qed

definition fresh_round :: "supervisor \<Rightarrow> supervisor" where
  "fresh_round s = s\<lparr>su_failures := 0, su_next := None, su_gave_up := None\<rparr>"

definition pause_ends :: "ms \<Rightarrow> supervisor \<Rightarrow> ms" where
  "pause_ends now s = (case su_gave_up s of None \<Rightarrow> now | Some t \<Rightarrow> t) + restart_cooldown"

lemma tick_cases:
  obtains (expired) t where "su_lease s = Some t" "t \<le> now" "snd (tick pf e now s) = stop_process s"
  | (idle) "snd (tick pf e now s) = s" "su_lease s = None \<or> su_process s \<noteq> None \<or> su_lkg s = []"
  | (paused) t where "su_lease s = Some t" "now < t" "su_process s = None"
      "restart_failure_limit < su_failures s" "now < pause_ends now s"
      "snd (tick pf e now s) = s\<lparr>su_gave_up := Some (pause_ends now s - restart_cooldown)\<rparr>"
  | (retry) t where "su_lease s = Some t" "now < t" "su_process s = None"
      "su_failures s \<le> restart_failure_limit" "tick pf e now s = tick_restart pf e now (su_next s) s"
  | (again) t where "su_lease s = Some t" "now < t" "su_process s = None"
      "restart_failure_limit < su_failures s" "pause_ends now s \<le> now"
      "tick pf e now s = tick_restart pf e now (su_next s) (fresh_round s)"
proof (cases "su_lease s")
  case None
  then show thesis using idle by (simp add: tick_def)
next
  case (Some t)
  consider "t \<le> now" | "now < t" "su_process s \<noteq> None \<or> su_lkg s = []"
    | "now < t" "su_process s = None" "su_lkg s \<noteq> []" "su_failures s \<le> restart_failure_limit"
    | "now < t" "su_process s = None" "su_lkg s \<noteq> []" "restart_failure_limit < su_failures s"
    by linarith
  then show thesis
  proof cases
    case 1 then show thesis using expired Some by (simp add: tick_def)
  next
    case 2 then show thesis using idle Some by (cases "su_process s") (simp_all add: tick_def)
  next
    case 3 then show thesis using retry Some by (simp add: tick_def)
  next
    case 4
    show thesis
    proof (cases "now < pause_ends now s")
      case True then show thesis using 4 paused Some by (simp add: tick_def pause_ends_def Let_def)
    next
      case False then show thesis using 4 again Some
        by (simp add: tick_def pause_ends_def fresh_round_def Let_def)
    qed
  qed
qed

lemma tick_ok:
  assumes "sup_ok s"
  shows "sup_ok (snd (tick pf e now s)) \<and> su_lease (snd (tick pf e now s)) = su_lease s"
proof (cases rule: tick_cases[of s now pf e])
  case expired then show ?thesis using sup_ok_stopping[OF assms] by simp
next
  case idle then show ?thesis using assms by simp
next
  case paused then show ?thesis using assms by (simp add: sup_ok_def)
next
  case retry then show ?thesis using tick_restart_ok[OF assms] by simp
next
  case again
  have "sup_ok (fresh_round s)" "su_lease (fresh_round s) = su_lease s"
    using assms by (simp_all add: sup_ok_def fresh_round_def)
  then show ?thesis using again tick_restart_ok[of "fresh_round s"] by simp
qed

lemma tick_expired: "su_lease s = Some t \<Longrightarrow> t \<le> now \<Longrightarrow> su_process (snd (tick pf e now s)) = None"
  by (simp add: tick_def)

lemma sup_run_ok: "sup_ok s \<Longrightarrow> sup_ok (sup_run pf ops s)"
proof (induction ops arbitrary: s)
  case (Cons op ops)
  have "sup_ok (sup_step pf op s)"
    using Cons.prems sup_ok_stopping[OF Cons.prems] by (cases op) (simp_all add: apply_sync_ok tick_ok)
  then show ?case using Cons.IH by (simp add: sup_run_def)
qed (simp add: sup_run_def)

lemma new_supervisor_ok:
  "new_supervisor pf io mk ca agent dir hash profile lease cs found files = Inr s \<Longrightarrow> sup_ok s"
  by (auto simp: new_supervisor_def Let_def sup_ok_def lists_of_def with_lists_def sync_trusted_ca_def
      split: option.split_asm prod.split_asm list.split_asm if_split_asm)

section \<open>Erasing\<close>

lemma erase_loop_unfold:
  "erase_loop w k off remaining c =
    (if remaining > 0 then
       (let count = min remaining zeroes_size; written = min (w k) (nat count)
        in erase_loop w (Suc k) (off + written) (remaining - count) (overwrite off written c))
     else Some (k, c))"
  by (subst erase_loop.simps) (simp add: Let_def min_def)

text \<open>The loop returns, whatever the writes do, after one write per started block of
  \<^term>\<open>zeroes_size\<close>.\<close>

lemma length_overwrite: "off + n \<le> length c \<Longrightarrow> length (overwrite off n c) = length c"
  by (simp add: overwrite_def)

lemma overwrite_step:
  "take off c = replicate off z \<Longrightarrow> off + n \<le> length c \<Longrightarrow> z = CHR 0x00 \<Longrightarrow>
     take (off + n) (overwrite off n c) = replicate (off + n) z"
  by (simp add: overwrite_def replicate_add)

lemma blocks_step:
  "0 < r \<Longrightarrow> nat ((r + zeroes_size - 1) div zeroes_size) =
     Suc (nat ((r - min r zeroes_size + zeroes_size - 1) div zeroes_size))"
proof (cases "r \<le> zeroes_size")
  case True
  assume "0 < r"
  then have "(r + zeroes_size - 1) div zeroes_size = 1"
    using True by (simp add: zeroes_size_def)
  then show ?thesis using True by (simp add: min_def zeroes_size_def)
next
  case False
  have "r + zeroes_size - 1 = (r - 1) + zeroes_size" by simp
  then have "(r + zeroes_size - 1) div zeroes_size = (r - 1) div zeroes_size + 1"
    by (simp add: zeroes_size_def)
  moreover have "0 \<le> (r - 1) div zeroes_size" using False by (simp add: zeroes_size_def)
  ultimately show ?thesis using False by (simp add: min_def nat_add_distrib)
qed

lemma erase_loop_returns:
  "\<exists>c'. erase_loop w k off remaining c =
     Some (k + nat ((remaining + zeroes_size - 1) div zeroes_size), c')"
proof (induction "nat remaining" arbitrary: k off remaining c rule: less_induct)
  case less
  show ?case
  proof (cases "0 < remaining")
    case True
    let ?n = "min remaining zeroes_size"
    have "nat (remaining - ?n) < nat remaining" using True by (simp add: zeroes_size_def min_def)
    from less[OF this, of "Suc k" "off + min (w k) (nat ?n)" "overwrite off (min (w k) (nat ?n)) c"]
    show ?thesis
      using True blocks_step[OF True] by (subst erase_loop_unfold) (simp add: Let_def)
  next
    case False
    then have "(remaining + zeroes_size - 1) div zeroes_size \<le> 0" by (simp add: zeroes_size_def)
    then show ?thesis using False by (subst erase_loop_unfold) simp
  qed
qed

lemma erase_loop_zeroes:
  assumes "\<forall>k. zeroes_size \<le> int (w k)"
  shows "0 \<le> remaining \<Longrightarrow> int off + remaining = int (length c) \<Longrightarrow> take off c = replicate off (CHR 0x00) \<Longrightarrow>
    map_option snd (erase_loop w k off remaining c) = Some (replicate (length c) (CHR 0x00))"
proof (induction "nat remaining" arbitrary: k off remaining c rule: less_induct)
  case less
  show ?case
  proof (cases "0 < remaining")
    case True
    let ?n = "min remaining zeroes_size"
    have w: "min (w k) (nat ?n) = nat ?n" using assms[rule_format, of k] by linarith
    have fits: "off + nat ?n \<le> length c" using less.prems True by linarith
    have "nat (remaining - ?n) < nat remaining" using True by (simp add: zeroes_size_def min_def)
    note IH = less.hyps[OF this, of "off + nat ?n" "overwrite off (nat ?n) c" "Suc k"]
    have "map_option snd (erase_loop w (Suc k) (off + nat ?n) (remaining - ?n) (overwrite off (nat ?n) c))
        = Some (replicate (length c) (CHR 0x00))"
      using IH less.prems True fits overwrite_step[OF less.prems(3) fits]
      by (simp add: length_overwrite min_def zeroes_size_def split: if_splits)
    then show ?thesis using True by (subst erase_loop_unfold) (simp add: Let_def w)
  next
    case False
    then show ?thesis using less.prems by (subst erase_loop_unfold) simp
  qed
qed

text \<open>\<^bold>\<open>C21\<close> (erasing ends and leaves nothing).  The overwriting loop of \<open>secureDelete\<close> returns
  after exactly one write per started 64 KiB block, even if every write fails or is cut
  short; and when the writes go through, every byte of the file has been zeroed.\<close>

theorem erase_loop_terminates:
  "(\<exists>c'. erase_loop w 0 0 (int (length c)) c =
      Some (nat ((int (length c) + zeroes_size - 1) div zeroes_size), c')) \<and>
   ((\<forall>k. zeroes_size \<le> int (w k)) \<longrightarrow>
      map_option snd (erase_loop w 0 0 (int (length c)) c) = Some (replicate (length c) (CHR 0x00)))"
  using erase_loop_returns[of w 0 0 "int (length c)" c] erase_loop_zeroes[of w "int (length c)" 0 c 0]
  by simp

theorem erase_loop_terminates_witness:
  "map_option snd (erase_loop (\<lambda>_. 65536) 0 0 5 ''token'') =
     Some [CHR 0x00, CHR 0x00, CHR 0x00, CHR 0x00, CHR 0x00]"
  using erase_loop_terminates[of "\<lambda>_. 65536" "''token''"] by (simp add: zeroes_size_def)

section \<open>Quoting\<close>

text \<open>Reading a TOML basic string back: a backslash takes the next character, a quote ends the
  string, a line break is not allowed.\<close>

fun read_basic :: "string \<Rightarrow> (string \<times> string) option" where
  "read_basic [] = None"
| "read_basic (c # cs) =
    (if c = dquote then Some ([], cs)
     else if c = bslash then
       (case cs of [] \<Rightarrow> None
        | d # ds \<Rightarrow> if d = dquote \<or> d = bslash then map_option (\<lambda>(v, r). (d # v, r)) (read_basic ds) else None)
     else if c = lf \<or> c = cr then None
     else map_option (\<lambda>(v, r). (c # v, r)) (read_basic cs))"

fun read_toml :: "string \<Rightarrow> (string \<times> string) option" where
  "read_toml [] = None"
| "read_toml (c # cs) = (if c = dquote then read_basic cs else None)"

definition one_line :: "string \<Rightarrow> string" where
  "one_line v = filter (\<lambda>c. c \<noteq> lf \<and> c \<noteq> cr) v"

lemma replace_all_Nil [simp]: "replace_all c r [] = []"
  and replace_all_Cons [simp]: "replace_all c r (x # xs) = (if x = c then r else [x]) @ replace_all c r xs"
  and replace_all_append [simp]: "replace_all c r (xs @ ys) = replace_all c r xs @ replace_all c r ys"
  by (simp_all add: replace_all_def)

lemma toml_Cons:
  "toml (c # v) = dquote #
     (if c = lf \<or> c = cr then [] else if c = dquote \<or> c = bslash then [bslash, c] else [c]) @ tl (toml v)"
  by (simp add: toml_def toml_chars)

lemma read_toml_body: "read_basic (tl (toml v) @ rest) = Some (one_line v, rest)"
proof (induction v)
  case Nil then show ?case by (simp add: toml_def one_line_def)
next
  case (Cons c v)
  then show ?case by (auto simp: toml_Cons one_line_def toml_chars)
qed


section \<open>A sample run\<close>

definition sample_platform :: go_platform where
  "sample_platform = \<lparr>pf_join = (\<lambda>d f. d @ ''/'' @ f), pf_sha256 = (\<lambda>c. c), pf_lower = (\<lambda>c. c),
     pf_quote = (\<lambda>c. c), pf_rfc3339 = show_int\<rparr>"

definition sample_frp_profile :: frp_profile where
  "sample_frp_profile = \<lparr>fp_public_base = ''https://t.example'', fp_api_base = ''https://t.example/api'',
     fp_host = ''t.example'', fp_port = 7000, fp_domain = ''t.example'', fp_cert_pem = []\<rparr>"

definition sample_tcp :: "int \<Rightarrow> tunnel_connection" where
  "sample_tcp port = \<lparr>tc_id = ''a-1'', tc_subdomain = ''box'', tc_proxy_type = ''tcp'',
     tc_remote_port = port, tc_custom_domains = [], tc_local_scheme = ''http'',
     tc_local_host = ''127.0.0.1'', tc_local_port = 22, tc_enabled = True, tc_version = 1,
     tc_state = [], tc_applied_version = 0, tc_error_code = [], tc_error_summary = [],
     tc_proxy_name = []\<rparr>"

definition sample_response :: "int \<Rightarrow> int \<Rightarrow> sync_response" where
  "sample_response version port = \<lparr>sr_device_id = ''dev'', sr_target_version = version,
     sr_connections = [sample_tcp port], sr_lease = Some \<lparr>al_value = ''token'', al_expires = 3600000\<rparr>\<rparr>"

definition sample_saved :: model_state where
  "sample_saved = \<lparr>ms_install_id = ''i'', ms_profile = sample_frp_profile, ms_device_id = ''dev'',
     ms_credential = ''c'', ms_last_version = 0, ms_sync_capability = 1, ms_applied_version = 0,
     ms_cached = [], ms_lease = None, ms_agent_state = [], ms_agent_message = []\<rparr>"

definition sample_erase :: erase_io where
  "sample_erase = \<lparr>er_open = True, er_stat = True, er_write = (\<lambda>_. 65536), er_remove = True\<rparr>"

definition sample_apply :: apply_env where
  "sample_apply = \<lparr>ae_now = 0, ae_agent = Contents ''agent'', ae_ca_write = None,
     ae_pending = Written ''/run/pending-1.toml'', ae_verify = None, ae_old_exit = None,
     ae_spawn = None, ae_startup = Startup_survived, ae_exit_late = False, ae_rename = None,
     ae_restore_now = 0, ae_restore_spawn = None, ae_erase = (\<lambda>_. sample_erase)\<rparr>"

definition sample_tick :: tick_env where
  "sample_tick = \<lparr>te_agent = Contents ''agent'', te_spawn = None, te_now = 0\<rparr>"

definition sample_new :: supervisor where
  "sample_new = \<lparr>su_agent_path = ''agent'', su_runtime_dir = ''/run'', su_expected_hash = ''agent'',
     su_profile = sample_frp_profile, su_ca_path = [], su_ca_sha256 = [], su_domains = [], su_tcp = [],
     su_udp = [], su_process = None, su_stopping = False, su_applying = False, su_lkg = [],
     su_lease = None, su_failures = 0, su_next = None, su_gave_up = None, su_serial = 0,
     su_files = (\<lambda>_. None)\<rparr>"

definition sample_running :: supervisor where
  "sample_running =
     sup_run sample_platform [Op_apply sample_apply sample_saved (sample_response 1 2222)] sample_new"

lemma sample_new_made:
  "new_supervisor sample_platform (\<lambda>_. sample_erase) None None ''agent'' ''/run'' ''agent'' sample_frp_profile
     None [] [] (\<lambda>_. None) = Inr sample_new"
proof -
  have "pf_lower sample_platform (trim ''agent'') = ''agent''" "trim [] = []"
    "collect_custom_domains sample_platform [] = []" "collect_tcp_ports [] = []" "collect_udp_ports [] = []"
    by code_simp+
  then show ?thesis
    by (simp add: new_supervisor_def sample_new_def sync_trusted_ca_def lists_of_def with_lists_def Let_def
        sample_frp_profile_def)
qed

lemma sample_running_facts:
  "running sample_running" "su_lease sample_running = Some 3600000" "su_gave_up sample_running = None"
  "su_lkg sample_running = ''/run/lkg-1.toml''" "su_tcp sample_running = [2222]"
  by code_simp+

lemma sample_running_ok: "sup_ok sample_running" "sup_ok sample_new"
  using new_supervisor_ok[OF sample_new_made] by (simp_all add: sample_running_def sup_run_ok)

section \<open>The lease\<close>

text \<open>\<^bold>\<open>C3\<close> (a lease is never outlived).  Take a new supervisor through any sequence of applied
  configurations, ticks, stops and process exits, whatever the operating system answers.  An
  agent that is running then has a lease, and a tick leaves one running only if that lease has
  not expired at the tick's time.\<close>

theorem agent_lease_enforced:
  assumes "new_supervisor pf io mk ca agent dir hash profile lease cs found files = Inr s0"
    and "s = sup_run pf ops s0"
  shows "(running s \<longrightarrow> su_lease s \<noteq> None) \<and>
    (running (snd (tick pf e now s)) \<longrightarrow>
      (\<exists>t. su_lease (snd (tick pf e now s)) = Some t \<and> now < t))"
proof -
  have ok: "sup_ok s" using sup_run_ok new_supervisor_ok assms by blast
  then have "running s \<longrightarrow> su_lease s \<noteq> None" by (simp add: sup_ok_def running_def)
  moreover have "running (snd (tick pf e now s)) \<longrightarrow>
      (\<exists>t. su_lease (snd (tick pf e now s)) = Some t \<and> now < t)"
    using tick_ok[OF ok, of pf e now] tick_expired[of s _ now pf e]
    by (cases "su_lease s") (auto simp: sup_ok_def running_def not_le[symmetric])
  ultimately show ?thesis ..
qed

theorem agent_lease_enforced_witness:
  "running sample_running \<and> su_lease sample_running \<noteq> None \<and>
   running (snd (tick sample_platform sample_tick 1000 sample_running)) \<and>
   (\<exists>t. su_lease (snd (tick sample_platform sample_tick 1000 sample_running)) = Some t \<and> 1000 < t)"
proof -
  have "running (snd (tick sample_platform sample_tick 1000 sample_running))" by code_simp
  then show ?thesis
    using agent_lease_enforced[OF sample_new_made sample_running_def, of sample_tick 1000]
      sample_running_facts(1) by simp
qed

section \<open>All or nothing\<close>

text \<open>\<^bold>\<open>C15\<close> (applying is all or nothing).  When \<open>Apply\<close> reports an error, at whichever step,
  the saved state, the last known good configuration, its lease and the allow lists are what
  they were, and so is every file other than the pending one and the managed certificate.
  When it reports success, the saved state and the supervisor hold the new version and a
  lease with at least a minute left, the new configuration is the last known good file, and
  a running agent was started with the allow lists of the same response.\<close>

theorem apply_all_or_nothing:
  assumes ok: "sup_ok s" and ap: "apply_sync pf e st resp s = (r, st', s')"
  shows "case r of
     Some err \<Rightarrow> st' = st \<and> su_lkg s' = su_lkg s \<and> su_lease s' = su_lease s \<and> allow_lists s' = allow_lists s \<and>
       (\<forall>q. Some q \<noteq> pending_path (ae_pending e) \<and> q \<noteq> pf_join pf (su_runtime_dir s) ''frps-ca.pem'' \<longrightarrow>
          su_files s' q = su_files s q)
   | None \<Rightarrow> \<exists>l conf. sr_lease resp = Some l \<and> st' = applied_state resp l st \<and>
       su_lease s' = Some (al_expires l) \<and> ae_now e + 60 * 1000 \<le> al_expires l \<and>
       su_lkg s' = lkg_path pf s (sr_target_version resp) \<and> su_files s' (su_lkg s') = Some conf \<and>
       render_config pf (ms_profile st) resp (su_ca_path s') = Inr conf \<and>
       allow_lists s' = (collect_custom_domains pf (sr_connections resp),
         collect_tcp_ports (sr_connections resp), collect_udp_ports (sr_connections resp)) \<and>
       (\<forall>q. su_process s' = Some q \<longrightarrow>
          (\<exists>p. ae_pending e = Written p \<and> pr_arguments q = arguments s' ''run'' p))"
proof (cases r)
  case (Some err)
  note f = apply_sync_fails[OF ok ap[unfolded Some]]
  show ?thesis using f(1,3,4,5) f(6) Some by simp
next
  case None
  show ?thesis
  proof (rule apply_sync_succeeds[OF ok ap[unfolded None]], goal_cases)
    case (1 l conf s1 s2 lkg)
    have kept: "su_runtime_dir s1 = su_runtime_dir s" using sync_trusted_ca_ok[OF 1(4)] by simp
    obtain p q where pq: "ae_pending e = Written p" "lkg = lkg_path pf s1 (sr_target_version resp)"
      "pr_arguments q = arguments (lists_of pf (sr_connections resp) s1) ''run'' p"
      "su_process s2 = (if ae_exit_late e then None else Some q)"
      "allow_lists s2 = allow_lists (lists_of pf (sr_connections resp) s1)" "agent_trust s2 = agent_trust s1"
      by (rule install_config_succeeds[OF 1(5,7)]) blast
    have stored: "su_files s2 lkg = Some conf"
      by (rule install_config_succeeds[OF 1(5,7)]) (auto simp: Let_def secure_delete_other[OF not_sym])
    have "arguments s' = arguments (lists_of pf (sr_connections resp) s1)"
      using pq(5,6) 1(9)
      by (simp add: arguments_def fun_eq_iff agent_trust_def allow_lists_def lists_of_def with_lists_def)
    with 1 pq stored kept None show ?case
      by (simp add: lkg_path_def allow_lists_def agent_trust_def lists_of_def with_lists_def split: if_splits)
  qed
qed

theorem apply_all_or_nothing_witness:
  "\<exists>st s'. apply_sync sample_platform sample_apply sample_saved (sample_response 1 2222) sample_new =
       (None, st, s') \<and> allow_lists s' = ([], [2222], []) \<and> su_lease s' = Some 3600000 \<and>
     ms_applied_version st = 1"
proof -
  obtain r st s' where ap: "apply_sync sample_platform sample_apply sample_saved (sample_response 1 2222)
      sample_new = (r, st, s')" by (metis surj_pair)
  have "fst (apply_sync sample_platform sample_apply sample_saved (sample_response 1 2222) sample_new) = None"
    by code_simp
  with ap have r: "r = None" by simp
  have lists: "collect_custom_domains sample_platform [sample_tcp 2222] = []"
    "collect_tcp_ports [sample_tcp 2222] = [2222]" "collect_udp_ports [sample_tcp 2222] = []"
    by code_simp+
  from apply_all_or_nothing[OF sample_running_ok(2) ap] r ap show ?thesis
    by (auto simp: sample_response_def applied_state_def lists)
qed

section \<open>Restarts\<close>

text \<open>How often a run starts the agent, over ticks and process exits.\<close>

fun restart_run :: "go_platform \<Rightarrow> sup_op list \<Rightarrow> supervisor \<Rightarrow> nat \<times> supervisor" where
  "restart_run pf [] s = (0, s)"
| "restart_run pf (op # ops) s =
    (let s' = sup_step pf op s; (n, s'') = restart_run pf ops s'
     in ((if \<not> running s \<and> running s' then Suc n else n), s''))"

fun within :: "ms \<Rightarrow> ms \<Rightarrow> sup_op \<Rightarrow> bool" where
  "within a b (Op_tick e now) = (a \<le> now \<and> now < b)"
| "within a b (Op_exit now) = True"
| "within a b _ = False"

text \<open>The attempts a state still has: one per failure the limit allows, and none while it
  pauses.\<close>

definition attempts_left :: "supervisor \<Rightarrow> nat" where
  "attempts_left s = restart_failure_limit + 1 - su_failures s - (if running s then 1 else 0)"

definition pause_after :: "ms \<Rightarrow> supervisor \<Rightarrow> bool" where
  "pause_after a s = (case su_gave_up s of None \<Rightarrow> True | Some g \<Rightarrow> a \<le> g)"

lemma restart_step:
  assumes ok: "sup_ok s" and lease: "su_lease s = Some t" "b \<le> t" and b: "b \<le> a + restart_cooldown"
    and pause: "pause_after a s" and within: "within a b op"
    and s'_def: "s' = sup_step pf op s"
  shows "sup_ok s' \<and> su_lease s' = Some t \<and> pause_after a s' \<and>
    (if \<not> running s \<and> running s' then attempts_left s = Suc (attempts_left s')
     else attempts_left s' \<le> attempts_left s)"
proof (cases op)
  case (Op_exit now)
  then show ?thesis using ok lease pause sup_ok_reap[OF ok, of now]
    by (simp add: s'_def pause_after_def attempts_left_def running_def)
      (auto simp: supervisor_defs Let_def sup_ok_def split: option.splits)
next
  case (Op_tick e now)
  have now: "a \<le> now" "now < b" using within Op_tick by simp_all
  have s': "s' = snd (tick pf e now s)" by (simp add: s'_def Op_tick)
  have kept: "sup_ok s' \<and> su_lease s' = Some t" using tick_ok[OF ok] lease by (simp add: s')
  show ?thesis
  proof (cases rule: tick_cases[of s now pf e])
    case expired then show ?thesis using now lease by simp
  next
    case idle then show ?thesis using kept pause by (simp add: s')
  next
    case paused
    then show ?thesis using kept pause now
      by (auto simp: s' pause_after_def pause_ends_def attempts_left_def running_def split: option.splits)
  next
    case again
    then show ?thesis using pause now b by (simp add: pause_after_def pause_ends_def restart_cooldown_def split: option.splits)
  next
    case retry
    show ?thesis
    proof (cases rule: tick_restart_cases[of pf e now "su_next s" s])
      case waits then show ?thesis using kept pause retry by (simp add: s')
    next
      case fails then show ?thesis using kept pause retry
        by (simp add: s' pause_after_def attempts_left_def running_def)
    next
      case (starts p)
      then have "s' = s\<lparr>su_process := Some p, su_applying := False, su_serial := Suc (su_serial s)\<rparr>"
        using start_cases(2) retry by (metis s')
      then show ?thesis using kept pause retry
        by (simp add: pause_after_def attempts_left_def running_def)
    qed
  qed
qed (use within in simp_all)

lemma restart_run_bound:
  assumes "b \<le> t" "b \<le> a + restart_cooldown"
  shows "sup_ok s \<Longrightarrow> su_lease s = Some t \<Longrightarrow> pause_after a s \<Longrightarrow> \<forall>op \<in> set ops. within a b op \<Longrightarrow>
    fst (restart_run pf ops s) \<le> attempts_left s"
proof (induction ops arbitrary: s)
  case (Cons op ops)
  let ?s = "sup_step pf op s"
  note st = restart_step[OF Cons.prems(1,2) assms Cons.prems(3) _ refl, of op pf]
  have "fst (restart_run pf ops ?s) \<le> attempts_left ?s"
    using Cons.IH[of ?s] Cons.prems st by simp
  then show ?case using st Cons.prems(4) by (auto simp: Let_def split: prod.splits if_splits)
qed simp



end
