(* ===== verification/Managed_Agent.thy ===== *)
theory Managed_Agent
  imports Agent_Lifecycle
begin

text \<open>
  The tunnel agent's command line and its checks, \<^verbatim>\<open>agent/main.go\<close>: the agent runs a
  configuration only inside what the supervisor's arguments allow.  \<open>parse_flags\<close> is the loop
  of Go's \<^verbatim>\<open>flag\<close> package over the agent's eight flags.  What the FRP library parsed comes
  in as the fields the checks read, together with the outcome of comparing the whole value
  with the completed template (\<^verbatim>\<open>reflect.DeepEqual\<close>).  Case folding and the base-0 integer
  syntax of the port flag are fields of \<open>agent_lib\<close>.
\<close>

section \<open>Values\<close>

record agent_lib =
  lb_platform :: go_platform
  lb_fold_eq :: "string \<Rightarrow> string \<Rightarrow> bool"
  lb_int0 :: "string \<Rightarrow> int option"

datatype agent_error =
    Unknown_command
  | Bad_arguments
  | Bad_ca_hash
  | Too_many_domains | Bad_domain_list | Duplicate_domain
  | Too_many_ports | Bad_port_list | Duplicate_port
  | Bad_server
  | Not_toml | No_config | Bad_config_file | Template_expression
  | Parse_failed | Validation_failed | Unsupported_warning
  | Visitors_present | Server_mismatch | Bad_device | Bad_lease_metadata
  | Custom_tls_files | Missing_ca | Ca_unreadable | Ca_bad_file | Ca_hash_mismatch
  | Server_name_mismatch | Outside_template | Too_many_proxies
  | Domain_count | Repeated_domain | Domain_not_allowed | Managed_domain_count | Subdomain_set
  | Bad_local_target | Bad_plugin | Bad_host_rewrite
  | Tcp_port_not_allowed | Udp_port_not_allowed | Plugin_not_allowed
  | Proxy_type_not_allowed

record agent_flags =
  fl_config :: string
  fl_server :: string
  fl_port :: int
  fl_domain :: string
  fl_domains :: string
  fl_tcp :: string
  fl_udp :: string
  fl_ca :: string

record trust_profile =
  tp_server :: string
  tp_port :: int
  tp_domain :: string
  tp_domains :: "string list"
  tp_tcp :: "int list"
  tp_udp :: "int list"
  tp_ca :: string

definition max_config_bytes :: nat where "max_config_bytes = 1024 * 1024"
definition max_ca_bytes :: nat where "max_ca_bytes = 64 * 1024"

section \<open>Flags\<close>

definition no_flags :: agent_flags where
  "no_flags = \<lparr>fl_config = [], fl_server = [], fl_port = 0, fl_domain = [], fl_domains = [],
     fl_tcp = [], fl_udp = [], fl_ca = []\<rparr>"

definition set_flag :: "agent_lib \<Rightarrow> string \<Rightarrow> string \<Rightarrow> agent_flags \<Rightarrow> agent_flags option" where
  "set_flag lb name v f =
    (if name = ''config'' then Some (f\<lparr>fl_config := v\<rparr>)
     else if name = ''server'' then Some (f\<lparr>fl_server := v\<rparr>)
     else if name = ''port'' then map_option (\<lambda>p. f\<lparr>fl_port := p\<rparr>) (lb_int0 lb v)
     else if name = ''domain'' then Some (f\<lparr>fl_domain := v\<rparr>)
     else if name = ''allow-custom-domains'' then Some (f\<lparr>fl_domains := v\<rparr>)
     else if name = ''allow-tcp-ports'' then Some (f\<lparr>fl_tcp := v\<rparr>)
     else if name = ''allow-udp-ports'' then Some (f\<lparr>fl_udp := v\<rparr>)
     else if name = ''tls-ca-sha256'' then Some (f\<lparr>fl_ca := v\<rparr>)
     else None)"

text \<open>The arguments that are not flags, and the flags; \<^term>\<open>None\<close> for a syntax error, an
  unknown flag, a missing or an unreadable value.\<close>

fun parse_flags :: "agent_lib \<Rightarrow> string list \<Rightarrow> agent_flags \<Rightarrow> (string list \<times> agent_flags) option" where
  "parse_flags lb [] f = Some ([], f)"
| "parse_flags lb (a # args) f =
    (if length a < 2 \<or> hd a \<noteq> CHR ''-'' then Some (a # args, f)
     else if a = ''--'' then Some (args, f)
     else
       (let name = (if a ! 1 = CHR ''-'' then drop 2 a else drop 1 a)
        in if name = [] \<or> hd name = CHR ''-'' \<or> hd name = CHR ''='' then None
           else case split_once (CHR ''='') name of
             Some (n, v) \<Rightarrow>
               (case set_flag lb n v f of None \<Rightarrow> None | Some f \<Rightarrow> parse_flags lb args f)
           | None \<Rightarrow>
             (case args of [] \<Rightarrow> None
              | v # rest \<Rightarrow>
                (case set_flag lb name v f of None \<Rightarrow> None | Some f \<Rightarrow> parse_flags lb rest f))))"

section \<open>Allow lists\<close>

definition lower_alnum :: "char \<Rightarrow> bool" where
  "lower_alnum c = (is_ascii_digit c \<or> (CHR ''a'' \<le> c \<and> c \<le> CHR ''z''))"

definition subdomain_pattern :: "string \<Rightarrow> bool" where
  "subdomain_pattern s =
     (s \<noteq> [] \<and> length s \<le> 63 \<and> lower_alnum (hd s) \<and> lower_alnum (last s) \<and>
      list_all (\<lambda>c. lower_alnum c \<or> c = CHR ''-'') s)"

definition domain_pattern :: "string \<Rightarrow> bool" where
  "domain_pattern s =
     (s \<noteq> [] \<and> length s \<le> 253 \<and> lower_alnum (hd s) \<and> lower_alnum (last s) \<and>
      list_all (\<lambda>c. lower_alnum c \<or> c = CHR ''.'' \<or> c = CHR ''-'') s)"

definition sha256_hex_pattern :: "string \<Rightarrow> bool" where
  "sha256_hex_pattern s =
     (length s = 64 \<and> list_all (\<lambda>c. is_ascii_digit c \<or> (CHR ''a'' \<le> c \<and> c \<le> CHR ''f'')) s)"

definition valid_tunnel_domain :: "string \<Rightarrow> bool" where
  "valid_tunnel_domain v =
     (length v \<le> 253 \<and> domain_pattern v \<and> CHR ''.'' \<in> set v \<and>
      list_all subdomain_pattern (splitp (\<lambda>c. c = CHR ''.'') v))"

definition contains_any :: "string \<Rightarrow> string \<Rightarrow> bool" where
  "contains_any cs s = list_ex (\<lambda>c. c \<in> set cs) s"

definition line_blanks :: string where
  "line_blanks = [CHR 0x0D, CHR 0x0A, CHR 0x09, CHR '' '']"

definition valid_local_host :: "string \<Rightarrow> bool" where
  "valid_local_host h =
     (let h = trim h in h \<noteq> [] \<and> length h \<le> 253 \<and> \<not> contains_any (line_blanks @ [CHR ''/'', bslash]) h)"

definition validate_trust_profile :: "trust_profile \<Rightarrow> agent_error option" where
  "validate_trust_profile t =
    (if tp_server t = [] \<or> length (tp_server t) > 253 \<or>
        contains_any (line_blanks @ [CHR ''/'', bslash]) (tp_server t) \<or>
        tp_port t < 1 \<or> tp_port t > 65535 \<or> \<not> valid_tunnel_domain (tp_domain t)
     then Some Bad_server else None)"

fun add_domains :: "go_platform \<Rightarrow> string list \<Rightarrow> string list \<Rightarrow> agent_error + string list" where
  "add_domains pf [] seen = Inr seen"
| "add_domains pf (p # ps) seen =
    (let d = normal_domain pf p
     in if \<not> valid_tunnel_domain d then Inl Bad_domain_list
        else if d \<in> set seen then Inl Duplicate_domain
        else add_domains pf ps (seen @ [d]))"

definition parse_allowed_custom_domains :: "go_platform \<Rightarrow> string \<Rightarrow> agent_error + string list" where
  "parse_allowed_custom_domains pf v =
    (if trim v = [] then Inr []
     else let parts = splitp (\<lambda>c. c = CHR '','') v
          in if length parts > 100 then Inl Too_many_domains else add_domains pf parts [])"

text \<open>\<^verbatim>\<open>strconv.Atoi\<close>: an optional sign and decimal digits, within 64 bits.\<close>

definition go_atoi :: "string \<Rightarrow> int option" where
  "go_atoi s =
    (let neg = (s \<noteq> [] \<and> hd s = CHR ''-'');
         ds = (if s \<noteq> [] \<and> (hd s = CHR ''-'' \<or> hd s = CHR ''+'') then tl s else s);
         n = (if neg then - int (dec ds) else int (dec ds))
     in if ds \<noteq> [] \<and> list_all is_ascii_digit ds \<and> i64_min \<le> n \<and> n \<le> i64_max then Some n else None)"

fun add_ports :: "string list \<Rightarrow> int list \<Rightarrow> agent_error + int list" where
  "add_ports [] seen = Inr seen"
| "add_ports (p # ps) seen =
    (case go_atoi (trim p) of None \<Rightarrow> Inl Bad_port_list
     | Some n \<Rightarrow>
       if n < 1 \<or> n > 65535 then Inl Bad_port_list
       else if n \<in> set seen then Inl Duplicate_port
       else add_ports ps (seen @ [n]))"

definition parse_allowed_tcp_ports :: "string \<Rightarrow> agent_error + int list" where
  "parse_allowed_tcp_ports v =
    (if trim v = [] then Inr []
     else let parts = splitp (\<lambda>c. c = CHR '','') v
          in if length parts > 1000 then Inl Too_many_ports else add_ports parts [])"

definition parse_allowed_udp_ports :: "string \<Rightarrow> agent_error + int list" where
  "parse_allowed_udp_ports v =
    (if trim v = [] then Inr []
     else let parts = splitp (\<lambda>c. c = CHR '','') v
          in if length parts > 1000 then Inl Too_many_ports else add_ports parts [])"

section \<open>Proxies\<close>

record plugin_options =
  pl_http2https :: bool
  pl_local_addr :: string
  pl_host_rewrite :: string
  pl_headers_set :: bool

record managed_proxy =
  mp_remote_port :: int
  mp_local_ip :: string
  mp_local_port :: int
  mp_plugin :: "plugin_options option"
  mp_domains :: "string list"
  mp_subdomain :: string
  mp_as_template :: bool

datatype proxy_configurer =
    Http_proxy managed_proxy
  | Tcp_proxy managed_proxy
  | Udp_proxy managed_proxy
  | Other_proxy

definition is_managed_domain :: "go_platform \<Rightarrow> string \<Rightarrow> string \<Rightarrow> bool" where
  "is_managed_domain pf v tunnel =
    (let d = pf_lower pf (trim v); suffix = ''.'' @ normal_domain pf tunnel
     in length suffix \<ge> 3 \<and> ends_with d suffix \<and>
        subdomain_pattern (take (length d - length suffix) d))"

text \<open>The loop over the public domains of an HTTP proxy: how many of them are managed.\<close>

fun check_domains ::
    "go_platform \<Rightarrow> trust_profile \<Rightarrow> string list \<Rightarrow> string list \<Rightarrow> nat \<Rightarrow> agent_error + nat" where
  "check_domains pf t [] seen n = Inr n"
| "check_domains pf t (v # vs) seen n =
    (let d = normal_domain pf v
     in if d \<in> set seen then Inl Repeated_domain
        else if is_managed_domain pf d (tp_domain t) then check_domains pf t vs (d # seen) (Suc n)
        else if d \<notin> set (tp_domains t) then Inl Domain_not_allowed
        else check_domains pf t vs (d # seen) n)"

text \<open>\<^verbatim>\<open>net.SplitHostPort\<close>.\<close>

definition net_split_host_port :: "string \<Rightarrow> (string \<times> string) option" where
  "net_split_host_port hp =
    (case rsplit_once (CHR '':'') hp of None \<Rightarrow> None
     | Some (before, port) \<Rightarrow>
       if hp \<noteq> [] \<and> hd hp = CHR ''['' then
         (case split_once (CHR '']'') hp of None \<Rightarrow> None
          | Some (host, rest) \<Rightarrow>
            if rest = CHR '':'' # port \<and> CHR ''['' \<notin> set (tl hp) \<and> CHR '']'' \<notin> set rest
            then Some (tl host, port) else None)
       else if CHR '':'' \<in> set before \<or> CHR ''['' \<in> set hp \<or> CHR '']'' \<in> set hp then None
       else Some (before, port))"

definition local_target_ok :: "managed_proxy \<Rightarrow> bool" where
  "local_target_ok p =
     (1 \<le> mp_local_port p \<and> mp_local_port p \<le> 65535 \<and> valid_local_host (mp_local_ip p))"

definition check_plugin :: "plugin_options \<Rightarrow> agent_error option" where
  "check_plugin pl =
    (if \<not> pl_http2https pl then Some Bad_plugin
     else case net_split_host_port (pl_local_addr pl) of None \<Rightarrow> Some Bad_local_target
       | Some (host, port) \<Rightarrow>
         if \<not> valid_local_host host \<or> port = ''0'' then Some Bad_local_target
         else if pl_host_rewrite pl \<noteq> host \<or> pl_headers_set pl then Some Bad_host_rewrite
         else None)"

definition validate_managed_http :: "go_platform \<Rightarrow> trust_profile \<Rightarrow> managed_proxy \<Rightarrow> agent_error option" where
  "validate_managed_http pf t p =
    (if length (mp_domains p) < 1 \<or> length (mp_domains p) > 101 then Some Domain_count
     else case check_domains pf t (mp_domains p) [] 0 of Inl e \<Rightarrow> Some e
     | Inr n \<Rightarrow>
       if n \<noteq> 1 then Some Managed_domain_count
       else if mp_subdomain p \<noteq> [] then Some Subdomain_set
       else case (case mp_plugin p of
                    None \<Rightarrow> if local_target_ok p then None else Some Bad_local_target
                  | Some pl \<Rightarrow> check_plugin pl) of
              Some e \<Rightarrow> Some e
            | None \<Rightarrow> if mp_as_template p then None else Some Outside_template)"

definition validate_managed_tcp :: "trust_profile \<Rightarrow> managed_proxy \<Rightarrow> agent_error option" where
  "validate_managed_tcp t p =
    (if mp_remote_port p \<notin> set (tp_tcp t) then Some Tcp_port_not_allowed
     else if \<not> local_target_ok p then Some Bad_local_target
     else if mp_plugin p \<noteq> None then Some Plugin_not_allowed
     else if \<not> mp_as_template p then Some Outside_template
     else None)"

definition validate_managed_udp :: "trust_profile \<Rightarrow> managed_proxy \<Rightarrow> agent_error option" where
  "validate_managed_udp t p =
    (if mp_remote_port p \<notin> set (tp_udp t) then Some Udp_port_not_allowed
     else if \<not> local_target_ok p then Some Bad_local_target
     else if mp_plugin p \<noteq> None then Some Plugin_not_allowed
     else if \<not> mp_as_template p then Some Outside_template
     else None)"

fun validate_managed_proxy :: "go_platform \<Rightarrow> trust_profile \<Rightarrow> proxy_configurer \<Rightarrow> agent_error option" where
  "validate_managed_proxy pf t (Http_proxy p) = validate_managed_http pf t p"
| "validate_managed_proxy pf t (Tcp_proxy p) = validate_managed_tcp t p"
| "validate_managed_proxy pf t (Udp_proxy p) = validate_managed_udp t p"
| "validate_managed_proxy pf t Other_proxy = Some Proxy_type_not_allowed"

fun validate_proxies :: "go_platform \<Rightarrow> trust_profile \<Rightarrow> proxy_configurer list \<Rightarrow> agent_error option" where
  "validate_proxies pf t [] = None"
| "validate_proxies pf t (p # ps) =
    (case validate_managed_proxy pf t p of Some e \<Rightarrow> Some e | None \<Rightarrow> validate_proxies pf t ps)"

section \<open>The configuration\<close>

datatype disk_file = Missing_file | Irregular_file | Unreadable_file nat | Regular_file string

record parsed_config =
  pc_visitors :: nat
  pc_server :: string
  pc_port :: int
  pc_user :: string
  pc_metadatas :: "(string \<times> string) list"
  pc_ca_file :: string
  pc_server_name :: string
  pc_as_template :: bool
  pc_proxies :: "proxy_configurer list"

definition validate_trusted_ca :: "go_platform \<Rightarrow> disk_file \<Rightarrow> string \<Rightarrow> agent_error option" where
  "validate_trusted_ca pf file expected =
    (case file of Missing_file \<Rightarrow> Some Ca_unreadable
     | Irregular_file \<Rightarrow> Some Ca_bad_file
     | Unreadable_file n \<Rightarrow>
       if n = 0 \<or> n > max_ca_bytes then Some Ca_bad_file else Some Ca_unreadable
     | Regular_file c \<Rightarrow>
       if c = [] \<or> length c > max_ca_bytes then Some Ca_bad_file
       else if pf_sha256 pf c \<noteq> expected then Some Ca_hash_mismatch else None)"

definition check_ca ::
    "agent_lib \<Rightarrow> (string \<Rightarrow> disk_file) \<Rightarrow> trust_profile \<Rightarrow> parsed_config \<Rightarrow> agent_error option" where
  "check_ca lb disk t c =
    (if tp_ca t = [] then
       (if pc_ca_file c \<noteq> [] \<or> pc_server_name c \<noteq> [] then Some Custom_tls_files else None)
     else if pc_ca_file c = [] then Some Missing_ca
     else case validate_trusted_ca (lb_platform lb) (disk (pc_ca_file c)) (tp_ca t) of
       Some e \<Rightarrow> Some e
     | None \<Rightarrow>
       if \<not> lb_fold_eq lb (pc_server_name c) (tp_server t) then Some Server_name_mismatch else None)"

definition lease_metadata_ok :: "parsed_config \<Rightarrow> bool" where
  "lease_metadata_ok c =
    ((case map_of (pc_metadatas c) ''home_tunnel_lease'' of None \<Rightarrow> False | Some v \<Rightarrow> v \<noteq> []) \<and>
     length (pc_metadatas c) = 1)"

definition validate_managed_surface ::
    "agent_lib \<Rightarrow> (string \<Rightarrow> disk_file) \<Rightarrow> trust_profile \<Rightarrow> parsed_config \<Rightarrow> agent_error option" where
  "validate_managed_surface lb disk t c =
    (if pc_visitors c \<noteq> 0 then Some Visitors_present
     else if \<not> lb_fold_eq lb (pc_server c) (tp_server t) \<or> pc_port c \<noteq> tp_port t then Some Server_mismatch
     else if pc_user c = [] \<or> length (pc_user c) > 128 \<or> contains_any line_blanks (pc_user c)
     then Some Bad_device
     else if \<not> lease_metadata_ok c then Some Bad_lease_metadata
     else case check_ca lb disk t c of Some e \<Rightarrow> Some e
     | None \<Rightarrow>
       if \<not> pc_as_template c then Some Outside_template
       else if length (pc_proxies c) > 100 then Some Too_many_proxies
       else validate_proxies (lb_platform lb) t (pc_proxies c))"

text \<open>What the FRP library makes of a file: its own parser, and its own validation with an
  error or a warning.\<close>

datatype frp_reading = Frp_parse_error | Frp_invalid | Frp_warning | Frp_config parsed_config

definition load_managed_config ::
    "agent_lib \<Rightarrow> (string \<Rightarrow> disk_file) \<Rightarrow> (string \<Rightarrow> string) \<Rightarrow> (string \<Rightarrow> frp_reading) \<Rightarrow> string \<Rightarrow>
     trust_profile \<Rightarrow> agent_error + parsed_config" where
  "load_managed_config lb disk ext frp path t =
    (if \<not> lb_fold_eq lb (ext path) ''.toml'' then Inl Not_toml
     else case disk path of Missing_file \<Rightarrow> Inl No_config
     | Irregular_file \<Rightarrow> Inl Bad_config_file
     | Unreadable_file n \<Rightarrow> Inl (if n = 0 \<or> n > max_config_bytes then Bad_config_file else No_config)
     | Regular_file text \<Rightarrow>
       if text = [] \<or> length text > max_config_bytes then Inl Bad_config_file
       else if str_contains text ''{{'' \<or> str_contains text ''}}'' then Inl Template_expression
       else case frp text of Frp_parse_error \<Rightarrow> Inl Parse_failed
         | Frp_invalid \<Rightarrow> Inl Validation_failed
         | Frp_warning \<Rightarrow> Inl Unsupported_warning
         | Frp_config c \<Rightarrow>
           (case validate_managed_surface lb disk t c of Some e \<Rightarrow> Inl e | None \<Rightarrow> Inr c))"

section \<open>The command line\<close>

definition trust_of :: "agent_lib \<Rightarrow> agent_flags \<Rightarrow> agent_error + trust_profile" where
  "trust_of lb f =
    (let pf = lb_platform lb; ca = pf_lower pf (trim (fl_ca f))
     in if ca \<noteq> [] \<and> \<not> sha256_hex_pattern ca then Inl Bad_ca_hash
        else case parse_allowed_custom_domains pf (fl_domains f) of Inl e \<Rightarrow> Inl e
        | Inr domains \<Rightarrow>
          (case parse_allowed_tcp_ports (fl_tcp f) of Inl e \<Rightarrow> Inl e
           | Inr tcp \<Rightarrow>
             (case parse_allowed_udp_ports (fl_udp f) of Inl e \<Rightarrow> Inl e
              | Inr udp \<Rightarrow>
                (let t = \<lparr>tp_server = trim (fl_server f), tp_port = fl_port f,
                          tp_domain = normal_domain pf (fl_domain f), tp_domains = domains,
                          tp_tcp = tcp, tp_udp = udp, tp_ca = ca\<rparr>
                 in case validate_trust_profile t of Some e \<Rightarrow> Inl e | None \<Rightarrow> Inr t))))"

datatype agent_action = Print_version | Verified nat | Run_service parsed_config

definition execute ::
    "agent_lib \<Rightarrow> (string \<Rightarrow> disk_file) \<Rightarrow> (string \<Rightarrow> string) \<Rightarrow> (string \<Rightarrow> frp_reading) \<Rightarrow> string list \<Rightarrow>
     agent_error + agent_action" where
  "execute lb disk ext frp args =
    (case args of [] \<Rightarrow> Inl Unknown_command
     | command # rest \<Rightarrow>
       if rest = [] \<and> (command = ''version'' \<or> command = ''--version'') then Inr Print_version
       else if command \<noteq> ''verify'' \<and> command \<noteq> ''run'' then Inl Unknown_command
       else case parse_flags lb rest no_flags of None \<Rightarrow> Inl Bad_arguments
       | Some (left, f) \<Rightarrow>
         if left \<noteq> [] then Inl Bad_arguments
         else case trust_of lb f of Inl e \<Rightarrow> Inl e
         | Inr t \<Rightarrow>
           (case load_managed_config lb disk ext frp (fl_config f) t of Inl e \<Rightarrow> Inl e
            | Inr c \<Rightarrow>
              if command = ''verify'' then Inr (Verified (length (pc_proxies c)))
              else Inr (Run_service c)))"

section \<open>The arguments read back\<close>

lemma digit_char_plain:
  "is_ascii_digit c \<Longrightarrow> \<not> is_cont c \<and> \<not> is_whitespace [c]" "is_ascii_digit c \<Longrightarrow> c \<noteq> CHR ''-'' \<and> c \<noteq> CHR ''+'' \<and> c \<noteq> CHR '',''"
  by (auto simp: is_ascii_digit_def is_cont_def is_whitespace_def)

lemma trim_digits: "list_all is_ascii_digit s \<Longrightarrow> trim s = s"
  using digit_char_plain by (intro trim_ascii) (auto simp: list_all_iff)

lemma show_int_digits: "0 \<le> p \<Longrightarrow> list_all is_ascii_digit (show_int p)"
  by (simp add: show_int_def show_nat_digits)

lemma port_digit: "1 \<le> p \<Longrightarrow> c \<in> set (show_int p) \<Longrightarrow> is_ascii_digit c"
  using show_int_digits[of p] by (simp add: list_all_iff)

lemma go_atoi_show_int:
  assumes "0 \<le> p" "p \<le> i64_max" shows "go_atoi (show_int p) = Some p"
proof -
  have "show_int p \<noteq> []" using assms by (simp add: show_int_def)
  moreover from this have "is_ascii_digit (hd (show_int p))"
    using show_int_digits[OF assms(1)] by (cases "show_int p") simp_all
  then have "hd (show_int p) \<noteq> CHR ''-'' \<and> hd (show_int p) \<noteq> CHR ''+''" using digit_char_plain(2) by blast
  moreover have "dec (show_int p) = nat p" using assms by (simp add: show_int_def)
  ultimately show ?thesis using assms show_int_digits[OF assms(1)]
    by (simp add: go_atoi_def i64_min_def)
qed

definition port_list :: "int list \<Rightarrow> bool" where
  "port_list ps = (distinct ps \<and> list_all (\<lambda>p. 1 \<le> p \<and> p \<le> 65535) ps \<and> length ps \<le> 1000)"

lemma add_ports_show:
  "distinct (seen @ ps) \<Longrightarrow> list_all (\<lambda>p. 1 \<le> p \<and> p \<le> 65535) ps \<Longrightarrow>
     add_ports (map show_int ps) seen = Inr (seen @ ps)"
proof (induction ps arbitrary: seen)
  case (Cons p ps)
  have "go_atoi (trim (show_int p)) = Some p"
    using Cons.prems by (simp add: trim_digits show_int_digits go_atoi_show_int i64_max_def)
  then show ?case using Cons by simp
qed simp

lemma join_ports_plain: "list_all (\<lambda>p. 1 \<le> p \<and> p \<le> 65535) ps \<Longrightarrow> trim (join_ports ps) = join_ports ps"
proof -
  assume ports: "list_all (\<lambda>p. 1 \<le> p \<and> p \<le> 65535) ps"
  have "\<not> is_cont (CHR '','') \<and> \<not> is_whitespace '',''" by code_simp
  then show ?thesis
    unfolding join_ports_def using ports
    by (intro trim_ascii list_all_join) (auto simp: list_all_iff dest!: port_digit digit_char_plain(1))
qed

lemma join_ports_Nil: "join_ports ps = [] \<Longrightarrow> ps = []"
  by (cases ps rule: list.exhaust[of _ "ps = []"]; cases "tl ps")
    (auto simp: join_ports_def show_int_def neq_Nil_conv split: if_splits)

lemma parse_ports_join:
  assumes "port_list ps"
  shows "parse_allowed_tcp_ports (join_ports ps) = Inr ps" "parse_allowed_udp_ports (join_ports ps) = Inr ps"
proof -
  have plain: "trim (join_ports ps) = join_ports ps" using assms by (simp add: port_list_def join_ports_plain)
  have pieces: "ps \<noteq> [] \<Longrightarrow> splitp (\<lambda>c. c = CHR '','') (join_ports ps) = map show_int ps"
    unfolding join_ports_def
    using assms by (intro splitp_join) (auto simp: list_all_iff port_list_def dest!: port_digit digit_char_plain(2))
  have "add_ports (map show_int ps) [] = Inr ps"
    using assms by (simp add: add_ports_show port_list_def)
  then show "parse_allowed_tcp_ports (join_ports ps) = Inr ps" "parse_allowed_udp_ports (join_ports ps) = Inr ps"
    using plain pieces assms join_ports_Nil[of ps]
    by (cases "ps = []"; auto simp: parse_allowed_tcp_ports_def parse_allowed_udp_ports_def port_list_def
        join_ports_def trim_def)+
qed

lemma collect_ports_list:
  assumes "list_all (\<lambda>c. tc_remote_port c \<le> 65535) cs" "length cs \<le> 1000"
  shows "port_list (collect_remote_ports kind cs)"
proof -
  have "length (remdups (map tc_remote_port xs)) \<le> length xs" for xs :: "tunnel_connection list"
    by (metis length_map length_remdups_leq)
  moreover have "length (filter P cs) \<le> 1000" for P using assms(2) length_filter_le order_trans by blast
  ultimately have "length (collect_remote_ports kind cs) \<le> 1000"
    unfolding collect_remote_ports_def by (metis (no_types, lifting) length_sort order_trans)
  then show ?thesis using assms(1) by (auto simp: port_list_def collect_remote_ports_def list_all_iff)
qed

lemma collect_ports_set:
  "set (collect_remote_ports kind cs) =
     {p. 0 < p \<and> (\<exists>c \<in> set cs. tc_enabled c \<and> tc_proxy_type c = kind \<and> tc_remote_port c = p)}"
  by (auto simp: collect_remote_ports_def)

lemma parse_flag_step:
  assumes "n \<noteq> []" "hd n \<noteq> CHR ''-''" "CHR ''='' \<notin> set n"
  shows "parse_flags lb ((CHR ''-'' # CHR ''-'' # n) # v # rest) f =
    (case set_flag lb n v f of None \<Rightarrow> None | Some f \<Rightarrow> parse_flags lb rest f)"
proof -
  have "split_once (CHR ''='') n = None" using assms(3) by (induction n) auto
  moreover have "hd n \<noteq> CHR ''=''" using assms(1,3) hd_in_set by metis
  ultimately show ?thesis using assms by (simp add: Let_def)
qed

lemma parse_flags_arguments:
  assumes "lb_int0 lb (show_int (fp_port (su_profile s))) = Some (fp_port (su_profile s))"
  shows "parse_flags lb (tl (arguments s command config)) no_flags =
    Some ([], \<lparr>fl_config = config, fl_server = fp_host (su_profile s), fl_port = fp_port (su_profile s),
      fl_domain = fp_domain (su_profile s), fl_domains = join '','' (su_domains s),
      fl_tcp = join_ports (su_tcp s), fl_udp = join_ports (su_udp s), fl_ca = su_ca_sha256 s\<rparr>)"
  using assms
  by (simp add: arguments_def parse_flag_step set_flag_def no_flags_def join_ports_def del: parse_flags.simps(2))


section \<open>What a rolled-back apply leaves running\<close>

lemma arguments_view: "agent_trust s = agent_trust s' \<Longrightarrow> allow_lists s = allow_lists s' \<Longrightarrow> arguments s = arguments s'"
  by (simp add: agent_trust_def allow_lists_def arguments_def fun_eq_iff)

lemma restore_started:
  assumes "su_process s = None" "su_process (snd (restore now sp config lease s)) = Some q"
  shows "pr_arguments q = arguments s ''run'' config" "su_lkg (snd (restore now sp config lease s)) = config"
    "agent_trust (snd (restore now sp config lease s)) = agent_trust s"
proof -
  obtain r s1 where st: "start sp config False s = (r, s1)" by force
  have "\<exists>p. r = Inr p"
    using assms st start_cases(1)[of sp config False s] by (cases r) (auto simp: restore_def split: if_splits)
  then obtain p where p: "r = Inr p" by blast
  note f = start_cases(2)[OF st[unfolded p]]
  have "snd (restore now sp config lease s) = s1\<lparr>su_lkg := config, su_lease := lease\<rparr>"
    using assms st p by (auto simp: restore_def split: if_splits)
  then show "pr_arguments q = arguments s ''run'' config" "su_lkg (snd (restore now sp config lease s)) = config"
    "agent_trust (snd (restore now sp config lease s)) = agent_trust s"
    using f assms(2) by (simp_all add: agent_trust_def)
qed

lemma switch_over_restarted:
  assumes "switch_over pf e resp p s = (Inl err, s')" "su_process s' = Some q"
  shows "pr_arguments q = arguments s ''run'' (su_lkg s) \<and> agent_trust s' = agent_trust s"
proof -
  obtain r s1 where st: "start (ae_spawn e) p True (stop_process s) = (r, s1)" by force
  have claim: "?thesis" if "su_process s2 = None" "agent_trust s2 = agent_trust s" "allow_lists s2 = allow_lists s"
    "s' = snd (restore (ae_restore_now e) (ae_restore_spawn e) (su_lkg s) (su_lease s) s2)" for s2
    using restore_started[OF that(1), of "ae_restore_now e" "ae_restore_spawn e" "su_lkg s" "su_lease s" q]
      that assms(2) arguments_view[OF that(2,3)] by simp
  show ?thesis
  proof (cases r)
    case (Inl x)
    then have "s1 = stop_process s" using st start_cases(1) by blast
    then show ?thesis using assms(1) st Inl by (intro claim[of s1]) (auto simp: switch_over_def Let_def)
  next
    case (Inr x)
    have view: "agent_trust s1 = agent_trust s \<and> allow_lists s1 = allow_lists s"
      using st Inr start_cases(2)[of "ae_spawn e" p True "stop_process s" x s1] lists_kept(1,4)[of s]
      by (simp add: agent_trust_def allow_lists_def)
    have "\<exists>s2 \<in> {reap (ae_now e) s1, stop_process s1, stop_process (reap (ae_now e) s1)}.
        s' = snd (restore (ae_restore_now e) (ae_restore_spawn e) (su_lkg s) (su_lease s) s2)"
      using assms(1) st Inr
      by (cases "ae_startup e") (auto simp: switch_over_def Let_def split: option.split_asm if_split_asm)
    then obtain s2 where s2: "s2 \<in> {reap (ae_now e) s1, stop_process s1, stop_process (reap (ae_now e) s1)}"
      "s' = snd (restore (ae_restore_now e) (ae_restore_spawn e) (su_lkg s) (su_lease s) s2)" by blast
    then have "su_process s2 = None \<and> agent_trust s2 = agent_trust s \<and> allow_lists s2 = allow_lists s"
      using view by auto
    then show ?thesis using s2(2) claim by blast
  qed
qed

lemma install_config_restarted:
  assumes "install_config pf e resp conf s = (Inl err, s')" "su_process s' = Some q" "su_process s' \<noteq> su_process s"
  shows "pr_arguments q = arguments (lists_of pf (sr_connections resp) s) ''run'' (su_lkg s) \<and> agent_trust s' = agent_trust s"
proof -
  let ?l = "lists_of pf (sr_connections resp) s"
  obtain r1 s1 where wp: "write_pending (ae_erase e) (ae_pending e) conf ?l = (r1, s1)" by force
  have s1: "su_process s1 = su_process s \<and> agent_trust s1 = agent_trust ?l \<and> allow_lists s1 = allow_lists ?l \<and> su_lkg s1 = su_lkg s"
    using wp by (auto simp: write_pending_def split: pending_io.splits)
  let ?o = "case ae_old_exit e of None \<Rightarrow> s1 | Some t \<Rightarrow> reap t s1"
  have o: "agent_trust ?o = agent_trust s \<and> arguments ?o = arguments ?l \<and> su_lkg ?o = su_lkg s"
    using s1 arguments_view[of s1 ?l] by (auto split: option.splits)
  obtain path where path: "r1 = Inr path"
    using assms wp s1 by (cases r1) (auto simp: install_config_def)
  obtain r2 s2 where r2: "apply_pending pf e resp path s1 = (r2, s2)" by force
  have eqs: "r2 = Inl err" "s' = with_lists (su_domains s) (su_tcp s) (su_udp s) s2"
    using assms(1) wp r2 path by (auto simp: install_config_def split: sum.splits)
  obtain s3 where sw: "switch_over pf e resp path ?o = (Inl err, s3)" "su_process s2 = su_process s3" "agent_trust s2 = agent_trust s3"
  proof (cases "ae_verify e")
    case (Some x)
    then have "su_process s' = su_process s" using r2 eqs s1 by (auto simp: apply_pending_def split: prod.splits)
    with assms(3) show ?thesis by simp
  next
    case None
    then show ?thesis using r2 eqs(1) that
      by (cases "switch_over pf e resp path ?o") (auto simp: apply_pending_def split: sum.splits)
  qed
  from switch_over_restarted[OF sw(1), of q] sw o assms(2) eqs(2) show ?thesis
    by (simp add: with_lists_def agent_trust_def)
qed

text \<open>\<^bold>\<open>C40\<close> (a rolled-back agent runs with the refused lists).  When an \<open>Apply\<close> fails after it
  has stopped the agent, it starts the previous configuration again before it puts the
  previous allow lists back.  The restarted agent therefore carries the lists of the response
  that failed, although the supervisor holds the previous ones; and the agent refuses every
  TCP port of its own configuration that the failed response does not name.\<close>

theorem rolled_back_agent_has_new_lists:
  assumes ok: "sup_ok s" and ap: "apply_sync pf e st resp s = (Some err, st', s')"
    and restarted: "su_process s' = Some q" "su_process s' \<noteq> su_process s"
    and int0: "lb_int0 lb (show_int (fp_port (su_profile s'))) = Some (fp_port (su_profile s'))"
    and ports: "list_all (\<lambda>c. tc_remote_port c \<le> 65535) (sr_connections resp)" "length (sr_connections resp) \<le> 1000"
  shows "pr_arguments q = arguments (lists_of pf (sr_connections resp) s') ''run'' (su_lkg s') \<and>
    allow_lists s' = allow_lists s \<and>
    (\<forall>f t p. parse_flags lb (tl (pr_arguments q)) no_flags = Some ([], f) \<and> trust_of lb f = Inr t \<and>
       mp_remote_port p \<notin> set (collect_tcp_ports (sr_connections resp)) \<longrightarrow>
       validate_managed_tcp t p = Some Tcp_port_not_allowed)"
proof -
  obtain r1 s1 where ca: "sync_trusted_ca pf (ae_ca_write e) s = (r1, s1)" by force
  note kept = sync_trusted_ca_ok[OF ca]
  obtain conf where ins: "install_config pf e resp conf s1 = (Inl err, s')"
    using apply_sync_failure[OF ap ca] restarted kept(5) by auto
  note f = install_config_restarted[OF ins restarted(1)]
  have same: "su_lkg s' = su_lkg s" "su_lkg s1 = su_lkg s" "allow_lists s' = allow_lists s"
    using apply_sync_fails[OF ok ap] kept(2) by auto
  let ?l = "lists_of pf (sr_connections resp)"
  have "arguments (?l s1) = arguments (?l s')"
    using f restarted kept(5) by (intro arguments_view) (simp, simp add: allow_lists_def lists_of_def with_lists_def)
  then have args: "pr_arguments q = arguments (?l s') ''run'' (su_lkg s')"
    using f restarted kept(5) same by simp
  have tcp: "su_tcp (?l s') = collect_tcp_ports (sr_connections resp)" "su_profile (?l s') = su_profile s'"
    by (simp_all add: lists_of_def with_lists_def)
  have "parse_allowed_tcp_ports (join_ports (collect_tcp_ports (sr_connections resp)))
      = Inr (collect_tcp_ports (sr_connections resp))"
    using parse_ports_join(1) collect_ports_list[OF ports] by (simp add: collect_tcp_ports_def)
  then have "tp_tcp t = collect_tcp_ports (sr_connections resp)"
    if "parse_flags lb (tl (pr_arguments q)) no_flags = Some ([], f)" "trust_of lb f = Inr t" for f t
    using that parse_flags_arguments[of lb "?l s'" "''run''" "su_lkg s'"] int0
    by (auto simp: args tcp trust_of_def Let_def split: if_splits sum.splits option.splits)
  then show ?thesis using args same(3) by (auto simp: validate_managed_tcp_def)
qed

section \<open>Samples\<close>

definition sample_lib :: agent_lib where
  "sample_lib = \<lparr>lb_platform = sample_platform, lb_fold_eq = (=), lb_int0 = go_atoi\<rparr>"

definition sample_crash :: apply_env where
  "sample_crash = sample_apply\<lparr>ae_startup := Startup_exited ''exit status 1''\<rparr>"


theorem rolled_back_agent_has_new_lists_witness:
  "\<exists>st' s' q err. apply_sync sample_platform sample_crash sample_saved (sample_response 2 3333) sample_running =
       (Some err, st', s') \<and> su_process s' = Some q \<and> su_tcp s' = [2222] \<and> su_lkg s' = ''/run/lkg-1.toml'' \<and>
     pr_arguments q = arguments (lists_of sample_platform [sample_tcp 3333] s') ''run'' ''/run/lkg-1.toml''"
proof -
  let ?a = "apply_sync sample_platform sample_crash sample_saved (sample_response 2 3333) sample_running"
  obtain r st' s' where ap: "?a = (r, st', s')" by (metis surj_pair)
  have facts: "fst ?a = Some ''agent exited during startup: exit status 1''"
    "map_option pr_serial (su_process (snd (snd ?a))) = Some 2" "map_option pr_serial (su_process sample_running) = Some 0"
    "fp_port (su_profile (snd (snd ?a))) = 7000" "su_tcp (snd (snd ?a)) = [2222]"
    "su_lkg (snd (snd ?a)) = ''/run/lkg-1.toml''" "lb_int0 sample_lib (show_int 7000) = Some 7000"
    "list_all (\<lambda>c. tc_remote_port c \<le> 65535) (sr_connections (sample_response 2 3333))"
    "length (sr_connections (sample_response 2 3333)) \<le> 1000"
    by code_simp+
  obtain q where q: "su_process s' = Some q" using facts(2) ap by auto
  have "su_process s' \<noteq> su_process sample_running" using facts(2,3) ap q by auto
  from rolled_back_agent_has_new_lists[OF sample_running_ok(1) _ q this _ facts(8,9), of sample_platform sample_crash
      sample_saved "''agent exited during startup: exit status 1''" st' sample_lib] ap facts q
  show ?thesis by (auto simp: sample_response_def)
qed

end
