(* ===== verification/Host_Store.thy ===== *)
theory Host_Store
  imports Rust_Prelude "HOL-Library.AList"
begin

text \<open>
  The protected store of the remote host, \<^verbatim>\<open>internal/remotehost/store.go\<close>: local grants,
  invitations, settings and the debt of signed stop acknowledgements
  (\<^verbatim>\<open>close_ack.go\<close>), with every update that the service functions of the package hand to it
  (\<^verbatim>\<open>host.go\<close>, \<^verbatim>\<open>http.go\<close>, \<^verbatim>\<open>assist.go\<close>, \<^verbatim>\<open>access.go\<close>, \<^verbatim>\<open>unattended.go\<close>, \<^verbatim>\<open>handoff.go\<close>,
  \<^verbatim>\<open>emergency.go\<close>).

  A Go map is an association list with distinct keys.  The JSON copy that \<^verbatim>\<open>update\<close> works on is
  the value itself, and what the operating system's protection holds is the field
  \<open>hs_saved\<close>; whether a save succeeds is an argument.  Signatures are a parameter.
\<close>

named_theorems store_work "the updates of the protected store"

section \<open>Data\<close>

datatype host_error =
    Err_authorization
  | Err_local_approval
  | Err_unavailable
  | Err_store
  | Err_network
  | Err_sign
  | Err_api int string
  | Err_text string

record session_ref =
  rf_session :: string
  rf_epoch :: int

record local_grant =
  lg_id :: string
  lg_invite :: string
  lg_controller :: string
  lg_jkt :: string
  lg_permissions :: "string list"
  lg_mode :: string
  lg_request :: string
  lg_session :: string
  lg_version :: int
  lg_expires :: ms
  lg_revoked :: bool
  lg_jws :: string

definition zero_grant :: local_grant where
  "zero_grant = \<lparr>lg_id = [], lg_invite = [], lg_controller = [], lg_jkt = [], lg_permissions = [],
     lg_mode = [], lg_request = [], lg_session = [], lg_version = 0, lg_expires = 0,
     lg_revoked = False, lg_jws = []\<rparr>"

record stopped_ack =
  sa_ref :: session_ref
  sa_seq :: int
  sa_proof :: string

definition maximum_close_acks :: nat where "maximum_close_acks = 64"

definition ack_key :: "stopped_ack \<Rightarrow> string" where
  "ack_key a = rf_session (sa_ref a) @ '':'' @ show_int (rf_epoch (sa_ref a))"

record disk_state =
  ds_service_managed :: bool
  ds_origin :: string
  ds_endpoint :: string
  ds_owner :: string
  ds_key :: string
  ds_initial_trust :: string
  ds_keyset :: string
  ds_enabled :: bool
  ds_unattended :: bool
  ds_controller :: string
  ds_controller_jkt :: string
  ds_capability :: int
  ds_grants :: "(string \<times> local_grant) list"
  ds_assist :: "(string \<times> ms) list"
  ds_fixed_revision :: int
  ds_fixed :: "(string \<times> ms) list"
  ds_emergency :: string
  ds_acks :: "(string \<times> stopped_ack) list"

record host_store =
  hs_data :: disk_state
  hs_saved :: disk_state

section \<open>Update\<close>

type_synonym store_update = "disk_state \<Rightarrow> host_error + disk_state"

definition update_store ::
    "bool \<Rightarrow> store_update \<Rightarrow> host_store \<Rightarrow> host_error option \<times> host_store" where
  "update_store save_ok work s =
    (case work (hs_data s) of Inl e \<Rightarrow> (Some e, s)
     | Inr next \<Rightarrow>
       if save_ok then (None, \<lparr>hs_data = next, hs_saved = next\<rparr>) else (Some Err_store, s))"

definition valid_binding_id :: "string \<Rightarrow> bool" where
  "valid_binding_id v =
     (8 \<le> length v \<and> length v \<le> 128 \<and>
      list_all (\<lambda>c. is_ascii_alphanumeric c \<or> c = CHR ''-'' \<or> c = CHR ''_'') v)"

section \<open>Grants\<close>

definition tombstone :: "local_grant \<Rightarrow> local_grant" where
  "tombstone g = g\<lparr>lg_revoked := True, lg_version := lg_version g + 1\<rparr>"

text \<open>The loops over the grants that revoke those of a kind.\<close>

definition revoke_where :: "(local_grant \<Rightarrow> bool) \<Rightarrow> disk_state \<Rightarrow> disk_state" where
  "revoke_where P d =
     d\<lparr>ds_grants := map (\<lambda>(k, g). (k, if P g \<and> \<not> lg_revoked g then tombstone g else g)) (ds_grants d)\<rparr>"

definition revoke_grant :: "string \<Rightarrow> store_update" where
  "revoke_grant i d =
    (case map_of (ds_grants d) i of None \<Rightarrow> Inl Err_authorization
     | Some g \<Rightarrow> Inr (d\<lparr>ds_grants := AList.update i (tombstone g) (ds_grants d)\<rparr>))"

definition revoke_assist_grants :: "string \<Rightarrow> store_update" where
  "revoke_assist_grants invite d =
     Inr (revoke_where (\<lambda>g. lg_invite g = invite) (d\<lparr>ds_assist := AList.delete invite (ds_assist d)\<rparr>))"

definition revoke_fixed_grants :: store_update where
  "revoke_fixed_grants d =
    (let d' = revoke_where (\<lambda>g. lg_invite g \<in> fst ` set (ds_fixed d)) d
     in Inr (d'\<lparr>ds_assist := filter (\<lambda>(k, _). k \<notin> fst ` set (ds_fixed d)) (ds_assist d'),
                ds_fixed := [], ds_fixed_revision := 0\<rparr>))"

definition revoke_persistent_grants :: "disk_state \<Rightarrow> disk_state" where
  "revoke_persistent_grants d =
     revoke_where (\<lambda>g. lg_mode g = ''persistent'') (d\<lparr>ds_unattended := False\<rparr>)"

text \<open>What \<^verbatim>\<open>ApprovePairing\<close> stores, and what \<^verbatim>\<open>approveSession\<close> binds to its session.\<close>

definition add_grant :: "string \<Rightarrow> local_grant \<Rightarrow> store_update" where
  "add_grant i g d =
    (if map_of (ds_grants d) i \<noteq> None \<or> (lg_mode g = ''persistent'' \<and> \<not> ds_unattended d)
     then Inl Err_authorization
     else Inr (d\<lparr>ds_grants := AList.update i g (ds_grants d)\<rparr>))"

definition bind_session :: "string \<Rightarrow> local_grant \<Rightarrow> store_update" where
  "bind_session session grant d =
    (let g = (case map_of (ds_grants d) (lg_id grant) of None \<Rightarrow> zero_grant | Some g \<Rightarrow> g)
     in if \<not> ds_enabled d \<or> lg_revoked g \<or> lg_version g \<noteq> lg_version grant \<or>
           (lg_session g \<noteq> [] \<and> lg_session g \<noteq> session \<and> lg_mode g = ''one_session'')
        then Inl Err_authorization
        else
          (let g = (if lg_mode g = ''one_session'' then g\<lparr>lg_session := session\<rparr> else g)
           in Inr (d\<lparr>ds_grants := AList.update (lg_id g) g (ds_grants d)\<rparr>)))"

definition grants_view :: "host_store \<Rightarrow> local_grant list" where
  "grants_view s = map (\<lambda>(_, g). g\<lparr>lg_jws := []\<rparr>) (ds_grants (hs_data s))"

section \<open>Settings\<close>

text \<open>The durable part of disabling: by \<^verbatim>\<open>SetEnabled\<close>, by an enrolment, by a restored server,
  and by the emergency path, which clears the fixed invitations too.\<close>

definition disable_host :: store_update where
  "disable_host d = Inr ((revoke_persistent_grants (d\<lparr>ds_enabled := False\<rparr>))\<lparr>ds_assist := []\<rparr>)"

definition disable_locally :: store_update where
  "disable_locally d =
     Inr ((revoke_persistent_grants (d\<lparr>ds_enabled := False\<rparr>))\<lparr>ds_assist := [], ds_fixed := []\<rparr>)"

definition enroll_store :: "string \<Rightarrow> string \<Rightarrow> string \<Rightarrow> string \<Rightarrow> store_update" where
  "enroll_store origin endpoint owner keys d =
     disable_host (d\<lparr>ds_origin := origin, ds_endpoint := endpoint, ds_owner := owner,
                    ds_initial_trust := keys, ds_keyset := keys\<rparr>)"

definition refresh_keyset :: "string \<Rightarrow> bool \<Rightarrow> store_update" where
  "refresh_keyset keys changed d =
    (let d = d\<lparr>ds_keyset := keys\<rparr> in if changed then disable_host d else Inr d)"

definition publish_enabled :: "bool \<Rightarrow> bool \<Rightarrow> int \<Rightarrow> store_update" where
  "publish_enabled enabled stale version d =
     Inr (d\<lparr>ds_enabled := (enabled \<and> \<not> stale), ds_capability := version\<rparr>)"

definition set_controller :: "string \<Rightarrow> string \<Rightarrow> store_update" where
  "set_controller i jkt d =
    (if ds_unattended d \<and> (ds_controller d \<noteq> i \<or> ds_controller_jkt d \<noteq> jkt)
     then Inl Err_local_approval
     else Inr (d\<lparr>ds_controller := i, ds_controller_jkt := jkt\<rparr>))"

definition unattended_off :: store_update where
  "unattended_off d =
     Inr ((revoke_persistent_grants d)\<lparr>ds_controller := [], ds_controller_jkt := []\<rparr>)"

definition publish_unattended :: "bool \<Rightarrow> bool \<Rightarrow> int \<Rightarrow> store_update" where
  "publish_unattended enabled stale version d =
     Inr (d\<lparr>ds_capability := version, ds_unattended := (enabled \<and> \<not> stale \<and> ds_enabled d)\<rparr>)"

definition valid_emergency_key :: "string \<Rightarrow> bool" where
  "valid_emergency_key k = (k = ''X'' \<or> k = ''Q'' \<or> k = ''F12'')"

definition set_emergency_key :: "string \<Rightarrow> store_update" where
  "set_emergency_key k d = Inr (d\<lparr>ds_emergency := k\<rparr>)"

definition hand_over :: store_update where
  "hand_over d =
    (if ds_endpoint d = [] \<or> ds_origin d = [] then Inl Err_local_approval
     else Inr (d\<lparr>ds_service_managed := True\<rparr>))"

section \<open>Invitations\<close>

definition unexpired :: "ms \<Rightarrow> (string \<times> ms) list \<Rightarrow> (string \<times> ms) list" where
  "unexpired now = filter (\<lambda>(_, t). now < t)"

definition add_invite :: "ms \<Rightarrow> string \<Rightarrow> ms \<Rightarrow> store_update" where
  "add_invite now i t d =
    (if \<not> ds_enabled d then Inl Err_local_approval
     else Inr (d\<lparr>ds_assist := AList.update i t (unexpired now (ds_assist d))\<rparr>))"

definition trust_invite :: "string \<Rightarrow> ms \<Rightarrow> int \<Rightarrow> store_update" where
  "trust_invite i t revision d =
    (if \<not> ds_enabled d \<or> (revision > 0 \<and> ds_fixed_revision d \<noteq> revision) then Inl Err_local_approval
     else
       (let d = d\<lparr>ds_assist := AList.update i t (ds_assist d)\<rparr>
        in Inr (if revision > 0 then d\<lparr>ds_fixed := AList.update i t (ds_fixed d)\<rparr> else d)))"

definition fix_revision :: "int \<Rightarrow> store_update" where
  "fix_revision revision d =
    (if \<not> ds_enabled d then Inl Err_local_approval else Inr (d\<lparr>ds_fixed_revision := revision\<rparr>))"

section \<open>Stop acknowledgements\<close>

definition persist :: "bool \<Rightarrow> host_store \<Rightarrow> host_error option \<times> host_store" where
  "persist save_ok s =
    (if save_ok then (None, s\<lparr>hs_saved := hs_data s\<rparr>) else (Some Err_store, s))"

definition with_acks :: "(string \<times> stopped_ack) list \<Rightarrow> host_store \<Rightarrow> host_store" where
  "with_acks acks s = s\<lparr>hs_data := (hs_data s)\<lparr>ds_acks := acks\<rparr>\<rparr>"

text \<open>The result is the acknowledgement to send, if there is one, and an error.\<close>

definition remember_close_ack ::
    "bool \<Rightarrow> stopped_ack \<Rightarrow> host_store \<Rightarrow> stopped_ack option \<times> host_error option \<times> host_store" where
  "remember_close_ack save_ok ack s =
    (let acks = ds_acks (hs_data s); add = with_acks (AList.update (ack_key ack) ack acks) s
     in case map_of acks (ack_key ack) of
          Some old \<Rightarrow>
            if sa_seq ack \<le> sa_seq old then (Some old, persist save_ok s)
            else (Some ack, persist save_ok add)
        | None \<Rightarrow>
          if length acks \<ge> maximum_close_acks
          then (None, Some (Err_text ''remote host stopped-session debt limit reached''), s)
          else (Some ack, persist save_ok add))"

definition change_close_ack ::
    "bool \<Rightarrow> stopped_ack \<Rightarrow> stopped_ack option \<Rightarrow> host_store \<Rightarrow> bool \<times> host_error option \<times> host_store" where
  "change_close_ack save_ok old replacement s =
    (let acks = ds_acks (hs_data s)
     in if map_of acks (ack_key old) \<noteq> Some old then (False, None, s)
        else case replacement of
          None \<Rightarrow> (True, persist save_ok (with_acks (AList.delete (ack_key old) acks) s))
        | Some new \<Rightarrow>
          if sa_ref new \<noteq> sa_ref old \<or> sa_seq new \<le> sa_seq old then (False, Some Err_authorization, s)
          else (True, persist save_ok (with_acks (AList.update (ack_key old) new acks) s)))"

text \<open>What a stored acknowledgement has to look like when the store is opened; \<open>verifies\<close> is
  the signature check together with the claims it must carry.\<close>

definition validate_close_acks ::
    "(stopped_ack \<Rightarrow> bool) \<Rightarrow> (string \<times> stopped_ack) list \<Rightarrow> bool" where
  "validate_close_acks verifies acks =
    (length acks \<le> maximum_close_acks \<and>
     list_all (\<lambda>(k, a). k = ack_key a \<and> valid_binding_id (rf_session (sa_ref a)) \<and>
       1 \<le> rf_epoch (sa_ref a) \<and> rf_epoch (sa_ref a) \<le> 0xffffffff \<and> 0 \<le> sa_seq a \<and>
       length (sa_proof a) \<le> 2048 \<and> verifies a) acks)"

section \<open>Opening\<close>

definition empty_disk :: disk_state where
  "empty_disk = \<lparr>ds_service_managed = False, ds_origin = [], ds_endpoint = [], ds_owner = [], ds_key = [],
     ds_initial_trust = [], ds_keyset = [], ds_enabled = False, ds_unattended = False, ds_controller = [],
     ds_controller_jkt = [], ds_capability = 0, ds_grants = [], ds_assist = [], ds_fixed_revision = 0,
     ds_fixed = [], ds_emergency = [], ds_acks = []\<rparr>"

text \<open>\<^verbatim>\<open>openStore\<close>: \<open>loaded\<close> is what the backend holds (\<^term>\<open>None\<close> when nothing was ever saved),
  \<open>fresh_key\<close> a generated key.\<close>

definition open_store ::
    "(stopped_ack \<Rightarrow> bool) \<Rightarrow> (string \<Rightarrow> bool) \<Rightarrow> string \<Rightarrow> bool \<Rightarrow> disk_state option \<Rightarrow> host_error + host_store" where
  "open_store verifies key_ok fresh_key save_ok loaded =
    (let d = (case loaded of None \<Rightarrow> empty_disk | Some d \<Rightarrow> d);
         d = (if ds_emergency d = [] then d\<lparr>ds_emergency := ''X''\<rparr> else d);
         opened = (if ds_key d = []
           then (let d = d\<lparr>ds_key := fresh_key\<rparr>
                 in if save_ok then Inr \<lparr>hs_data = d, hs_saved = d\<rparr> else Inl Err_store)
           else Inr \<lparr>hs_data = d, hs_saved = (case loaded of None \<Rightarrow> d | Some l \<Rightarrow> l)\<rparr>)
     in case opened of Inl e \<Rightarrow> Inl e
        | Inr s \<Rightarrow>
          if \<not> key_ok (ds_key (hs_data s)) \<or> \<not> validate_close_acks verifies (ds_acks (hs_data s))
          then Inl Err_authorization else Inr s)"

section \<open>Handing the identity to the machine service\<close>

definition pending_transfer :: "host_store \<Rightarrow> host_error + disk_state" where
  "pending_transfer s =
    (let d = hs_data s
     in if \<not> ds_service_managed d \<or> ds_enabled d \<or> ds_unattended d then Inl Err_local_approval else Inr d)"

definition same_service_identity :: "disk_state \<Rightarrow> disk_state \<Rightarrow> bool" where
  "same_service_identity a b =
     (ds_endpoint a \<noteq> [] \<and> ds_endpoint a = ds_endpoint b \<and> ds_origin a = ds_origin b \<and>
      ds_key a \<noteq> [] \<and> ds_key a = ds_key b \<and> ds_owner a = ds_owner b)"

definition validate_transfer ::
    "(stopped_ack \<Rightarrow> bool) \<Rightarrow> (string \<Rightarrow> bool) \<Rightarrow> nat \<Rightarrow> disk_state option \<Rightarrow> string \<Rightarrow> host_error option" where
  "validate_transfer verifies key_ok bytes decoded origin =
    (if bytes = 0 \<or> bytes > 512 * 1024 then Some Err_authorization
     else case decoded of None \<Rightarrow> Some Err_authorization
     | Some d \<Rightarrow>
       if \<not> ds_service_managed d \<or> ds_enabled d \<or> ds_unattended d \<or> ds_origin d \<noteq> origin \<or>
          \<not> valid_binding_id (ds_endpoint d) \<or> ds_owner d = [] \<or> ds_initial_trust d = [] \<or>
          ds_keyset d = [] \<or> ds_capability d < 1 \<or>
          list_ex (\<lambda>(_, g). lg_mode g = ''persistent'' \<and> \<not> lg_revoked g) (ds_grants d) \<or>
          \<not> key_ok (ds_key d) \<or> \<not> validate_close_acks verifies (ds_acks d)
       then Some Err_authorization else None)"

lemmas [store_work] = revoke_grant_def revoke_assist_grants_def revoke_fixed_grants_def
  revoke_persistent_grants_def add_grant_def disable_host_def disable_locally_def
  enroll_store_def refresh_keyset_def publish_enabled_def set_controller_def unattended_off_def
  publish_unattended_def set_emergency_key_def hand_over_def add_invite_def trust_invite_def
  fix_revision_def

section \<open>Runs of the store\<close>

datatype store_op =
    Op_revoke string | Op_revoke_assist string | Op_revoke_fixed
  | Op_add string local_grant | Op_bind string local_grant
  | Op_disable | Op_disable_locally | Op_enroll string string string string | Op_refresh string bool
  | Op_publish bool bool int | Op_controller string string | Op_unattended_off
  | Op_publish_unattended bool bool int | Op_emergency string | Op_hand_over
  | Op_invite ms string ms | Op_trust string ms int | Op_fix int
  | Op_remember stopped_ack | Op_change stopped_ack "stopped_ack option"
  | Op_reopen

text \<open>A grant that \<^verbatim>\<open>ApprovePairing\<close> adds carries the identifier it is stored under.\<close>

fun work_of :: "store_op \<Rightarrow> store_update option" where
  "work_of (Op_revoke i) = Some (revoke_grant i)"
| "work_of (Op_revoke_assist i) = Some (revoke_assist_grants i)"
| "work_of Op_revoke_fixed = Some revoke_fixed_grants"
| "work_of (Op_add i g) = Some (add_grant i (g\<lparr>lg_id := i\<rparr>))"
| "work_of (Op_bind i g) = Some (bind_session i g)"
| "work_of Op_disable = Some disable_host"
| "work_of Op_disable_locally = Some disable_locally"
| "work_of (Op_enroll a b c k) = Some (enroll_store a b c k)"
| "work_of (Op_refresh k c) = Some (refresh_keyset k c)"
| "work_of (Op_publish e st v) = Some (publish_enabled e st v)"
| "work_of (Op_controller i j) = Some (set_controller i j)"
| "work_of Op_unattended_off = Some unattended_off"
| "work_of (Op_publish_unattended e st v) = Some (publish_unattended e st v)"
| "work_of (Op_emergency k) = Some (set_emergency_key k)"
| "work_of Op_hand_over = Some hand_over"
| "work_of (Op_invite n i t) = Some (add_invite n i t)"
| "work_of (Op_trust i t r) = Some (trust_invite i t r)"
| "work_of (Op_fix r) = Some (fix_revision r)"
| "work_of _ = None"

definition store_step :: "bool \<times> store_op \<Rightarrow> host_store \<Rightarrow> host_store" where
  "store_step x s =
    (case work_of (snd x) of Some w \<Rightarrow> snd (update_store (fst x) w s)
     | None \<Rightarrow>
       (case snd x of Op_remember a \<Rightarrow> snd (snd (remember_close_ack (fst x) a s))
        | Op_change a r \<Rightarrow> snd (snd (change_close_ack (fst x) a r s))
        | _ \<Rightarrow> s\<lparr>hs_data := hs_saved s\<rparr>))"

definition store_run :: "(bool \<times> store_op) list \<Rightarrow> host_store \<Rightarrow> host_store" where
  "store_run ops s = fold store_step ops s"

definition new_store :: host_store where
  "new_store = \<lparr>hs_data = empty_disk, hs_saved = empty_disk\<rparr>"

section \<open>Revocation is final\<close>

definition keyed :: "disk_state \<Rightarrow> bool" where
  "keyed d = (\<forall>k g. map_of (ds_grants d) k = Some g \<longrightarrow> lg_id g = k)"

definition grant_gone :: "string \<Rightarrow> int \<Rightarrow> disk_state \<Rightarrow> bool" where
  "grant_gone i v d = (\<exists>g. map_of (ds_grants d) i = Some g \<and> lg_revoked g \<and> v \<le> lg_version g)"

lemma map_of_map_values: "map_of (map (\<lambda>(k, g). (k, f g)) xs) k = map_option f (map_of xs k)"
  by (induction xs) auto

lemma revoke_where_lookup:
  "map_of (ds_grants (revoke_where P d)) k =
     map_option (\<lambda>g. if P g \<and> \<not> lg_revoked g then tombstone g else g) (map_of (ds_grants d) k)"
  by (simp add: revoke_where_def map_of_map_values)

lemma revoke_where_keeps:
  "keyed d \<Longrightarrow> keyed (revoke_where P d)" "grant_gone i v d \<Longrightarrow> grant_gone i v (revoke_where P d)"
  by (auto simp: keyed_def grant_gone_def revoke_where_lookup tombstone_def)

text \<open>Only the grants matter for these two predicates.\<close>

lemma grants_frame:
  "ds_grants d' = ds_grants d \<Longrightarrow> keyed d' = keyed d \<and> grant_gone i v d' = grant_gone i v d"
  by (simp add: keyed_def grant_gone_def)

lemma revoke_where_frame:
  "ds_grants (revoke_where P (d\<lparr>ds_assist := a\<rparr>)) = ds_grants (revoke_where P d)"
  "ds_grants (revoke_where P (d\<lparr>ds_unattended := b\<rparr>)) = ds_grants (revoke_where P d)"
  "ds_grants (revoke_where P (d\<lparr>ds_enabled := b\<rparr>)) = ds_grants (revoke_where P d)"
  "ds_grants (revoke_where P (d\<lparr>ds_keyset := k\<rparr>)) = ds_grants (revoke_where P d)"
  "ds_grants (revoke_where P (d\<lparr>ds_origin := k\<rparr>)) = ds_grants (revoke_where P d)"
  "ds_grants (revoke_where P (d\<lparr>ds_endpoint := k\<rparr>)) = ds_grants (revoke_where P d)"
  "ds_grants (revoke_where P (d\<lparr>ds_owner := k\<rparr>)) = ds_grants (revoke_where P d)"
  "ds_grants (revoke_where P (d\<lparr>ds_initial_trust := k\<rparr>)) = ds_grants (revoke_where P d)"
  by (simp_all add: revoke_where_def)

lemma work_grants:
  assumes "work_of op = Some w" "w d = Inr d'"
    "\<not> (\<exists>j. op = Op_revoke j)" "\<not> (\<exists>j g. op = Op_add j g)" "\<not> (\<exists>j g. op = Op_bind j g)"
  shows "ds_grants d' = ds_grants d \<or> (\<exists>P. ds_grants d' = ds_grants (revoke_where P d))"
proof -
  have "op = Op_revoke_assist j \<Longrightarrow> ds_grants d' = ds_grants (revoke_where (\<lambda>g. lg_invite g = j) d)" for j
    using assms by (auto simp: revoke_assist_grants_def revoke_where_frame)
  moreover have "op = Op_revoke_fixed \<Longrightarrow>
      ds_grants d' = ds_grants (revoke_where (\<lambda>g. lg_invite g \<in> fst ` set (ds_fixed d)) d)"
    using assms by (auto simp: revoke_fixed_grants_def Let_def)
  moreover have "\<not> (\<exists>j. op = Op_revoke_assist j) \<Longrightarrow> op \<noteq> Op_revoke_fixed \<Longrightarrow> ds_grants d' = ds_grants d \<or>
      ds_grants d' = ds_grants (revoke_where (\<lambda>g. lg_mode g = ''persistent'') d)"
    using assms by (cases op) (auto simp: store_work revoke_where_frame Let_def split: if_splits)
  ultimately show ?thesis by blast
qed

lemma work_keeps_grants:
  assumes "keyed d" "work_of op = Some w" "w d = Inr d'" "i \<noteq> []"
  shows "keyed d' \<and> (grant_gone i v d \<longrightarrow> grant_gone i v d')"
proof -
  have same: "ds_grants d' = ds_grants d \<Longrightarrow> ?thesis" using grants_frame[of d' d i v] assms(1) by simp
  have gone: "ds_grants d' = ds_grants (revoke_where P d) \<Longrightarrow> ?thesis" for P
    using grants_frame[of d' "revoke_where P d" i v] revoke_where_keeps(1)[of d P] revoke_where_keeps(2)[of i v d P] assms(1) by simp
  show ?thesis
  proof (cases op)
    case (Op_revoke j)
    then show ?thesis using assms
      by (auto simp: revoke_grant_def keyed_def grant_gone_def tombstone_def update_conv' split: option.splits if_splits)
  next
    case (Op_add j g)
    then show ?thesis using assms
      by (auto simp: add_grant_def keyed_def grant_gone_def update_conv' split: if_splits)
  next
    case (Op_bind j g)
    then show ?thesis using assms
      by (auto simp: bind_session_def keyed_def grant_gone_def update_conv' Let_def zero_grant_def
          split: if_splits option.splits)
  qed (use work_grants[OF assms(2,3)] same gone in auto)
qed

lemma store_step_cases:
  obtains (same) "store_step x s = s"
  | (worked) w d where "work_of (snd x) = Some w" "w (hs_data s) = Inr d"
      "store_step x s = \<lparr>hs_data = d, hs_saved = d\<rparr>"
  | (acks) acks where "store_step x s = with_acks acks s"
  | (saved) acks where "store_step x s = (let s' = with_acks acks s in s'\<lparr>hs_saved := hs_data s'\<rparr>)"
  | (reopened) "snd x = Op_reopen" "store_step x s = s\<lparr>hs_data := hs_saved s\<rparr>"
proof (cases "work_of (snd x)")
  case (Some w)
  then show thesis using same worked
    by (cases "w (hs_data s)"; cases "fst x") (simp_all add: store_step_def update_store_def)
next
  case None
  have self: "with_acks (ds_acks (hs_data s)) s = s" by (simp add: with_acks_def)
  have ps: "snd (persist b s') \<in> {s', s'\<lparr>hs_saved := hs_data s'\<rparr>}" for b s' by (simp add: persist_def)
  consider (r) a where "snd x = Op_remember a" | (c) a r where "snd x = Op_change a r" | (o) "snd x = Op_reopen"
    using None by (cases "snd x") auto
  then show thesis
  proof cases
    case (r a)
    then have "\<exists>acks. store_step x s \<in> {with_acks acks s, (with_acks acks s)\<lparr>hs_saved := hs_data (with_acks acks s)\<rparr>}"
      using ps self by (auto simp: store_step_def remember_close_ack_def Let_def split: option.splits) metis+
    then show thesis using acks saved by (auto simp: Let_def)
  next
    case (c a r)
    then have "\<exists>acks. store_step x s \<in> {with_acks acks s, (with_acks acks s)\<lparr>hs_saved := hs_data (with_acks acks s)\<rparr>}"
      using ps self by (auto simp: store_step_def change_close_ack_def Let_def split: option.splits) metis+
    then show thesis using acks saved by (auto simp: Let_def)
  next
    case o then show thesis using reopened by (simp add: store_step_def)
  qed
qed

definition store_keyed :: "host_store \<Rightarrow> bool" where
  "store_keyed s = (keyed (hs_data s) \<and> keyed (hs_saved s))"

definition store_gone :: "string \<Rightarrow> int \<Rightarrow> host_store \<Rightarrow> bool" where
  "store_gone i v s = (grant_gone i v (hs_data s) \<and> grant_gone i v (hs_saved s))"

lemma store_step_keeps:
  assumes "store_keyed s" "i \<noteq> []"
  shows "store_keyed (store_step x s) \<and> (store_gone i v s \<longrightarrow> store_gone i v (store_step x s))"
proof (cases rule: store_step_cases[of x s])
  case (worked w d)
  then show ?thesis using work_keeps_grants[OF _ worked(1,2) assms(2), of v] assms(1)
    by (simp add: store_keyed_def store_gone_def)
qed (use assms in \<open>auto simp: store_keyed_def store_gone_def with_acks_def keyed_def grant_gone_def Let_def\<close>)

lemma store_run_keeps:
  "store_keyed s \<Longrightarrow> i \<noteq> [] \<Longrightarrow>
     store_keyed (store_run ops s) \<and> (store_gone i v s \<longrightarrow> store_gone i v (store_run ops s))"
proof (induction ops arbitrary: s)
  case (Cons x ops)
  then show ?case using store_step_keeps[OF Cons.prems, of x v] by (simp add: store_run_def)
qed (simp add: store_run_def)

text \<open>\<^bold>\<open>C5\<close> (revocation is final).  Once a revocation of a grant has been stored, no later
  operation on the store brings the grant back, whether its saves succeed or fail and however
  often the store is reopened from what was saved: the grant stays revoked in memory and on
  disk, with a version that is never lower than the tombstone's.\<close>

theorem revocation_final:
  assumes "i \<noteq> []" "update_store ok (revoke_grant i) (store_run before new_store) = (None, s)"
    "map_of (ds_grants (hs_data s)) i = Some t"
  shows "lg_revoked t \<and>
    (\<exists>g. map_of (ds_grants (hs_data (store_run after s))) i = Some g \<and> lg_revoked g \<and> lg_version t \<le> lg_version g) \<and>
    (\<exists>g. map_of (ds_grants (hs_saved (store_run after s))) i = Some g \<and> lg_revoked g \<and> lg_version t \<le> lg_version g)"
proof -
  let ?s = "store_run before new_store"
  have keyed: "store_keyed new_store" by (simp add: store_keyed_def new_store_def keyed_def empty_disk_def)
  have "store_step (ok, Op_revoke i) ?s = s" using assms(2) by (simp add: store_step_def)
  then have "store_keyed s"
    using store_step_keeps[of ?s i "(ok, Op_revoke i)"] store_run_keeps[OF keyed assms(1)] assms(1) by auto
  moreover have "lg_revoked t" "hs_saved s = hs_data s"
    using assms(2,3)
    by (auto simp: update_store_def revoke_grant_def tombstone_def update_conv' split: option.splits if_splits)
  ultimately show ?thesis
    using store_run_keeps[of s i after "lg_version t"] assms by (simp add: store_gone_def grant_gone_def)
qed

definition sample_grant :: local_grant where
  "sample_grant = zero_grant\<lparr>lg_id := ''pairing1'', lg_mode := ''one_session'', lg_permissions := [''view''],
     lg_version := 1, lg_expires := 1000\<rparr>"

theorem revocation_final_witness:
  "\<exists>g. map_of (ds_grants (hs_data (store_run [(True, Op_bind ''s'' sample_grant), (False, Op_disable), (True, Op_reopen)]
       (snd (update_store True (revoke_grant ''pairing1'')
         (store_run [(True, Op_add ''pairing1'' sample_grant)] new_store)))))) ''pairing1'' = Some g \<and> lg_revoked g"
proof -
  let ?u = "update_store True (revoke_grant ''pairing1'') (store_run [(True, Op_add ''pairing1'' sample_grant)] new_store)"
  have "fst ?u = None" "map_of (ds_grants (hs_data (snd ?u))) ''pairing1'' = Some (tombstone sample_grant)"
    by code_simp+
  then show ?thesis
    using revocation_final[of "''pairing1''" True "[(True, Op_add ''pairing1'' sample_grant)]" "snd ?u" "tombstone sample_grant"
        "[(True, Op_bind ''s'' sample_grant), (False, Op_disable), (True, Op_reopen)]"]
    by (metis list.distinct(1) prod.collapse)
qed

section \<open>The debt of stopped sessions\<close>

definition acks_ok :: "(string \<times> stopped_ack) list \<Rightarrow> bool" where
  "acks_ok acks = (distinct (map fst acks) \<and> length acks \<le> maximum_close_acks \<and>
     (\<forall>k a. map_of acks k = Some a \<longrightarrow> k = ack_key a))"

definition store_acks_ok :: "host_store \<Rightarrow> bool" where
  "store_acks_ok s = (acks_ok (ds_acks (hs_data s)) \<and> acks_ok (ds_acks (hs_saved s)))"

definition owes :: "session_ref \<Rightarrow> int \<Rightarrow> disk_state \<Rightarrow> bool" where
  "owes r v d = (\<exists>a. map_of (ds_acks d) (ack_key a) = Some a \<and> sa_ref a = r \<and> v \<le> sa_seq a)"

lemma work_keeps_acks:
  "work_of op = Some w \<Longrightarrow> w d = Inr d' \<Longrightarrow> ds_acks d' = ds_acks d"
  by (cases op) (auto simp: store_work bind_session_def revoke_where_def Let_def split: if_splits option.splits)

end
