(* ===== verification/Host_Acks.thy ===== *)
theory Host_Acks
  imports Host_Store
begin

text \<open>
  The debt of stopped sessions, \<^verbatim>\<open>internal/remotehost/close_ack.go\<close>: a stop of a session epoch
  is recorded in the protected store and reported to the server until the server's answers
  prove that epoch closed.
\<close>

section \<open>Sending acknowledgements\<close>

datatype api_answer = Api_ok | Api_error int string | Api_failed

fun answer_error :: "api_answer \<Rightarrow> host_error option" where
  "answer_error Api_ok = None"
| "answer_error (Api_error status code) = Some (Err_api status code)"
| "answer_error Api_failed = Some Err_network"

record loaded_session =
  ls_epoch :: int
  ls_state :: string
  ls_version :: int
  ls_seq :: int

text \<open>What the server and the disk answer while one acknowledgement is sent: the first report,
  the session as loaded after a conflict, the signer, and the second report.\<close>

record close_env =
  ce_first :: api_answer
  ce_load :: "host_error + loaded_session"
  ce_sign :: "session_ref \<Rightarrow> int \<Rightarrow> string option"
  ce_second :: api_answer
  ce_save_replace :: bool
  ce_save_settle :: bool

definition over :: "loaded_session \<Rightarrow> bool" where
  "over c = (ls_state c = ''closed'' \<or> ls_state c = ''failed'' \<or> ls_state c = ''expired'')"

definition settle_ack :: "bool \<Rightarrow> stopped_ack \<Rightarrow> host_store \<Rightarrow> host_error option \<times> host_store" where
  "settle_ack save_ok ack s = snd (change_close_ack save_ok ack None s)"

definition send_close_ack ::
    "close_env \<Rightarrow> stopped_ack \<Rightarrow> host_store \<Rightarrow> host_error option \<times> host_store" where
  "send_close_ack e ack s =
    (if ce_first e = Api_ok \<or> ce_first e = Api_error 404 ''RD_NOT_FOUND''
     then settle_ack (ce_save_settle e) ack s
     else if ce_first e = Api_error 409 ''RD_STATE_CONFLICT'' then
       (case ce_load e of Inl err \<Rightarrow> (Some err, s)
        | Inr c \<Rightarrow>
          if rf_epoch (sa_ref ack) < ls_epoch c \<or> over c then settle_ack (ce_save_settle e) ack s
          else if ls_epoch c = rf_epoch (sa_ref ack) \<and> sa_seq ack < ls_seq c then
            (case ce_sign e (sa_ref ack) (ls_seq c) of None \<Rightarrow> (Some Err_sign, s)
             | Some proof \<Rightarrow>
               (let new = \<lparr>sa_ref = sa_ref ack, sa_seq = ls_seq c, sa_proof = proof\<rparr>;
                    (changed, err, s) = change_close_ack (ce_save_replace e) ack (Some new) s
                in if \<not> changed \<or> err \<noteq> None then (err, s)
                   else if ce_second e = Api_ok then settle_ack (ce_save_settle e) new s
                   else (answer_error (ce_second e), s)))
          else (answer_error (ce_first e), s))
     else (answer_error (ce_first e), s))"

fun flush_owed_acks :: "(close_env \<times> stopped_ack) list \<Rightarrow> host_store \<Rightarrow> host_error option \<times> host_store" where
  "flush_owed_acks [] s = (None, s)"
| "flush_owed_acks ((e, a) # rest) s =
    (case send_close_ack e a s of (Some err, s) \<Rightarrow> (Some err, s) | (None, s) \<Rightarrow> flush_owed_acks rest s)"

section \<open>Keys\<close>

lemma last_colon:
  assumes "a @ '':'' @ x = b @ '':'' @ y" "CHR '':'' \<notin> set x" "CHR '':'' \<notin> set y"
  shows "a = b \<and> x = y"
proof -
  have tw: "takeWhile (\<lambda>c. c \<noteq> CHR '':'') (rev (z @ '':'' @ w)) = rev w" if "CHR '':'' \<notin> set w" for z w :: string
    using that takeWhile_append2[of "rev w" "\<lambda>c. c \<noteq> CHR '':''" "CHR '':'' # rev z"] by auto
  have "rev x = rev y" using tw[OF assms(2), of a] tw[OF assms(3), of b] assms(1) by metis
  then show ?thesis using assms(1) by simp
qed

lemma show_int_chars: "c \<in> set (show_int i) \<Longrightarrow> is_ascii_digit c \<or> c = CHR ''-''"
  using show_nat_digits by (auto simp: show_int_def list_all_iff split: if_splits)

lemma show_nat_no_sign: "show_nat n \<noteq> CHR ''-'' # s"
proof
  assume "show_nat n = CHR ''-'' # s"
  then have "is_ascii_digit (CHR ''-'')" using show_nat_digits[of n] by simp
  then show False by (simp add: is_ascii_digit_def)
qed

lemma show_int_inj: "show_int i = show_int j \<Longrightarrow> i = j"
proof -
  assume eq: "show_int i = show_int j"
  have sn: "show_nat m = show_nat n \<Longrightarrow> m = n" for m n by (metis dec_show_nat)
  show ?thesis
    using eq show_nat_no_sign[of "nat i"] show_nat_no_sign[of "nat j"] sn[of "nat i" "nat j"] sn[of "nat (- i)" "nat (- j)"]
    by (auto simp: show_int_def split: if_splits) metis+
qed

lemma ack_key_inj: "ack_key a = ack_key b \<Longrightarrow> sa_ref a = sa_ref b"
proof -
  assume eq: "ack_key a = ack_key b"
  have "CHR '':'' \<notin> set (show_int i)" for i
    using show_int_chars[of "CHR '':''" i] by (auto simp: is_ascii_digit_def)
  from last_colon[OF eq[unfolded ack_key_def] this this] show ?thesis
    by (cases "sa_ref a"; cases "sa_ref b") (auto dest: show_int_inj)
qed

section \<open>Debt is kept\<close>

lemma acks_ok_update:
  assumes "acks_ok acks" "map_of acks (ack_key a) \<noteq> None \<or> length acks < maximum_close_acks"
  shows "acks_ok (AList.update (ack_key a) a acks)"
proof -
  have "length (AList.update (ack_key a) a acks) \<le> maximum_close_acks"
  proof (cases "map_of acks (ack_key a)")
    case None
    then have "length (AList.update (ack_key a) a acks) = Suc (length acks)"
      by (induction acks) (auto split: if_splits)
    then show ?thesis using assms None by simp
  next
    case (Some b)
    then have "length (AList.update (ack_key a) a acks) = length acks"
      by (induction acks) (auto split: if_splits)
    then show ?thesis using assms(1) by (simp add: acks_ok_def)
  qed
  then show ?thesis using assms(1) distinct_update[of acks "ack_key a" a]
    by (auto simp: acks_ok_def update_conv')
qed

lemma acks_ok_delete: "acks_ok acks \<Longrightarrow> acks_ok (AList.delete k acks)"
  using length_delete_le[of k acks] distinct_delete[of acks k]
  by (auto simp: acks_ok_def delete_conv' split: if_splits)

lemma acks_keyD: "acks_ok acks \<Longrightarrow> map_of acks k = Some a \<Longrightarrow> ack_key a = k"
  unfolding acks_ok_def by blast

lemma owes_update:
  assumes "owes q v d" "ack_key b = k"
    "\<And>c. map_of (ds_acks d) k = Some c \<Longrightarrow> sa_ref c = sa_ref b \<and> sa_seq c \<le> sa_seq b"
  shows "owes q v (d\<lparr>ds_acks := AList.update k b (ds_acks d)\<rparr>)"
proof -
  obtain c where c: "map_of (ds_acks d) (ack_key c) = Some c" "sa_ref c = q" "v \<le> sa_seq c"
    using assms(1) by (auto simp: owes_def)
  show ?thesis
  proof (cases "ack_key c = k")
    case True
    then have "sa_ref b = q \<and> v \<le> sa_seq b" using assms(3)[of c] c by auto
    then show ?thesis using assms(2) by (auto simp: owes_def update_conv' intro!: exI[of _ b])
  next
    case False
    then show ?thesis using c by (auto simp: owes_def update_conv' intro!: exI[of _ c])
  qed
qed

lemma owes_delete:
  assumes "owes q v d" "sa_ref old \<noteq> q"
  shows "owes q v (d\<lparr>ds_acks := AList.delete (ack_key old) (ds_acks d)\<rparr>)"
proof -
  obtain c where c: "map_of (ds_acks d) (ack_key c) = Some c" "sa_ref c = q" "v \<le> sa_seq c"
    using assms(1) by (auto simp: owes_def)
  then have "ack_key c \<noteq> ack_key old" using ack_key_inj assms(2) by metis
  then show ?thesis using c by (auto simp: owes_def delete_conv' intro!: exI[of _ c])
qed

lemma persist_saved: "persist ok s = (e, s') \<Longrightarrow> hs_data s' = hs_data s \<and> hs_saved s' \<in> {hs_saved s, hs_data s}"
  by (auto simp: persist_def split: if_splits)

lemma with_acks_simps [simp]:
  "hs_data (with_acks acks s) = (hs_data s)\<lparr>ds_acks := acks\<rparr>" "hs_saved (with_acks acks s) = hs_saved s"
  by (simp_all add: with_acks_def)

lemma remember_cases:
  assumes "remember_close_ack ok a s = (r, e, s')"
  obtains (old) old where "map_of (ds_acks (hs_data s)) (ack_key a) = Some old" "sa_seq a \<le> sa_seq old"
      "r = Some old" "persist ok s = (e, s')"
  | (newer) old where "map_of (ds_acks (hs_data s)) (ack_key a) = Some old" "sa_seq old < sa_seq a" "r = Some a"
      "persist ok (with_acks (AList.update (ack_key a) a (ds_acks (hs_data s))) s) = (e, s')"
  | (full) "r = None" "e \<noteq> None" "s' = s"
  | (fresh) "map_of (ds_acks (hs_data s)) (ack_key a) = None" "length (ds_acks (hs_data s)) < maximum_close_acks"
      "r = Some a" "persist ok (with_acks (AList.update (ack_key a) a (ds_acks (hs_data s))) s) = (e, s')"
proof (cases "map_of (ds_acks (hs_data s)) (ack_key a)")
  case None
  show thesis
  proof (cases "length (ds_acks (hs_data s)) < maximum_close_acks")
    case True
    then have "(Some a, persist ok (with_acks (AList.update (ack_key a) a (ds_acks (hs_data s))) s)) = (r, e, s')"
      using None assms by (simp add: remember_close_ack_def)
    then show thesis using fresh[OF None True] by simp
  next
    case False
    then have "r = None \<and> e \<noteq> None \<and> s' = s" using None assms by (auto simp: remember_close_ack_def)
    then show thesis using full by blast
  qed
next
  case (Some old)
  show thesis
  proof (cases "sa_seq a \<le> sa_seq old")
    case True
    then have "(Some old, persist ok s) = (r, e, s')" using Some assms by (simp add: remember_close_ack_def)
    then show thesis using that(1)[OF Some True] by simp
  next
    case False
    then have "(Some a, persist ok (with_acks (AList.update (ack_key a) a (ds_acks (hs_data s))) s)) = (r, e, s')"
      using Some assms by (simp add: remember_close_ack_def)
    then show thesis using newer[OF Some] False by simp
  qed
qed

lemma change_cases:
  assumes "change_close_ack ok old new s = (r, e, s')"
  obtains (same) "s' = s"
  | (settled) "new = None" "map_of (ds_acks (hs_data s)) (ack_key old) = Some old"
      "persist ok (with_acks (AList.delete (ack_key old) (ds_acks (hs_data s))) s) = (e, s')" "r"
  | (renewed) b where "new = Some b" "sa_ref b = sa_ref old" "sa_seq old < sa_seq b"
      "map_of (ds_acks (hs_data s)) (ack_key old) = Some old"
      "persist ok (with_acks (AList.update (ack_key old) b (ds_acks (hs_data s))) s) = (e, s')" "r"
proof (cases "map_of (ds_acks (hs_data s)) (ack_key old) = Some old")
  case True
  show thesis
  proof (cases new)
    case None then show thesis using True assms settled by (simp add: change_close_ack_def)
  next
    case (Some b)
    show thesis
    proof (cases "sa_ref b = sa_ref old \<and> sa_seq old < sa_seq b")
      case c: True then show thesis using True Some assms renewed[of b] by (simp add: change_close_ack_def)
    next
      case c: False
      then have "sa_ref b \<noteq> sa_ref old \<or> sa_seq b \<le> sa_seq old" by auto
      then show thesis using True Some assms same by (simp add: change_close_ack_def)
    qed
  qed
next
  case False then show thesis using assms same by (simp add: change_close_ack_def)
qed

lemma remember_ok:
  assumes ok: "acks_ok (ds_acks (hs_data s))" and rem: "remember_close_ack ok a s = (r, e, s')"
  shows "acks_ok (ds_acks (hs_data s')) \<and> (owes q v (hs_data s) \<longrightarrow> owes q v (hs_data s')) \<and>
    hs_saved s' \<in> {hs_saved s, hs_data s'} \<and>
    (\<forall>b. r = Some b \<longrightarrow> sa_ref b = sa_ref a \<and> sa_seq a \<le> sa_seq b \<and>
       map_of (ds_acks (hs_data s')) (ack_key a) = Some b)"
  using rem
proof (cases rule: remember_cases)
  case (old old)
  have "sa_ref old = sa_ref a" using acks_keyD[OF ok old(1)] ack_key_inj by blast
  then show ?thesis using old ok persist_saved[OF old(4)] by auto
next
  case (newer old)
  have "sa_ref old = sa_ref a" using acks_keyD[OF ok newer(1)] ack_key_inj by blast
  then have "owes q v (hs_data s) \<Longrightarrow>
      owes q v ((hs_data s)\<lparr>ds_acks := AList.update (ack_key a) a (ds_acks (hs_data s))\<rparr>)"
    using newer(1,2) by (intro owes_update) auto
  then show ?thesis using newer acks_ok_update[OF ok, of a] persist_saved[OF newer(4)] by (auto simp: update_conv')
next
  case full then show ?thesis using ok by simp
next
  case fresh
  then have "owes q v (hs_data s) \<Longrightarrow>
      owes q v ((hs_data s)\<lparr>ds_acks := AList.update (ack_key a) a (ds_acks (hs_data s))\<rparr>)"
    by (intro owes_update) auto
  then show ?thesis using fresh acks_ok_update[OF ok, of a] persist_saved[OF fresh(4)] by (auto simp: update_conv')
qed

lemma change_ok:
  assumes ok: "acks_ok (ds_acks (hs_data s))" and ch: "change_close_ack ok old new s = (r, e, s')"
  shows "acks_ok (ds_acks (hs_data s')) \<and> hs_saved s' \<in> {hs_saved s, hs_data s'} \<and>
    (owes q v (hs_data s) \<and> (new \<noteq> None \<or> sa_ref old \<noteq> q) \<longrightarrow> owes q v (hs_data s'))"
  using ch
proof (cases rule: change_cases)
  case same then show ?thesis using ok by simp
next
  case settled
  then show ?thesis using acks_ok_delete[OF ok] owes_delete[of q v "hs_data s" old] persist_saved[OF settled(3)] by auto
next
  case (renewed b)
  have key: "ack_key b = ack_key old" using renewed(2) by (simp add: ack_key_def)
  have "owes q v (hs_data s) \<Longrightarrow>
      owes q v ((hs_data s)\<lparr>ds_acks := AList.update (ack_key old) b (ds_acks (hs_data s))\<rparr>)"
    using renewed key by (intro owes_update) auto
  then show ?thesis using acks_ok_update[OF ok, of b] key renewed(4) persist_saved[OF renewed(5)] by auto
qed

fun keeps_debt :: "session_ref \<Rightarrow> store_op \<Rightarrow> bool" where
  "keeps_debt q Op_reopen = False"
| "keeps_debt q (Op_change x None) = (sa_ref x \<noteq> q)"
| "keeps_debt q _ = True"

lemma store_step_acks:
  assumes "store_acks_ok s"
  shows "store_acks_ok (store_step x s) \<and>
    (owes q v (hs_data s) \<and> keeps_debt q (snd x) \<longrightarrow> owes q v (hs_data (store_step x s)))"
proof (cases "work_of (snd x)")
  case (Some w)
  show ?thesis
  proof (cases "w (hs_data s)")
    case (Inl e) then show ?thesis using assms Some by (simp add: store_step_def update_store_def)
  next
    case (Inr d)
    then have "ds_acks d = ds_acks (hs_data s)" using work_keeps_acks[OF Some] by blast
    then show ?thesis using assms Some Inr
      by (simp add: store_step_def update_store_def store_acks_ok_def owes_def)
  qed
next
  case None
  have ok: "acks_ok (ds_acks (hs_data s))" using assms by (simp add: store_acks_ok_def)
  consider (r) a where "snd x = Op_remember a" | (c) a n where "snd x = Op_change a n" | (o) "snd x = Op_reopen"
    using None by (cases "snd x") auto
  then show ?thesis
  proof cases
    case (r a)
    obtain b e s' where rem: "remember_close_ack (fst x) a s = (b, e, s')" by (metis surj_pair)
    have "store_step x s = s'" using r rem by (simp add: store_step_def)
    then show ?thesis using remember_ok[OF ok rem, of q v] assms by (auto simp: store_acks_ok_def)
  next
    case (c a n)
    obtain b e s' where ch: "change_close_ack (fst x) a n s = (b, e, s')" by (metis surj_pair)
    have "store_step x s = s'" using c ch by (simp add: store_step_def)
    then show ?thesis using change_ok[OF ok ch, of q v] assms c by (cases n) (auto simp: store_acks_ok_def)
  next
    case o then show ?thesis using assms by (simp add: store_step_def store_acks_ok_def)
  qed
qed

lemma store_run_acks:
  "store_acks_ok s \<Longrightarrow> store_acks_ok (store_run ops s) \<and>
     (owes q v (hs_data s) \<and> list_all (\<lambda>x. keeps_debt q (snd x)) ops \<longrightarrow> owes q v (hs_data (store_run ops s)))"
proof (induction ops arbitrary: s)
  case (Cons x ops)
  then show ?case using store_step_acks[OF Cons.prems, of x q v] by (auto simp: store_run_def)
qed (simp add: store_run_def)

lemma new_store_acks: "store_acks_ok new_store"
  by (simp add: new_store_def store_acks_ok_def acks_ok_def empty_disk_def)

text \<open>\<^bold>\<open>C11\<close> (stop debt is kept).  Once the host has recorded that a session epoch has stopped, the
  signed fact stays in the store, with a lease sequence that never falls, through every other
  operation and even if no save succeeds, until exactly that epoch is settled or the process
  ends.  The store never holds more than 64 of them.\<close>

theorem stopped_debt_kept:
  assumes "remember_close_ack ok a (store_run before new_store) = (Some b, e, s)"
    and "list_all (\<lambda>x. keeps_debt (sa_ref a) (snd x)) after"
  shows "(\<exists>c. map_of (ds_acks (hs_data (store_run after s))) (ack_key a) = Some c \<and>
      sa_ref c = sa_ref a \<and> sa_seq a \<le> sa_seq c) \<and>
    length (ds_acks (hs_data (store_run after s))) \<le> maximum_close_acks"
proof -
  let ?s = "store_run before new_store"
  have ok: "store_acks_ok ?s" using store_run_acks[OF new_store_acks, of before] by blast
  then have okd: "acks_ok (ds_acks (hs_data ?s))" "acks_ok (ds_acks (hs_saved ?s))"
    by (simp_all add: store_acks_ok_def)
  have rem: "acks_ok (ds_acks (hs_data s))" "hs_saved s \<in> {hs_saved ?s, hs_data s}"
    "sa_ref b = sa_ref a" "sa_seq a \<le> sa_seq b" "map_of (ds_acks (hs_data s)) (ack_key a) = Some b"
    using remember_ok[OF okd(1) assms(1)] by blast+
  have s: "store_acks_ok s" using rem(1,2) okd(2) by (auto simp: store_acks_ok_def)
  have key: "ack_key b = ack_key a" using rem(3) by (simp add: ack_key_def)
  have "owes (sa_ref a) (sa_seq a) (hs_data s)"
    unfolding owes_def using rem(3-5) key by (intro exI[of _ b]) simp
  with store_run_acks[OF s, of after "sa_ref a" "sa_seq a"] assms(2)
  have run: "store_acks_ok (store_run after s)" "owes (sa_ref a) (sa_seq a) (hs_data (store_run after s))" by auto
  then obtain c where "map_of (ds_acks (hs_data (store_run after s))) (ack_key c) = Some c"
    "sa_ref c = sa_ref a" "sa_seq a \<le> sa_seq c" by (auto simp: owes_def)
  moreover from this have "ack_key c = ack_key a" by (simp add: ack_key_def)
  moreover have "length (ds_acks (hs_data (store_run after s))) \<le> maximum_close_acks"
    using run(1) by (simp add: store_acks_ok_def acks_ok_def)
  ultimately show ?thesis by auto
qed

text \<open>What counts as evidence that the server has closed the stopped epoch.\<close>

definition closure_evidence :: "close_env \<Rightarrow> stopped_ack \<Rightarrow> bool" where
  "closure_evidence e ack =
    (ce_first e = Api_ok \<or> ce_first e = Api_error 404 ''RD_NOT_FOUND'' \<or>
     (ce_first e = Api_error 409 ''RD_STATE_CONFLICT'' \<and>
      (case ce_load e of Inl _ \<Rightarrow> False
       | Inr c \<Rightarrow> rf_epoch (sa_ref ack) < ls_epoch c \<or> over c \<or>
           (ls_epoch c = rf_epoch (sa_ref ack) \<and> sa_seq ack < ls_seq c \<and> ce_second e = Api_ok))))"

lemma change_entry:
  assumes "change_close_ack ok ack (Some new) s = (r, e, s')" "map_of (ds_acks (hs_data s)) (ack_key ack) = Some ack"
  shows "map_of (ds_acks (hs_data s')) (ack_key ack) = Some ack \<or>
    (r \<and> sa_ref new = sa_ref ack \<and> sa_seq ack < sa_seq new \<and> map_of (ds_acks (hs_data s')) (ack_key ack) = Some new)"
  using assms(1)
proof (cases rule: change_cases)
  case same then show ?thesis using assms(2) by simp
next
  case settled then show ?thesis by simp
next
  case (renewed b) then show ?thesis using persist_saved[OF renewed(5)] by (simp add: update_conv')
qed

text \<open>\<^bold>\<open>C12\<close> (no closure without evidence).  Sending an owed acknowledgement removes it only when
  the server's answers prove that epoch over: it accepted the report, knows no such session,
  reports a later epoch or a final state, or accepted the report for a renewed lease.
  Throttling, authorisation failures and network errors leave the debt in place.\<close>

theorem closure_needs_evidence:
  assumes "map_of (ds_acks (hs_data s)) (ack_key ack) = Some ack" "send_close_ack e ack s = (r, s')"
    "\<not> closure_evidence e ack"
  shows "\<exists>c. map_of (ds_acks (hs_data s')) (ack_key ack) = Some c \<and> sa_ref c = sa_ref ack \<and> sa_seq ack \<le> sa_seq c"
proof -
  have kept: "s' = s \<Longrightarrow> ?thesis" using assms(1) by auto
  consider (same) "s' = s"
    | (renew) c new where "ce_load e = Inr c" "sa_ref new = sa_ref ack" "ce_second e \<noteq> Api_ok"
        "snd (snd (change_close_ack (ce_save_replace e) ack (Some new) s)) = s'"
  proof (cases "ce_first e = Api_error 409 ''RD_STATE_CONFLICT''")
    case False
    then show thesis using assms(2,3) same by (simp add: send_close_ack_def closure_evidence_def)
  next
    case True
    show thesis
    proof (cases "ce_load e")
      case (Inl x) then show thesis using True assms(2,3) same by (simp add: send_close_ack_def closure_evidence_def)
    next
      case (Inr c)
      show thesis
      proof (cases "ls_epoch c = rf_epoch (sa_ref ack) \<and> sa_seq ack < ls_seq c \<and> ce_sign e (sa_ref ack) (ls_seq c) \<noteq> None")
        case False
        then show thesis using True Inr assms(2,3) same
          by (auto simp: send_close_ack_def closure_evidence_def split: if_splits option.splits)
      next
        case c: True
        then obtain pf where pf: "ce_sign e (sa_ref ack) (ls_seq c) = Some pf" by blast
        let ?new = "\<lparr>sa_ref = sa_ref ack, sa_seq = ls_seq c, sa_proof = pf\<rparr>"
        have "ce_second e \<noteq> Api_ok" using True Inr c assms(3) by (simp add: closure_evidence_def)
        moreover from this have "snd (snd (change_close_ack (ce_save_replace e) ack (Some ?new) s)) = s'"
          using True Inr c pf assms(2,3)
          by (auto simp: send_close_ack_def closure_evidence_def Let_def split: prod.splits if_splits)
        ultimately show thesis using renew[of c ?new] Inr by simp
      qed
    qed
  qed
  then show ?thesis
  proof cases
    case same then show ?thesis by (rule kept)
  next
    case (renew c new)
    obtain x y where "change_close_ack (ce_save_replace e) ack (Some new) s = (x, y, s')"
      using renew(4) by (metis prod.collapse)
    from change_entry[OF this assms(1)] show ?thesis by auto
  qed
qed

section \<open>Samples\<close>

definition sample_ack :: stopped_ack where
  "sample_ack = \<lparr>sa_ref = \<lparr>rf_session = ''session1'', rf_epoch = 3\<rparr>, sa_seq = 2, sa_proof = ''p''\<rparr>"

definition sample_owing :: host_store where
  "sample_owing = snd (snd (remember_close_ack False sample_ack (store_run [] new_store)))"

definition sample_throttled :: close_env where
  "sample_throttled = \<lparr>ce_first = Api_error 429 ''RD_THROTTLED'', ce_load = Inl Err_network,
     ce_sign = (\<lambda>_ _. None), ce_second = Api_failed, ce_save_replace = True, ce_save_settle = True\<rparr>"

theorem stopped_debt_kept_witness:
  "\<exists>c. map_of (ds_acks (hs_data (store_run [(False, Op_disable), (True, Op_emergency ''Q'')] sample_owing)))
     (ack_key sample_ack) = Some c \<and> sa_seq sample_ack \<le> sa_seq c"
proof -
  let ?r = "remember_close_ack False sample_ack (store_run [] new_store)"
  have "fst ?r = Some sample_ack" by code_simp
  then have "?r = (Some sample_ack, fst (snd ?r), sample_owing)" by (simp add: sample_owing_def prod_eq_iff)
  from stopped_debt_kept[OF this, of "[(False, Op_disable), (True, Op_emergency ''Q'')]"] show ?thesis by auto
qed

theorem closure_needs_evidence_witness:
  "\<exists>c. map_of (ds_acks (hs_data (snd (send_close_ack sample_throttled sample_ack sample_owing))))
     (ack_key sample_ack) = Some c \<and> sa_ref c = sa_ref sample_ack"
proof -
  have "map_of (ds_acks (hs_data sample_owing)) (ack_key sample_ack) = Some sample_ack" by code_simp
  moreover have "\<not> closure_evidence sample_throttled sample_ack"
    by (simp add: closure_evidence_def sample_throttled_def)
  ultimately show ?thesis
    using closure_needs_evidence[of sample_owing sample_ack sample_throttled] by (metis prod.collapse)
qed

end
