(* ===== verification/Host_Keyset.thy ===== *)
theory Host_Keyset
  imports Host_Store
begin

text \<open>
  The server keys a remote host trusts, \<^verbatim>\<open>internal/remotehost/keyset.go\<close>, with
  \<^verbatim>\<open>RefreshKeys\<close> of \<^verbatim>\<open>http.go\<close>.  A host pins one keyset and afterwards follows rotations only:
  each rotation proof is signed by the key that was active before it.  Decoding and signature
  checks are the fields of \<open>jws_lib\<close>; \<open>jl_rotation\<close> is the decoded content of a rotation
  proof whose signature verifies under the given key.
\<close>

section \<open>Data\<close>

record server_key =
  sk_kid :: string
  sk_alg :: string
  sk_jwk :: string
  sk_not_before :: ms
  sk_not_after :: ms

record keyset_body =
  kb_version :: int
  kb_active :: string
  kb_keys :: "server_key list"

record keyset =
  ks_instance :: string
  ks_restore :: int
  ks_body :: keyset_body
  ks_proofs :: "string list"

record rotation =
  ro_instance :: string
  ro_from :: int
  ro_to :: int
  ro_kid :: string
  ro_issued :: ms
  ro_body :: keyset_body

record jws_lib =
  jl_public_ok :: "string \<Rightarrow> bool"
  jl_thumbprint :: "string \<Rightarrow> string"
  jl_hint :: "string \<Rightarrow> int option"
  jl_kid :: "string \<Rightarrow> string option"
  jl_rotation :: "string \<Rightarrow> string \<Rightarrow> rotation option"
  jl_times :: "string \<Rightarrow> string \<Rightarrow> string \<Rightarrow> (int \<times> int) option"

section \<open>Checks\<close>

fun check_keys :: "jws_lib \<Rightarrow> server_key list \<Rightarrow> string list \<Rightarrow> string list option" where
  "check_keys lib [] seen = Some seen"
| "check_keys lib (k # ks) seen =
    (if \<not> jl_public_ok lib (sk_jwk k) \<or> sk_alg k \<noteq> ''ES256'' \<or> sk_kid k \<noteq> jl_thumbprint lib (sk_jwk k) \<or>
        sk_kid k \<in> set seen \<or> sk_not_after k \<le> sk_not_before k
     then None else check_keys lib ks (sk_kid k # seen))"

text \<open>\<^verbatim>\<open>parseKeyset\<close> after decoding.\<close>

definition parse_keyset :: "jws_lib \<Rightarrow> keyset \<Rightarrow> host_error option" where
  "parse_keyset lib k =
    (let b = ks_body k
     in if ks_instance k = [] \<or> ks_restore k < 1 \<or> kb_version b < 1 \<or> length (kb_keys b) < 1 \<or>
           length (kb_keys b) > 8 \<or> length (ks_proofs k) > 32
        then Some Err_authorization
        else case check_keys lib (kb_keys b) [] of None \<Rightarrow> Some Err_authorization
        | Some seen \<Rightarrow>
          if kb_active b \<notin> set seen then Some Err_authorization
          else if list_ex (\<lambda>p. length p > 8192) (ks_proofs k) then Some Err_authorization else None)"

definition active_key :: "keyset_body \<Rightarrow> server_key option" where
  "active_key b = find (\<lambda>k. sk_kid k = kb_active b) (kb_keys b)"

text \<open>One rotation proof: checked under the active key of the keyset reached so far.  The time
  is that of the previous rotation, \<^term>\<open>None\<close> before the first.\<close>

definition rotate ::
    "jws_lib \<Rightarrow> keyset \<Rightarrow> ms \<Rightarrow> string \<Rightarrow> keyset_body \<Rightarrow> ms option \<Rightarrow> (keyset_body \<times> ms) option" where
  "rotate lib old now compact b before =
    (case active_key b of None \<Rightarrow> None
     | Some key \<Rightarrow>
       if jl_kid lib compact \<noteq> Some (sk_kid key) then None
       else case jl_rotation lib compact (sk_jwk key) of None \<Rightarrow> None
       | Some r \<Rightarrow>
         if ro_instance r \<noteq> ks_instance old \<or> ro_from r \<noteq> kb_version b \<or> ro_to r \<noteq> ro_from r + 1 \<or>
            ro_kid r \<noteq> kb_active b \<or> ro_issued r < sk_not_before key \<or> sk_not_after key \<le> ro_issued r \<or>
            now + 60 * 1000 < ro_issued r \<or> (case before of None \<Rightarrow> False | Some t \<Rightarrow> ro_issued r < t) \<or>
            kb_version (ro_body r) \<noteq> ro_to r \<or> kb_active (ro_body r) = kb_active b
         then None
         else if parse_keyset lib (old\<lparr>ks_body := ro_body r\<rparr>) \<noteq> None then None
         else case active_key (ro_body r) of None \<Rightarrow> None
         | Some a \<Rightarrow>
           if ro_issued r < sk_not_before a \<or> sk_not_after a \<le> ro_issued r then None
           else Some (ro_body r, ro_issued r))"

fun follow ::
    "jws_lib \<Rightarrow> keyset \<Rightarrow> ms \<Rightarrow> string list \<Rightarrow> keyset_body \<Rightarrow> ms option \<Rightarrow> keyset_body option" where
  "follow lib old now [] b before = Some b"
| "follow lib old now (p # ps) b before =
    (case jl_hint lib p of None \<Rightarrow> None
     | Some to \<Rightarrow>
       if to \<le> kb_version (ks_body old) then follow lib old now ps b before
       else case rotate lib old now p b before of None \<Rightarrow> None
       | Some (b', t) \<Rightarrow> follow lib old now ps b' (Some t))"

definition verify_keyset :: "jws_lib \<Rightarrow> keyset \<Rightarrow> keyset \<Rightarrow> ms \<Rightarrow> host_error option" where
  "verify_keyset lib old next now =
    (if ks_instance next \<noteq> ks_instance old \<or> ks_restore next < ks_restore old \<or>
        kb_version (ks_body next) < kb_version (ks_body old)
     then Some Err_authorization
     else case follow lib old now (ks_proofs next) (ks_body old) None of None \<Rightarrow> Some Err_authorization
     | Some b \<Rightarrow>
       if b \<noteq> ks_body next then Some Err_authorization
       else case active_key (ks_body next) of None \<Rightarrow> Some Err_authorization
       | Some a \<Rightarrow>
         if now < sk_not_before a \<or> sk_not_after a \<le> now then Some Err_authorization else None)"

text \<open>\<^verbatim>\<open>verifyServerJWS\<close>: a token of the server, under the key its header names, issued and
  expiring within that key's validity (in seconds).\<close>

definition verify_server_jws :: "jws_lib \<Rightarrow> keyset \<Rightarrow> string \<Rightarrow> string \<Rightarrow> bool" where
  "verify_server_jws lib keys compact typ =
    (case jl_kid lib compact of None \<Rightarrow> False
     | Some kid \<Rightarrow>
       (case find (\<lambda>k. sk_kid k = kid) (kb_keys (ks_body keys)) of None \<Rightarrow> False
        | Some key \<Rightarrow>
          (case jl_times lib compact (sk_jwk key) typ of None \<Rightarrow> False
           | Some (iat, ex) \<Rightarrow> sk_not_before key \<le> iat * 1000 \<and> ex * 1000 \<le> sk_not_after key)))"

text \<open>\<^verbatim>\<open>RefreshKeys\<close>: the stored keyset, the fetched one, and what the store keeps.  The result is
  whether the server was restored.\<close>

definition refresh_keys ::
    "jws_lib \<Rightarrow> (string \<Rightarrow> keyset option) \<Rightarrow> ms \<Rightarrow> host_error + string \<Rightarrow> bool \<Rightarrow> host_store \<Rightarrow>
     (host_error option \<times> bool) \<times> host_store" where
  "refresh_keys lib decode now fetched save_ok s =
    (case decode (ds_keyset (hs_data s)) of None \<Rightarrow> ((Some Err_authorization, False), s)
     | Some old \<Rightarrow>
       if parse_keyset lib old \<noteq> None then ((parse_keyset lib old, False), s)
       else case fetched of Inl e \<Rightarrow> ((Some e, False), s)
       | Inr raw \<Rightarrow>
         (case decode raw of None \<Rightarrow> ((Some Err_authorization, False), s)
          | Some next \<Rightarrow>
            if parse_keyset lib next \<noteq> None then ((parse_keyset lib next, False), s)
            else if verify_keyset lib old next now \<noteq> None then ((verify_keyset lib old next now, False), s)
            else
              (let changed = (ks_restore next \<noteq> ks_restore old);
                   (e, s) = update_store save_ok (refresh_keyset raw changed) s
               in ((e, changed), s))))"

section \<open>The chain of trust\<close>

text \<open>The specification: a keyset body is trusted at a time if it is the pinned one, or follows
  from a trusted one by a rotation that the active key of the latter signed for the next
  version, while both active keys were valid.\<close>

inductive trusted :: "jws_lib \<Rightarrow> keyset \<Rightarrow> ms \<Rightarrow> keyset_body \<Rightarrow> ms option \<Rightarrow> bool"
  for lib old now where
  pinned: "trusted lib old now (ks_body old) None"
| signed: "trusted lib old now b before \<Longrightarrow> active_key b = Some key \<Longrightarrow>
    jl_rotation lib compact (sk_jwk key) = Some r \<Longrightarrow> ro_instance r = ks_instance old \<Longrightarrow>
    ro_from r = kb_version b \<Longrightarrow> kb_version (ro_body r) = kb_version b + 1 \<Longrightarrow>
    (case before of None \<Rightarrow> True | Some t \<Rightarrow> t \<le> ro_issued r) \<Longrightarrow> ro_issued r \<le> now + 60 * 1000 \<Longrightarrow>
    sk_not_before key \<le> ro_issued r \<Longrightarrow> ro_issued r < sk_not_after key \<Longrightarrow>
    active_key (ro_body r) = Some a \<Longrightarrow> sk_kid a \<noteq> sk_kid key \<Longrightarrow>
    sk_not_before a \<le> ro_issued r \<Longrightarrow> ro_issued r < sk_not_after a \<Longrightarrow>
    trusted lib old now (ro_body r) (Some (ro_issued r))"

inductive_cases trusted_first: "trusted lib old now b None"

lemma active_key_kid: "active_key b = Some k \<Longrightarrow> sk_kid k = kb_active b \<and> k \<in> set (kb_keys b)"
  by (auto simp: active_key_def find_Some_iff)

lemma rotate_trusted:
  assumes "trusted lib old now b before" "rotate lib old now p b before = Some (b', t)"
  shows "trusted lib old now b' (Some t) \<and> kb_version b' = kb_version b + 1"
proof -
  obtain key where key: "active_key b = Some key" using assms(2) by (auto simp: rotate_def split: option.splits)
  obtain r where r: "jl_rotation lib p (sk_jwk key) = Some r" "b' = ro_body r" "t = ro_issued r"
    using assms(2) key by (auto simp: rotate_def split: option.splits if_splits)
  obtain a where a: "active_key (ro_body r) = Some a"
    using assms(2) key r by (auto simp: rotate_def split: option.splits if_splits)
  have "sk_kid a \<noteq> sk_kid key"
    using assms(2) key r a active_key_kid[OF key] active_key_kid[OF a]
    by (auto simp: rotate_def split: if_splits)
  then show ?thesis using assms key r a
    by (auto simp: rotate_def not_less split: if_splits option.splits intro!: signed[OF assms(1) key r(1)])
qed

lemma follow_trusted:
  "trusted lib old now b before \<Longrightarrow> follow lib old now ps b before = Some b' \<Longrightarrow>
     (\<exists>t. trusted lib old now b' t) \<and> kb_version b \<le> kb_version b' \<and>
     kb_version b' \<le> kb_version b + int (length ps) \<and> (kb_version b' = kb_version b \<longrightarrow> b' = b)"
proof (induction ps arbitrary: b before)
  case (Cons p ps)
  show ?case
  proof (cases "rotate lib old now p b before")
    case None
    then have "follow lib old now ps b before = Some b'" using Cons.prems(2) by (auto split: option.splits if_splits)
    then show ?thesis using Cons.IH[OF Cons.prems(1)] by force
  next
    case (Some x)
    obtain b1 t where x: "x = (b1, t)" by force
    note one = rotate_trusted[OF Cons.prems(1) Some[unfolded x]]
    have "follow lib old now ps b before = Some b' \<or> follow lib old now ps b1 (Some t) = Some b'"
      using Cons.prems(2) Some x by (auto split: option.splits if_splits)
    then show ?thesis
    proof
      assume "follow lib old now ps b before = Some b'"
      then show ?thesis using Cons.IH[OF Cons.prems(1)] by force
    next
      assume "follow lib old now ps b1 (Some t) = Some b'"
      then show ?thesis using Cons.IH[of b1 "Some t"] one by force
    qed
  qed
qed auto

text \<open>\<^bold>\<open>C7\<close> (server keys change only by signed rotation).  A keyset the host accepts in place of
  its stored one belongs to the same server instance, never goes back in version or restore
  epoch, and is reached by a chain of rotations each signed by the key active before it; with
  an unchanged version the keys are unchanged, and one refresh advances by at most the number
  of proofs it carries.  Its active key is one of its keys and valid now.\<close>

theorem accepted_keyset_trusted:
  assumes "verify_keyset lib old next now = None"
  shows "ks_instance next = ks_instance old \<and> ks_restore old \<le> ks_restore next \<and>
    (\<exists>t. trusted lib old now (ks_body next) t) \<and>
    kb_version (ks_body old) \<le> kb_version (ks_body next) \<and>
    kb_version (ks_body next) \<le> kb_version (ks_body old) + int (length (ks_proofs next)) \<and>
    (kb_version (ks_body next) = kb_version (ks_body old) \<longrightarrow> ks_body next = ks_body old) \<and>
    (\<exists>a \<in> set (kb_keys (ks_body next)). sk_kid a = kb_active (ks_body next) \<and>
       sk_not_before a \<le> now \<and> now < sk_not_after a)"
proof -
  have f: "follow lib old now (ks_proofs next) (ks_body old) None = Some (ks_body next)"
    using assms by (auto simp: verify_keyset_def split: option.splits if_splits)
  obtain a where a: "active_key (ks_body next) = Some a" "sk_not_before a \<le> now" "now < sk_not_after a"
    using assms by (auto simp: verify_keyset_def not_less not_le split: option.splits if_splits)
  have "ks_instance next = ks_instance old \<and> ks_restore old \<le> ks_restore next"
    using assms by (auto simp: verify_keyset_def split: if_splits)
  then show ?thesis using follow_trusted[OF pinned f] a active_key_kid[OF a(1)] by blast
qed

section \<open>Samples\<close>

definition sample_key :: "string \<Rightarrow> server_key" where
  "sample_key kid = \<lparr>sk_kid = kid, sk_alg = ''ES256'', sk_jwk = kid, sk_not_before = 0, sk_not_after = 1000\<rparr>"

definition sample_pinned :: keyset where
  "sample_pinned = \<lparr>ks_instance = ''i'', ks_restore = 1,
     ks_body = \<lparr>kb_version = 1, kb_active = ''a'', kb_keys = [sample_key ''a'']\<rparr>, ks_proofs = []\<rparr>"

definition sample_rotated :: keyset where
  "sample_rotated = \<lparr>ks_instance = ''i'', ks_restore = 1,
     ks_body = \<lparr>kb_version = 2, kb_active = ''b'', kb_keys = [sample_key ''a'', sample_key ''b'']\<rparr>,
     ks_proofs = [''r1'']\<rparr>"

definition sample_jws :: jws_lib where
  "sample_jws = \<lparr>jl_public_ok = (\<lambda>_. True), jl_thumbprint = (\<lambda>k. k), jl_hint = (\<lambda>_. Some 2),
     jl_kid = (\<lambda>_. Some ''a''),
     jl_rotation = (\<lambda>p k. if p = ''r1'' \<and> k = ''a''
       then Some \<lparr>ro_instance = ''i'', ro_from = 1, ro_to = 2, ro_kid = ''a'', ro_issued = 10,
                  ro_body = ks_body sample_rotated\<rparr> else None),
     jl_times = (\<lambda>_ _ _. None)\<rparr>"

theorem accepted_keyset_trusted_witness:
  "\<exists>t. trusted sample_jws sample_pinned 20 (ks_body sample_rotated) t"
proof -
  have "verify_keyset sample_jws sample_pinned sample_rotated 20 = None" by code_simp
  from accepted_keyset_trusted[OF this] show ?thesis by blast
qed

end
