(* ===== verification/Host_Session.thy ===== *)
theory Host_Session
  imports Host_Acks
begin

text \<open>
  One remote-desktop session of the host: the data of \<^verbatim>\<open>internal/remotehost/host.go\<close> and
  \<^verbatim>\<open>types.go\<close>, who may be approved without a click, which local grant a session uses, the
  authority checks on the server's ticket and lease, the peer messages with their replay
  window, the file table of \<^verbatim>\<open>files.go\<close>, the signalling checks of \<^verbatim>\<open>run.go\<close>, and how a
  stop is recorded (\<^verbatim>\<open>close_ack.go\<close>).

  Each function that runs under \<^verbatim>\<open>s.mu\<close> is one function on the state.  The identity of a
  \<^verbatim>\<open>runningSession\<close> pointer is its \<open>rn_token\<close>.  Decoded tokens, the clock, key
  thumbprints and the answers of the native engine and of the server are arguments.
\<close>

section \<open>Data\<close>

record host_session =
  hn_ref :: session_ref
  hn_display :: string
  hn_request :: string
  hn_id :: string
  hn_state :: string
  hn_version :: int
  hn_host :: string
  hn_controller :: string
  hn_permissions :: "string list"
  hn_ticket :: string
  hn_lease :: string
  hn_grant :: string
  hn_host_jwk :: string
  hn_controller_jwk :: string
  hn_seq :: int
  hn_approval_expires :: ms

record transcript =
  tr_domain :: string
  tr_instance :: string
  tr_pairing :: string
  tr_host :: string
  tr_controller :: string
  tr_invite :: string
  tr_host_owner :: string
  tr_controller_owner :: string
  tr_host_jkt :: string
  tr_controller_jkt :: string
  tr_controller_nonce :: string
  tr_scope :: "string list"
  tr_mode :: string
  tr_request :: string
  tr_expires :: ms

record authority =
  au_iss :: string
  au_aud :: string
  au_instance :: string
  au_restore :: int
  au_session :: string
  au_request :: string
  au_epoch :: int
  au_owner :: string
  au_host :: string
  au_controller :: string
  au_host_jkt :: string
  au_controller_jkt :: string
  au_permissions :: "string list"
  au_grant :: string
  au_grant_version :: int
  au_user_version :: int
  au_iat :: int
  au_nbf :: int
  au_exp :: int
  au_seq :: int
  au_jti :: string

record file_event =
  fe_event :: string
  fe_id :: string
  fe_name :: string
  fe_size :: nat
  fe_offset :: nat
  fe_outgoing :: bool
  fe_error :: string
  fe_may_be_saved :: bool

record queued_peer =
  qp_raw :: string
  qp_kind :: string
  qp_session :: string
  qp_epoch :: int
  qp_compact :: string

record running_session =
  rn_token :: nat
  rn_session :: host_session
  rn_nonce :: string
  rn_fingerprint :: string
  rn_grant :: local_grant
  rn_ticket_jti :: string
  rn_deadline :: "ms option"
  rn_last_renew :: ms
  rn_sequence :: nat
  rn_peer_max :: nat
  rn_peer_seen :: "nat list"
  rn_relay :: bool
  rn_queue :: "queued_peer list"
  rn_flushing :: bool
  rn_proofs :: "string list"
  rn_offer :: string
  rn_answer :: string
  rn_started :: bool
  rn_verified :: bool
  rn_files :: "(string \<times> file_event) list"
  rn_order :: "string list"
  rn_closing :: bool
  rn_stopped :: bool
  rn_superseded :: bool

section \<open>Scopes and approval\<close>

fun scopes_in :: "string list \<Rightarrow> string list \<Rightarrow> string list \<Rightarrow> string list option" where
  "scopes_in held [] seen = Some seen"
| "scopes_in held (x # xs) seen =
    (if x \<notin> set held \<or> x \<in> set seen then None else scopes_in held xs (x # seen))"

definition subset_scopes :: "string list \<Rightarrow> string list \<Rightarrow> bool" where
  "subset_scopes held want =
    (if want = [] then False
     else case scopes_in held want [] of None \<Rightarrow> False | Some seen \<Rightarrow> ''view'' \<in> set seen)"

definition same_scopes :: "string list \<Rightarrow> string list \<Rightarrow> bool" where
  "same_scopes a b = (length a = length b \<and> subset_scopes a b)"

definition can_auto_approve ::
    "ms \<Rightarrow> local_grant \<Rightarrow> host_session \<Rightarrow> bool \<Rightarrow> string \<Rightarrow> string \<Rightarrow> bool" where
  "can_auto_approve now g session unattended bound_id bound_jkt =
    (if lg_revoked g \<or> lg_expires g \<le> now \<or> \<not> subset_scopes (lg_permissions g) (hn_permissions session) \<or>
        lg_controller g \<noteq> hn_controller session then False
     else if lg_mode g = ''persistent''
     then unattended \<and> lg_invite g = [] \<and> bound_id \<noteq> [] \<and> lg_controller g = bound_id \<and>
          lg_jkt g = bound_jkt \<and> length bound_jkt = 43
     else lg_mode g = ''one_session'' \<and> lg_request g = hn_request session \<and>
          (lg_session g = [] \<or> lg_session g = rf_session (hn_ref session)))"

definition assist_scope :: "string list" where
  "assist_scope = [''view'', ''input.keyboard'', ''input.pointer'', ''input.text'', ''clipboard.read'',
     ''clipboard.write'', ''files.send'', ''files.receive'', ''audio.system'']"

definition can_auto_approve_assist :: "ms \<Rightarrow> transcript \<Rightarrow> ms \<Rightarrow> bool" where
  "can_auto_approve_assist invite_expires t now =
     (tr_invite t \<noteq> [] \<and> tr_mode t = ''one_session'' \<and> now < invite_expires \<and>
      subset_scopes assist_scope (tr_scope t))"

text \<open>The checks of \<^verbatim>\<open>loadPairing\<close> on the answer of the server; \<open>own_jkt\<close> is the thumbprint of
  the host's key and \<open>trusted_instance\<close> the instance of the stored keyset.\<close>

definition pairing_ok ::
    "ms \<Rightarrow> disk_state \<Rightarrow> string option \<Rightarrow> string \<Rightarrow> string \<Rightarrow> string \<Rightarrow> string \<Rightarrow> ms \<Rightarrow> transcript \<Rightarrow> bool" where
  "pairing_ok now d trusted_instance own_jkt i p_id p_state p_expires t =
    (case trusted_instance of None \<Rightarrow> False
     | Some inst \<Rightarrow>
       p_id = i \<and> p_state = ''pending'' \<and> now < p_expires \<and> tr_domain t = ''ht-rd-pairing-v1'' \<and>
       tr_instance t = inst \<and> tr_pairing t = i \<and> tr_host t = ds_endpoint d \<and> tr_host_jkt t = own_jkt \<and>
       tr_controller t \<noteq> ds_endpoint d \<and> length (tr_controller_jkt t) = 43 \<and>
       length (tr_controller_nonce t) = 43 \<and> tr_expires t = p_expires \<and>
       (tr_mode t = ''one_session'' \<or> tr_mode t = ''persistent'') \<and>
       (tr_invite t = [] \<longrightarrow> tr_host_owner t = [] \<and> tr_controller_owner t = []) \<and>
       (tr_invite t \<noteq> [] \<longrightarrow> tr_host_owner t = ds_owner d \<and> tr_controller_owner t \<noteq> [] \<and>
          tr_controller_owner t \<noteq> ds_owner d \<and> tr_mode t = ''one_session''))"

text \<open>\<^verbatim>\<open>grantFor\<close>: \<open>claim\<close> is the identifier and version that the host's own signed grant
  carries, if its signature verifies.\<close>

definition grant_for ::
    "ms \<Rightarrow> disk_state \<Rightarrow> (string \<times> int) option \<Rightarrow> host_session \<Rightarrow> local_grant option" where
  "grant_for now d claim session =
    (case claim of None \<Rightarrow> None
     | Some (i, version) \<Rightarrow>
       (case map_of (ds_grants d) i of None \<Rightarrow> None
        | Some g \<Rightarrow>
          if lg_revoked g \<or> lg_version g \<noteq> version \<or> lg_jws g \<noteq> hn_grant session \<or> lg_expires g \<le> now \<or>
             lg_controller g \<noteq> hn_controller session \<or>
             \<not> subset_scopes (lg_permissions g) (hn_permissions session) \<or>
             (lg_mode g = ''persistent'' \<and> \<not> ds_unattended d) \<or>
             (lg_mode g = ''one_session'' \<and> (lg_request g \<noteq> hn_request session \<or>
                (lg_session g \<noteq> [] \<and> lg_session g \<noteq> rf_session (hn_ref session))))
          then None else Some g))"

section \<open>Authority\<close>

text \<open>One token of the pair (ticket, lease); \<open>typ_ticket\<close> tells which.\<close>

definition token_ok ::
    "ms \<Rightarrow> string \<Rightarrow> string \<Rightarrow> int \<Rightarrow> disk_state \<Rightarrow> string \<Rightarrow> string \<Rightarrow> running_session \<Rightarrow> bool \<Rightarrow> authority \<Rightarrow> bool" where
  "token_ok now origin inst restore_epoch d host_jkt controller_jkt r typ_ticket a =
    (let s = rn_session r; g = rn_grant r; sec = now div 1000
     in au_iss a = origin \<and> au_aud a = (if typ_ticket then ''ht-rd-start'' else ''ht-rd-use'') \<and>
        au_instance a = inst \<and> au_restore a = restore_epoch \<and> au_session a = rf_session (hn_ref s) \<and>
        au_request a = hn_request s \<and> au_epoch a = rf_epoch (hn_ref s) \<and> au_owner a = ds_owner d \<and>
        au_host a = ds_endpoint d \<and> au_controller a = lg_controller g \<and> au_host_jkt a = host_jkt \<and>
        au_controller_jkt a = controller_jkt \<and> au_grant a = lg_id g \<and> au_grant_version a = lg_version g \<and>
        same_scopes (au_permissions a) (hn_permissions s) \<and>
        subset_scopes (lg_permissions g) (au_permissions a) \<and>
        au_iat a \<le> sec + 60 \<and> au_nbf a \<le> sec + 60 \<and> (sec < au_exp a \<or> (typ_ticket \<and> rn_started r)) \<and>
        au_exp a - au_iat a \<le> 900 \<and> au_iat a < au_exp a \<and> au_jti a \<noteq> [] \<and>
        (lg_mode g = ''one_session'' \<longrightarrow> au_request a = lg_request g))"

text \<open>\<^verbatim>\<open>checkAuthority\<close>: \<open>ticket\<close> and \<open>lease\<close> are the decoded tokens if the server's signature
  verifies, the thumbprints those of the keys in the session.  On success the session carries
  the ticket's identifier and the lease's end.\<close>

definition check_authority ::
    "ms \<Rightarrow> string \<Rightarrow> string \<Rightarrow> (string \<times> int) option \<Rightarrow> string option \<Rightarrow> string option \<Rightarrow>
     authority option \<Rightarrow> authority option \<Rightarrow> disk_state \<Rightarrow> running_session \<Rightarrow> running_session option" where
  "check_authority now origin own_jkt keys controller_jkt host_jkt ticket lease d r =
    (case map_of (ds_grants d) (lg_id (rn_grant r)) of None \<Rightarrow> None
     | Some g \<Rightarrow>
       if \<not> ds_enabled d \<or> lg_revoked g \<or> lg_version g \<noteq> lg_version (rn_grant r) \<or>
          lg_jws g \<noteq> lg_jws (rn_grant r) \<or> lg_expires g \<le> now \<or>
          (lg_mode g = ''persistent'' \<and> \<not> ds_unattended d) then None
       else case (keys, controller_jkt, host_jkt, ticket, lease) of
         (Some (inst, restore_epoch), Some cj, Some hj, Some t, Some l) \<Rightarrow>
           if cj \<noteq> lg_jkt (rn_grant r) \<or> hj \<noteq> own_jkt \<or>
              \<not> token_ok now origin inst restore_epoch d hj cj r True t \<or>
              \<not> token_ok now origin inst restore_epoch d hj cj r False l \<or>
              au_exp t - au_iat t > 60 \<or> au_seq l \<noteq> hn_seq (rn_session r) \<or> au_seq l < 1 \<or>
              au_user_version t < 0 \<or> au_user_version t \<noteq> au_user_version l
           then None
           else Some (r\<lparr>rn_ticket_jti := au_jti t, rn_deadline := Some (au_exp l * 1000), rn_last_renew := now\<rparr>)
       | _ \<Rightarrow> None)"

section \<open>Peer messages\<close>

record peer_inner =
  pi_v :: int
  pi_type :: string
  pi_session :: string
  pi_epoch :: int
  pi_from :: string
  pi_to :: string
  pi_seq :: string
  pi_ticket :: string
  pi_created :: ms

text \<open>\<^verbatim>\<open>strconv.ParseUint\<close> that must print back to the same text.\<close>

definition canonical_u64 :: "string \<Rightarrow> nat option" where
  "canonical_u64 t =
    (case parse_unsigned (2 ^ 64 - 1) t of None \<Rightarrow> None
     | Some n \<Rightarrow> if show_nat n = t then Some n else None)"

datatype peer_result = Peer_refused | Peer_queued | Peer_passed

definition peer_binding_ok ::
    "ms \<Rightarrow> running_session \<Rightarrow> string \<Rightarrow> string \<Rightarrow> int \<Rightarrow> peer_inner \<Rightarrow> bool" where
  "peer_binding_ok now r kind i epoch p =
    (canonical_u64 (pi_seq p) \<noteq> None \<and> pi_v p = 1 \<and> pi_type p = kind \<and> pi_session p = i \<and> pi_epoch p = epoch \<and>
     pi_from p = hn_controller (rn_session r) \<and> pi_to p = hn_host (rn_session r) \<and>
     pi_ticket p = rn_ticket_jti r \<and> now - pi_created p \<le> 60 * 1000 \<and> pi_created p - now \<le> 60 * 1000 \<and>
     (kind = ''peer.offer'' \<or> kind = ''peer.candidates'' \<or> kind = ''peer.candidates_done''))"

definition replayed :: "running_session \<Rightarrow> nat \<Rightarrow> bool" where
  "replayed r q = (q \<in> set (rn_peer_seen r) \<or> (q < rn_peer_max r \<and> rn_peer_max r - q \<ge> 32))"

text \<open>The second critical section: the replay window moves, old numbers are dropped from it.\<close>

definition admit_peer :: "string \<Rightarrow> string \<Rightarrow> nat \<Rightarrow> running_session \<Rightarrow> running_session option" where
  "admit_peer kind compact q r =
    (if rn_closing r \<or> replayed r q \<or> (kind = ''peer.offer'' \<and> rn_offer r \<noteq> []) then None
     else
       (let m = (if q > rn_peer_max r then q else rn_peer_max r)
        in Some (r\<lparr>rn_peer_max := m,
                   rn_peer_seen := filter (\<lambda>n. \<not> (n < m \<and> m - n \<ge> 32)) (q # rn_peer_seen r),
                   rn_offer := (if kind = ''peer.offer'' then compact else rn_offer r)\<rparr>)))"

text \<open>\<^verbatim>\<open>handlePeer\<close>: \<open>inner\<close> is the decoded message if the controller's signature verifies.\<close>

definition handle_peer ::
    "ms \<Rightarrow> peer_inner option \<Rightarrow> queued_peer \<Rightarrow> bool \<Rightarrow> running_session option \<Rightarrow>
     peer_result \<times> running_session option" where
  "handle_peer now inner m flushing active =
    (case active of None \<Rightarrow> (Peer_refused, None)
     | Some r \<Rightarrow>
       if rn_closing r \<or> rf_session (hn_ref (rn_session r)) \<noteq> qp_session m \<or>
          rf_epoch (hn_ref (rn_session r)) \<noteq> qp_epoch m then (Peer_refused, Some r)
       else if \<not> rn_started r \<or> (rn_flushing r \<and> \<not> flushing) then
         (if flushing \<or> length (qp_raw m) > 65536 \<or> length (rn_queue r) \<ge> 32 then (Peer_refused, Some r)
          else (Peer_queued, Some (r\<lparr>rn_queue := rn_queue r @ [m]\<rparr>)))
       else case inner of None \<Rightarrow> (Peer_refused, Some r)
         | Some p \<Rightarrow>
           if \<not> peer_binding_ok now r (qp_kind m) (qp_session m) (qp_epoch m) p then (Peer_refused, Some r)
           else case admit_peer (qp_kind m) (qp_compact m) (the (canonical_u64 (pi_seq p))) r of
             None \<Rightarrow> (Peer_refused, Some r)
           | Some r' \<Rightarrow> (Peer_passed, Some r'))"

lemma admit_peer_frame:
  "admit_peer kind compact q r = Some r' \<Longrightarrow> rn_queue r' = rn_queue r \<and> rn_closing r' = rn_closing r \<and>
     rn_started r' = rn_started r \<and> rn_session r' = rn_session r"
  by (auto simp: admit_peer_def Let_def split: if_splits)

lemma handle_peer_passed:
  "handle_peer now inner m flushing (Some r) = (Peer_passed, Some r') \<Longrightarrow> rn_queue r' = rn_queue r"
  by (auto simp: handle_peer_def split: if_splits option.splits dest: admit_peer_frame)

text \<open>\<^verbatim>\<open>flushPeer\<close>: the queued messages, oldest first; a refusal stops the loop.\<close>

function flush_peer ::
    "ms \<Rightarrow> (queued_peer \<Rightarrow> peer_inner option) \<Rightarrow> running_session \<Rightarrow> bool \<times> running_session" where
  "flush_peer now decode r =
    (if rn_closing r then (False, r)
     else case rn_queue r of [] \<Rightarrow> (True, r\<lparr>rn_flushing := False\<rparr>)
     | m # rest \<Rightarrow>
       (case handle_peer now (decode m) m True (Some (r\<lparr>rn_queue := rest\<rparr>)) of
          (Peer_passed, Some r') \<Rightarrow> flush_peer now decode r'
        | (_, Some r') \<Rightarrow> (False, r')
        | (_, None) \<Rightarrow> (False, r)))"
  by pat_completeness auto
termination
  by (relation "measure (\<lambda>(_, _, r). length (rn_queue r))") (auto dest!: handle_peer_passed[OF sym])

section \<open>Scopes as sets\<close>

lemma scopes_in_iff:
  "scopes_in held want seen = Some r \<longleftrightarrow>
     set want \<subseteq> set held \<and> distinct want \<and> set want \<inter> set seen = {} \<and> r = rev want @ seen"
  by (induction want arbitrary: seen) auto

lemma subset_scopes_iff:
  "subset_scopes held want \<longleftrightarrow> set want \<subseteq> set held \<and> distinct want \<and> ''view'' \<in> set want"
proof (cases "scopes_in held want []")
  case None
  then have "\<not> (set want \<subseteq> set held \<and> distinct want)"
    using scopes_in_iff[of held want "[]" "rev want"] by auto
  then show ?thesis using None by (auto simp: subset_scopes_def)
next
  case (Some seen)
  then show ?thesis using scopes_in_iff[of held want "[]" seen] by (auto simp: subset_scopes_def)
qed


section \<open>No peer message twice\<close>

text \<open>The sequence numbers a run of messages lets through to the engine.\<close>

fun peer_run ::
    "(ms \<times> peer_inner option \<times> queued_peer) list \<Rightarrow> running_session \<Rightarrow> nat list \<times> running_session" where
  "peer_run [] r = ([], r)"
| "peer_run ((now, inner, m) # ms) r =
    (case handle_peer now inner m False (Some r) of
       (Peer_passed, Some r') \<Rightarrow>
         (let (qs, r'') = peer_run ms r' in (the (canonical_u64 (pi_seq (the inner))) # qs, r''))
     | (_, Some r') \<Rightarrow> peer_run ms r'
     | (_, None) \<Rightarrow> peer_run ms r)"

text \<open>A number that was let through is in the window or behind it.\<close>

definition passed_before :: "nat set \<Rightarrow> running_session \<Rightarrow> bool" where
  "passed_before P r = (\<forall>q \<in> P. replayed r q)"

lemma admit_peer_window:
  assumes "admit_peer kind compact q r = Some r'"
  shows "\<not> replayed r q" "replayed r' q" "replayed r n \<Longrightarrow> replayed r' n"
  using assms by (auto simp: admit_peer_def replayed_def Let_def split: if_splits)

lemma handle_peer_outcome:
  "(\<exists>x r'. handle_peer now inner m flushing (Some r) = (x, Some r') \<and> x \<noteq> Peer_passed \<and>
      rn_peer_seen r' = rn_peer_seen r \<and> rn_peer_max r' = rn_peer_max r) \<or>
   (\<exists>p r'. handle_peer now inner m flushing (Some r) = (Peer_passed, Some r') \<and> inner = Some p \<and>
      admit_peer (qp_kind m) (qp_compact m) (the (canonical_u64 (pi_seq p))) r = Some r')"
proof (cases inner)
  case None then show ?thesis by (simp add: handle_peer_def)
next
  case (Some p)
  then show ?thesis
    by (cases "admit_peer (qp_kind m) (qp_compact m) (the (canonical_u64 (pi_seq p))) r")
      (simp_all add: handle_peer_def)
qed

lemma peer_run_distinct:
  "passed_before P r \<Longrightarrow> peer_run ms r = (qs, r') \<Longrightarrow> distinct qs \<and> set qs \<inter> P = {}"
proof (induction ms arbitrary: r P qs)
  case (Cons x ms)
  obtain now inner m where x: "x = (now, inner, m)" by (cases x)
  from handle_peer_outcome[of now inner m False r] show ?case
  proof (elim disjE exE conjE, goal_cases)
    case (1 y r1)
    have "passed_before P r1" using Cons.prems(1) 1 by (simp add: passed_before_def replayed_def)
    moreover have "peer_run ms r1 = (qs, r')" using Cons.prems(2) 1(1,2) x by (cases y) simp_all
    ultimately show ?case by (rule Cons.IH)
  next
    case (2 p r1)
    let ?q = "the (canonical_u64 (pi_seq p))"
    obtain qs1 where run: "peer_run ms r1 = (qs1, r')" "qs = ?q # qs1"
      using Cons.prems(2) 2(1,2) x by (auto split: prod.splits)
    note w = admit_peer_window[OF 2(3)]
    have "passed_before (insert ?q P) r1" using Cons.prems(1) w by (simp add: passed_before_def)
    from Cons.IH[OF this run(1)] show ?case using run(2) Cons.prems(1) w(1) by (auto simp: passed_before_def)
  qed
qed simp


end
