(* ===== verification/Host_Files.thy ===== *)
theory Host_Files
  imports Host_Session
begin

text \<open>
  Files and signalling of a remote-desktop session: the table of file transfers and the local
  selections of \<^verbatim>\<open>internal/remotehost/files.go\<close>, and the checks on outgoing signals and
  candidates of \<^verbatim>\<open>run.go\<close>.  The disk state, the clock and whether the host is disabled are
  arguments; decoded JSON, IP parsing and case folding are parameters.
\<close>

section \<open>Names\<close>

definition lower_hex :: "char \<Rightarrow> bool" where
  "lower_hex c = (is_ascii_digit c \<or> c \<in> set ''abcdef'')"

text \<open>The regular expression of a file identifier: five groups of lower-case hexadecimal digits
  with a version and a variant digit.\<close>

definition file_uuid :: "string \<Rightarrow> bool" where
  "file_uuid i =
    (case splitp (\<lambda>c. c = CHR ''-'') i of
       [a, b, c, d, e] \<Rightarrow>
         map length [a, b, c, d, e] = [8, 4, 4, 4, 12] \<and> list_all lower_hex (a @ b @ c @ d @ e) \<and>
         hd c \<in> set ''12345678'' \<and> hd d \<in> set ''89ab''
     | _ \<Rightarrow> False)"

definition cont :: "nat \<Rightarrow> bool" where "cont b = (0x80 \<le> b \<and> b \<le> 0xBF)"

text \<open>The length in UTF-16 units of a valid UTF-8 text, \<^term>\<open>None\<close> for an invalid one.\<close>

fun utf16_length :: "nat list \<Rightarrow> nat option" where
  "utf16_length [] = Some 0"
| "utf16_length (a # bs) =
    (if a < 0x80 then map_option Suc (utf16_length bs)
     else case bs of [] \<Rightarrow> None
     | b # cs \<Rightarrow>
       if 0xC2 \<le> a \<and> a \<le> 0xDF then (if cont b then map_option Suc (utf16_length cs) else None)
       else case cs of [] \<Rightarrow> None
       | c # ds \<Rightarrow>
         if 0xE0 \<le> a \<and> a \<le> 0xEF then
           (if cont b \<and> cont c \<and> (a = 0xE0 \<longrightarrow> 0xA0 \<le> b) \<and> (a = 0xED \<longrightarrow> b \<le> 0x9F)
            then map_option Suc (utf16_length ds) else None)
         else case ds of [] \<Rightarrow> None
         | d # es \<Rightarrow>
           if 0xF0 \<le> a \<and> a \<le> 0xF4 \<and> cont b \<and> cont c \<and> cont d \<and> (a = 0xF0 \<longrightarrow> 0x90 \<le> b) \<and>
              (a = 0xF4 \<longrightarrow> b \<le> 0x8F)
           then map_option (\<lambda>n. n + 2) (utf16_length es) else None)"

definition file_name_ok :: "string \<Rightarrow> bool" where
  "file_name_ok n =
    (length n \<le> 1020 \<and> (case utf16_length (map byte n) of None \<Rightarrow> False | Some k \<Rightarrow> k \<le> 255) \<and>
     \<not> list_ex (\<lambda>c. c \<in> {CHR 0x5C, CHR ''/'', CHR 0x00, CHR 0x0D, CHR 0x0A}) n)"

definition error_code_ok :: "string \<Rightarrow> bool" where
  "error_code_ok c =
    (starts_with c ''RD_'' \<and> length c \<le> 80 \<and>
     list_all (\<lambda>x. x = CHR ''_'' \<or> is_ascii_digit x \<or> (65 \<le> byte x \<and> byte x \<le> 90)) c)"

definition file_events :: "string list" where
  "file_events = [''offer'', ''progress'', ''complete'', ''cancelled'', ''error'']"

definition finished_events :: "string list" where
  "finished_events = [''complete'', ''cancelled'', ''error'']"

section \<open>Sessions that may use files\<close>

record file_host =
  fh_now :: ms
  fh_disabled :: bool
  fh_disk :: disk_state
  fh_active :: "running_session option"

definition file_session :: "file_host \<Rightarrow> session_ref \<Rightarrow> string \<Rightarrow> running_session option" where
  "file_session h ref permission =
    (case fh_active h of None \<Rightarrow> None
     | Some r \<Rightarrow>
       if rn_closing r \<or> \<not> rn_started r \<or> \<not> rn_verified r \<or> fh_disabled h \<or> hn_ref (rn_session r) \<noteq> ref \<or>
          (case rn_deadline r of None \<Rightarrow> True | Some t \<Rightarrow> t \<le> fh_now h) then None
       else case map_of (ds_grants (fh_disk h)) (lg_id (rn_grant r)) of None \<Rightarrow> None
       | Some g \<Rightarrow>
         if \<not> ds_enabled (fh_disk h) \<or> lg_revoked g \<or> lg_version g \<noteq> lg_version (rn_grant r) \<or>
            lg_expires g \<le> fh_now h then None
         else if permission \<noteq> [] \<and> (permission \<notin> set (lg_permissions g) \<or>
                permission \<notin> set (hn_permissions (rn_session r))) then None
         else Some r)"

record file_state =
  fs_ref :: session_ref
  fs_can_send :: bool
  fs_can_receive :: bool
  fs_items :: "file_event list"

definition no_files :: file_state where
  "no_files = \<lparr>fs_ref = \<lparr>rf_session = [], rf_epoch = 0\<rparr>, fs_can_send = False, fs_can_receive = False, fs_items = []\<rparr>"

definition current_file_state :: "bool \<Rightarrow> file_host \<Rightarrow> file_state" where
  "current_file_state engine_has_files h =
    (if \<not> engine_has_files then no_files
     else case fh_active h of None \<Rightarrow> no_files
     | Some a \<Rightarrow>
       (case file_session h (hn_ref (rn_session a)) [] of None \<Rightarrow> no_files
        | Some r \<Rightarrow>
          \<lparr>fs_ref = hn_ref (rn_session r),
           fs_can_send = (''files.receive'' \<in> set (hn_permissions (rn_session r))),
           fs_can_receive = (''files.send'' \<in> set (hn_permissions (rn_session r))),
           fs_items = List.map_filter (map_of (rn_files r)) (rn_order r)\<rparr>))"

section \<open>File events\<close>

text \<open>Making room: the oldest finished entry goes.\<close>

fun drop_finished ::
    "(string \<times> file_event) list \<Rightarrow> string list \<Rightarrow> ((string \<times> file_event) list \<times> string list) option" where
  "drop_finished files [] = None"
| "drop_finished files (i # rest) =
    (if (case map_of files i of None \<Rightarrow> False | Some f \<Rightarrow> fe_event f \<in> set finished_events)
     then Some (AList.delete i files, rest)
     else map_option (\<lambda>(fs, order). (fs, i # order)) (drop_finished files rest))"

definition record_file :: "file_event \<Rightarrow> running_session \<Rightarrow> host_error + running_session" where
  "record_file ev r =
    (case map_of (rn_files r) (fe_id ev) of
       Some old \<Rightarrow>
         if fe_outgoing old \<noteq> fe_outgoing ev \<or> (fe_name old \<noteq> fe_name ev \<and> fe_event ev \<noteq> ''complete'') \<or>
            fe_size old \<noteq> fe_size ev \<or> (fe_offset old > fe_offset ev \<and> fe_event ev = ''progress'')
         then Inl Err_authorization
         else Inr (r\<lparr>rn_files := AList.update (fe_id ev) ev (rn_files r)\<rparr>)
     | None \<Rightarrow>
       (case (if length (rn_files r) \<ge> 128 then drop_finished (rn_files r) (rn_order r)
              else Some (rn_files r, rn_order r)) of
          None \<Rightarrow> Inl (Err_text ''RD_FILE_LIMIT'')
        | Some (files, order) \<Rightarrow>
          Inr (r\<lparr>rn_files := AList.update (fe_id ev) ev files, rn_order := order @ [fe_id ev]\<rparr>)))"

definition file_event_ok :: "file_event \<Rightarrow> bool" where
  "file_event_ok ev =
    (file_uuid (fe_id ev) \<and> fe_size ev \<le> 8 * 2 ^ 30 \<and> fe_offset ev \<le> fe_size ev \<and> file_name_ok (fe_name ev) \<and>
     fe_event ev \<in> set file_events \<and> (fe_error ev \<noteq> [] \<longrightarrow> error_code_ok (fe_error ev)))"

definition handle_file_event ::
    "string \<Rightarrow> file_host \<Rightarrow> session_ref \<Rightarrow> file_event \<Rightarrow> host_error + running_session" where
  "handle_file_event fresh h ref ev0 =
    (let ev = (if fe_id ev0 = [] \<and> fe_event ev0 = ''error'' \<and> fe_name ev0 = [] \<and> fe_size ev0 = 0 \<and>
                  fe_offset ev0 = 0 \<and> fe_error ev0 \<noteq> [] \<and> \<not> fe_may_be_saved ev0
               then ev0\<lparr>fe_id := fresh\<rparr> else ev0)
     in if \<not> file_event_ok ev then Inl Err_authorization
        else case file_session h ref (if fe_outgoing ev then ''files.receive'' else ''files.send'') of
          None \<Rightarrow> Inl Err_authorization
        | Some r \<Rightarrow> record_file ev r)"

section \<open>Local selections\<close>

text \<open>A selection takes time: the host is checked before and again when the engine is called.\<close>

datatype file_call =
    Offer_files session_ref "string list"
  | Accept_file session_ref string string
  | Cancel_file session_ref string

definition absolute_path :: "(string \<Rightarrow> bool) \<Rightarrow> string \<Rightarrow> bool" where
  "absolute_path is_abs p = (is_abs p \<and> CHR 0x00 \<notin> set p)"

definition select_files ::
    "(string \<Rightarrow> bool) \<Rightarrow> file_host \<Rightarrow> host_error + string list \<Rightarrow> file_host \<Rightarrow> session_ref \<Rightarrow> host_error + file_call" where
  "select_files is_abs h1 chosen h2 ref =
    (if file_session h1 ref ''files.receive'' = None then Inl Err_authorization
     else case chosen of Inl e \<Rightarrow> Inl e
     | Inr paths \<Rightarrow>
       if length paths < 1 \<or> length paths > 64 then Inl (Err_text ''RD_FILE_LIMIT'')
       else if \<not> list_all (absolute_path is_abs) paths then Inl (Err_text ''RD_FILE_PATH_INVALID'')
       else if file_session h2 ref ''files.receive'' = None then Inl Err_authorization
       else Inr (Offer_files ref paths))"

definition offered :: "running_session \<Rightarrow> string \<Rightarrow> bool" where
  "offered r i =
    (case map_of (rn_files r) i of None \<Rightarrow> False
     | Some f \<Rightarrow> fe_id f \<noteq> [] \<and> \<not> fe_outgoing f \<and> fe_event f = ''offer'')"

definition select_destination ::
    "(string \<Rightarrow> bool) \<Rightarrow> file_host \<Rightarrow> host_error + string \<Rightarrow> file_host \<Rightarrow> session_ref \<Rightarrow> string \<Rightarrow> host_error + file_call" where
  "select_destination is_abs h1 chosen h2 ref i =
    (case file_session h1 ref ''files.send'' of None \<Rightarrow> Inl Err_authorization
     | Some r \<Rightarrow>
       if \<not> offered r i then Inl Err_authorization
       else case chosen of Inl e \<Rightarrow> Inl e
       | Inr path \<Rightarrow>
         if \<not> absolute_path is_abs path then Inl (Err_text ''RD_FILE_PATH_INVALID'')
         else case file_session h2 ref ''files.send'' of None \<Rightarrow> Inl Err_authorization
         | Some r \<Rightarrow> if offered r i then Inr (Accept_file ref i path) else Inl Err_authorization)"

definition cancel_file :: "file_host \<Rightarrow> file_host \<Rightarrow> session_ref \<Rightarrow> string \<Rightarrow> host_error + file_call" where
  "cancel_file h1 h2 ref i =
    (if \<not> file_uuid i then Inl Err_authorization
     else if file_session h1 ref [] = None \<or> file_session h2 ref [] = None then Inl Err_authorization
     else Inr (Cancel_file ref i))"

section \<open>Candidates and signals\<close>

record ip_kind =
  ip_loopback :: bool
  ip_unspecified :: bool
  ip_multicast :: bool
  ip_link_local :: bool

record signal_lib =
  sg_ip :: "string \<Rightarrow> ip_kind option"
  sg_atoi :: "string \<Rightarrow> int option"
  sg_fold_eq :: "string \<Rightarrow> string \<Rightarrow> bool"
  sg_lower :: "string \<Rightarrow> string"

definition string_fields :: "string \<Rightarrow> string list" where
  "string_fields s = nonempty_pieces is_whitespace s"

definition plain_ip :: "ip_kind \<Rightarrow> bool" where
  "plain_ip k = (\<not> ip_loopback k \<and> \<not> ip_unspecified k \<and> \<not> ip_multicast k \<and> \<not> ip_link_local k)"

definition port_text :: "signal_lib \<Rightarrow> string \<Rightarrow> bool" where
  "port_text lib p = (case sg_atoi lib p of None \<Rightarrow> False | Some n \<Rightarrow> 1 \<le> n \<and> n \<le> 65535)"

definition local_name :: "signal_lib \<Rightarrow> string \<Rightarrow> bool" where
  "local_name lib host =
    (let n = sg_lower lib host; label = take (length n - 6) n
     in ends_with n ''.local'' \<and> 1 \<le> length label \<and> length label \<le> 63 \<and>
        list_all (\<lambda>c. (97 \<le> byte c \<and> byte c \<le> 122) \<or> is_ascii_digit c \<or> c = CHR ''-'') label)"

definition direct_candidate :: "signal_lib \<Rightarrow> string \<Rightarrow> bool" where
  "direct_candidate lib candidate =
    (if candidate = [] then True
     else
       (let ps = string_fields candidate
        in if length ps < 8 \<or> \<not> starts_with (ps ! 0) ''candidate:'' \<or> \<not> eq_ignore_ascii_case (ps ! 2) ''udp'' \<or>
              ps ! 6 \<noteq> ''typ'' \<or> ps ! 7 \<notin> {''host'', ''srflx'', ''prflx''} then False
           else if \<not> port_text lib (ps ! 5) then False
           else case sg_ip lib (ps ! 4) of
             Some k \<Rightarrow> plain_ip k \<and> ps ! 4 \<noteq> ''255.255.255.255''
           | None \<Rightarrow> local_name lib (ps ! 4)))"

definition peer_candidate :: "signal_lib \<Rightarrow> bool \<Rightarrow> string \<Rightarrow> bool" where
  "peer_candidate lib relay candidate =
    (let ps = string_fields candidate
     in if relay \<and> length ps \<ge> 8 \<and> ps ! 7 = ''relay'' \<and> ps ! 6 = ''typ'' \<and>
           eq_ignore_ascii_case (ps ! 2) ''udp'' \<and> starts_with (ps ! 0) ''candidate:''
        then ''tcptype'' \<notin> set (drop 8 ps) \<and> port_text lib (ps ! 5) \<and>
             (case sg_ip lib (ps ! 4) of None \<Rightarrow> False | Some k \<Rightarrow> plain_ip k)
        else direct_candidate lib candidate)"

datatype signal_payload =
    Candidates_done
  | Answer string string
  | Candidates "string list"

text \<open>One line of a session description: \<^term>\<open>None\<close> when it is refused, otherwise whether it is
  the expected fingerprint.\<close>

definition sdp_line :: "signal_lib \<Rightarrow> bool \<Rightarrow> string \<Rightarrow> string \<Rightarrow> bool option" where
  "sdp_line lib relay fingerprint l =
    (if starts_with l ''a=candidate:'' \<and> \<not> peer_candidate lib relay (drop 2 l) then None
     else if starts_with l ''m='' \<and>
       (let ps = string_fields l
        in length ps < 3 \<or> ps ! 2 \<notin> {''UDP/TLS/RTP/SAVPF'', ''UDP/DTLS/SCTP''}) then None
     else if starts_with l ''a=fingerprint:'' then
       (let ps = string_fields (drop 14 l); bare = filter (\<lambda>c. c \<noteq> CHR '':'')
        in if length ps \<noteq> 2 \<or> \<not> sg_fold_eq lib (ps ! 0) ''sha-256'' \<or>
              \<not> sg_fold_eq lib (bare (ps ! 1)) (bare fingerprint) then None else Some True)
     else Some False)"

fun sdp_lines :: "signal_lib \<Rightarrow> bool \<Rightarrow> string \<Rightarrow> string list \<Rightarrow> bool \<Rightarrow> bool" where
  "sdp_lines lib relay fp [] found = found"
| "sdp_lines lib relay fp (l # ls) found =
    (case sdp_line lib relay fp l of None \<Rightarrow> False | Some b \<Rightarrow> sdp_lines lib relay fp ls (found \<or> b))"

text \<open>\<^verbatim>\<open>strings.ReplaceAll(sdp, "\r\n", "\n")\<close>.\<close>

fun unix_lines :: "string \<Rightarrow> string" where
  "unix_lines (a # b # rest) =
    (if a = CHR 0x0D \<and> b = CHR 0x0A then CHR 0x0A # unix_lines rest else a # unix_lines (b # rest))"
| "unix_lines s = s"

definition validate_signal ::
    "signal_lib \<Rightarrow> nat \<Rightarrow> signal_payload option \<Rightarrow> string \<Rightarrow> bool \<Rightarrow> bool" where
  "validate_signal lib bytes payload fingerprint relay =
    (bytes \<le> 32768 \<and>
     (case payload of None \<Rightarrow> False
      | Some Candidates_done \<Rightarrow> True
      | Some (Answer typ sdp) \<Rightarrow>
        typ = ''answer'' \<and> length sdp \<le> 24576 \<and> CHR 0x00 \<notin> set sdp \<and>
        sdp_lines lib relay fingerprint (splitp (\<lambda>c. c = CHR 0x0A) (unix_lines sdp)) False
      | Some (Candidates cs) \<Rightarrow>
        length cs \<le> 32 \<and> list_all (\<lambda>c. length c \<le> 1024 \<and> peer_candidate lib relay c) cs))"

section \<open>The file table\<close>

definition file_step ::
    "string \<times> file_host \<times> session_ref \<times> file_event \<Rightarrow> running_session \<Rightarrow> running_session" where
  "file_step x r =
    (case x of (fresh, h, ref, ev) \<Rightarrow>
       (case handle_file_event fresh (h\<lparr>fh_active := Some r\<rparr>) ref ev of Inl _ \<Rightarrow> r | Inr r' \<Rightarrow> r'))"

definition file_run ::
    "(string \<times> file_host \<times> session_ref \<times> file_event) list \<Rightarrow> running_session \<Rightarrow> running_session" where
  "file_run xs r = fold file_step xs r"

text \<open>Every entry stands under its own identifier and is well-formed; the order lists exactly the
  entries, each once; there are at most 128.\<close>

definition files_ok :: "(string \<times> file_event) list \<Rightarrow> string list \<Rightarrow> bool" where
  "files_ok files order =
    (distinct (map fst files) \<and> distinct order \<and> set order = fst ` set files \<and> length files \<le> 128 \<and>
     (\<forall>(k, f) \<in> set files. fe_id f = k \<and> file_event_ok f))"

lemma length_update_new:
  "k \<notin> fst ` set xs \<Longrightarrow> length (AList.update k v xs) = Suc (length xs)"
  by (induction xs) auto

lemma length_update_old:
  "k \<in> fst ` set xs \<Longrightarrow> length (AList.update k v xs) = length xs"
  by (induction xs) auto

lemma set_update_fst: "fst ` set (AList.update k v xs) = insert k (fst ` set xs)"
  by (induction xs) auto

lemma in_update: "x \<in> set (AList.update k v xs) \<Longrightarrow> x = (k, v) \<or> x \<in> set xs"
  by (induction xs) (auto split: if_splits)

lemma files_ok_update:
  assumes "files_ok files order" "file_event_ok ev"
    "fe_id ev \<in> set order \<or> length files < 128"
  shows "files_ok (AList.update (fe_id ev) ev files) (if fe_id ev \<in> set order then order else order @ [fe_id ev])"
proof (cases "fe_id ev \<in> set order")
  case True
  then show ?thesis using assms
    by (auto simp: files_ok_def distinct_update set_update_fst length_update_old insert_absorb dest!: in_update)
next
  case False
  then show ?thesis using assms
    by (auto simp: files_ok_def distinct_update set_update_fst length_update_new dest!: in_update)
qed

lemma files_ok_delete:
  assumes "files_ok files (pre @ i # post)"
  shows "files_ok (AList.delete i files) (pre @ post) \<and> length (AList.delete i files) < length files"
proof -
  have keys: "fst ` set (AList.delete i files) = fst ` set files - {i}" by (auto simp: AList.delete_eq)
  have "i \<in> fst ` set files" using assms by (auto simp: files_ok_def)
  then obtain f where "(i, f) \<in> set files" by auto
  then have less: "length (AList.delete i files) < length files"
    by (auto simp: AList.delete_eq intro!: length_filter_less)
  have sub: "set (AList.delete i files) \<subseteq> set files" by (auto simp: AList.delete_eq)
  have "distinct (pre @ post)" "set (pre @ post) = fst ` set files - {i}" using assms by (auto simp: files_ok_def)
  moreover have "distinct (map fst (AList.delete i files))"
    using assms distinct_delete[of files i] by (simp add: files_ok_def)
  ultimately show ?thesis using assms keys less sub by (auto simp: files_ok_def)
qed

lemma drop_finished_spec:
  "drop_finished files order = Some (files', order') \<Longrightarrow>
     \<exists>pre i post. order = pre @ i # post \<and> files' = AList.delete i files \<and> order' = pre @ post"
proof (induction order arbitrary: files' order')
  case (Cons j order)
  show ?case
  proof (cases "case map_of files j of None \<Rightarrow> False | Some f \<Rightarrow> fe_event f \<in> set finished_events")
    case True
    then have "files' = AList.delete j files" "order' = order" using Cons.prems by auto
    then have "j # order = [] @ j # order \<and> files' = AList.delete j files \<and> order' = [] @ order" by simp
    then show ?thesis by blast
  next
    case False
    then obtain o1 where "drop_finished files order = Some (files', o1)" "order' = j # o1"
      using Cons.prems by auto
    then show ?thesis using Cons.IH by (metis append_Cons)
  qed
qed simp

lemma files_ok_keys: "files_ok files order \<Longrightarrow> set order = fst ` set files"
  by (simp add: files_ok_def)

lemma record_file_ok:
  assumes ok: "files_ok (rn_files r) (rn_order r)" and ev: "file_event_ok ev" and rec: "record_file ev r = Inr r'"
  shows "files_ok (rn_files r') (rn_order r')"
proof (cases "map_of (rn_files r) (fe_id ev)")
  case (Some old)
  have "fe_id ev \<in> fst ` set (rn_files r)" using map_of_SomeD[OF Some] by (rule rev_image_eqI) simp
  then have "fe_id ev \<in> set (rn_order r)" using files_ok_keys[OF ok] by simp
  moreover have "r' = r\<lparr>rn_files := AList.update (fe_id ev) ev (rn_files r)\<rparr>"
    using rec Some by (simp add: record_file_def split: if_splits)
  ultimately show ?thesis using files_ok_update[OF ok ev] by simp
next
  case None
  then have new: "fe_id ev \<notin> set (rn_order r)" using files_ok_keys[OF ok] by (simp add: map_of_eq_None_iff)
  obtain files order where fo: "(if length (rn_files r) \<ge> 128 then drop_finished (rn_files r) (rn_order r)
      else Some (rn_files r, rn_order r)) = Some (files, order)"
    and r': "rn_files r' = AList.update (fe_id ev) ev files" "rn_order r' = order @ [fe_id ev]"
    using rec None by (auto simp: record_file_def split: option.split_asm prod.split_asm)
  have "files_ok files order \<and> length files < 128 \<and> set order \<subseteq> set (rn_order r)"
  proof (cases "length (rn_files r) \<ge> 128")
    case True
    then obtain pre i post where "rn_order r = pre @ i # post" "files = AList.delete i (rn_files r)" "order = pre @ post"
      using fo drop_finished_spec[of "rn_files r" "rn_order r" files order] by auto
    moreover from this have "files_ok (AList.delete i (rn_files r)) (pre @ post) \<and>
        length (AList.delete i (rn_files r)) < length (rn_files r)"
      using files_ok_delete[of "rn_files r" pre i post] ok by simp
    moreover have "length (rn_files r) \<le> 128" using ok by (simp add: files_ok_def)
    ultimately show ?thesis by auto
  next
    case False then show ?thesis using fo ok by simp
  qed
  then have "files_ok files order" "length files < 128" "fe_id ev \<notin> set order" using new by blast+
  then show ?thesis using files_ok_update[of files order ev] ev r' by simp
qed

lemma file_session_active: "file_session h ref p = Some r \<Longrightarrow> fh_active h = Some r"
  by (auto simp: file_session_def split: option.split_asm if_split_asm)

lemma handle_file_event_records:
  assumes "handle_file_event fresh h ref ev0 = Inr r'" "fh_active h = Some r"
  shows "\<exists>ev. file_event_ok ev \<and> record_file ev r = Inr r'"
proof -
  obtain ev r1 p where ev: "file_event_ok ev" "file_session h ref p = Some r1" "record_file ev r1 = Inr r'"
    using assms(1) by (auto simp: handle_file_event_def Let_def split: option.split_asm if_split_asm)
  then show ?thesis using file_session_active[OF ev(2)] assms(2) by auto
qed

lemma file_step_ok:
  assumes "files_ok (rn_files r) (rn_order r)"
  shows "files_ok (rn_files (file_step x r)) (rn_order (file_step x r))"
proof -
  obtain fresh h ref ev where x: "x = (fresh, h, ref, ev)" by (cases x)
  show ?thesis
  proof (cases "handle_file_event fresh (h\<lparr>fh_active := Some r\<rparr>) ref ev")
    case (Inl e) then show ?thesis using assms by (simp add: file_step_def x)
  next
    case (Inr r')
    then show ?thesis using handle_file_event_records[OF Inr] record_file_ok[OF assms] by (auto simp: file_step_def x)
  qed
qed

lemma file_run_ok:
  "files_ok (rn_files r) (rn_order r) \<Longrightarrow> files_ok (rn_files (file_run xs r)) (rn_order (file_run xs r))"
  by (induction xs arbitrary: r) (simp_all add: file_run_def file_step_ok)

text \<open>\<^bold>\<open>C26\<close> (the file table).  From a fresh session on, and whatever file events the engine
  reports, every entry of the table is well-formed (a valid identifier, a name without path
  separators or line breaks, an offset within the size), the order lists exactly the entries of
  the table, each once, and there are at most 128 of them.\<close>

theorem file_table_invariant:
  assumes "rn_files r = []" "rn_order r = []"
  shows "let t = file_run xs r in
    distinct (rn_order t) \<and> set (rn_order t) = fst ` set (rn_files t) \<and> length (rn_order t) \<le> 128 \<and>
    (\<forall>k f. map_of (rn_files t) k = Some f \<longrightarrow> fe_id f = k \<and> file_event_ok f)"
proof -
  have ok: "files_ok (rn_files (file_run xs r)) (rn_order (file_run xs r))"
    using assms by (intro file_run_ok) (simp add: files_ok_def)
  have "length (rn_order (file_run xs r)) = card (fst ` set (rn_files (file_run xs r)))"
    using ok files_ok_keys[OF ok] distinct_card[of "rn_order (file_run xs r)"] by (simp add: files_ok_def)
  also have "\<dots> = length (rn_files (file_run xs r))"
    using ok distinct_card[of "map fst (rn_files (file_run xs r))"] by (simp add: files_ok_def)
  finally have len: "length (rn_order (file_run xs r)) \<le> 128" using ok by (simp add: files_ok_def)
  have entries: "fe_id f = k \<and> file_event_ok f" if "map_of (rn_files (file_run xs r)) k = Some f" for k f
    using ok map_of_SomeD[OF that] unfolding files_ok_def by blast
  have "distinct (rn_order (file_run xs r))" using ok by (simp add: files_ok_def)
  then show ?thesis using len entries files_ok_keys[OF ok] by (simp add: Let_def)
qed

definition sample_file_session :: running_session where
  "sample_file_session = \<lparr>rn_token = 0, rn_session = \<lparr>hn_ref = \<lparr>rf_session = ''session1'', rf_epoch = 1\<rparr>,
       hn_display = [], hn_request = [], hn_id = ''session1'', hn_state = ''active'', hn_version = 1,
       hn_host = ''host'', hn_controller = ''controller'', hn_permissions = [''view'', ''files.send''],
       hn_ticket = [], hn_lease = [], hn_grant = [], hn_host_jwk = [], hn_controller_jwk = [], hn_seq = 1,
       hn_approval_expires = 0\<rparr>,
     rn_nonce = [], rn_fingerprint = [],
     rn_grant = zero_grant\<lparr>lg_id := ''pairing1'', lg_permissions := [''view'', ''files.send''], lg_version := 1,
       lg_expires := 1000\<rparr>,
     rn_ticket_jti = [], rn_deadline = Some 1000, rn_last_renew = 0, rn_sequence = 0, rn_peer_max = 0,
     rn_peer_seen = [], rn_relay = False, rn_queue = [], rn_flushing = False, rn_proofs = [], rn_offer = [],
     rn_answer = [], rn_started = True, rn_verified = True, rn_files = [], rn_order = [], rn_closing = False,
     rn_stopped = False, rn_superseded = False\<rparr>"

definition sample_offer :: file_event where
  "sample_offer = \<lparr>fe_event = ''offer'', fe_id = ''01234567-89ab-4cde-8f01-23456789abcd'', fe_name = ''a.txt'',
     fe_size = 10, fe_offset = 0, fe_outgoing = False, fe_error = [], fe_may_be_saved = False\<rparr>"

definition sample_file_host :: file_host where
  "sample_file_host = \<lparr>fh_now = 5, fh_disabled = False,
     fh_disk = empty_disk\<lparr>ds_enabled := True, ds_grants := [(''pairing1'', rn_grant sample_file_session)]\<rparr>,
     fh_active = None\<rparr>"

theorem file_table_invariant_witness:
  "let t = file_run [([], sample_file_host, hn_ref (rn_session sample_file_session), sample_offer)] sample_file_session in
     rn_order t = [fe_id sample_offer] \<and> set (rn_order t) = fst ` set (rn_files t)"
proof -
  let ?t = "file_run [([], sample_file_host, hn_ref (rn_session sample_file_session), sample_offer)] sample_file_session"
  have "rn_order ?t = [fe_id sample_offer]" "rn_files sample_file_session = []" "rn_order sample_file_session = []"
    by code_simp+
  then show ?thesis
    using file_table_invariant[of sample_file_session "[([], sample_file_host, hn_ref (rn_session sample_file_session), sample_offer)]"]
    by (simp add: Let_def)
qed

end
