(* ===== verification/Spec2Isabelle.thy ===== *)
theory Spec2Isabelle
  imports Connection_Path Nestlink_Auth Tunnel_Runtime Login_Outcome Managed_Agent Host_Acks Host_Keyset Host_Files
begin

text \<open>
  Verification of the Home Tunnel client.
\<close>

end
